(* ===== verification/Prelude.thy ===== *)
theory Prelude
  imports Main "HOL-Library.Word" "HOL-Library.Multiset" "HOL-Library.List_Lexorder"
begin

text \<open>
  Shared vocabulary of the development: how a Python \<open>str\<close> is represented, the exceptions
  the server can raise (those of \<open>str.encode\<close>, of the \<open>sqlite3\<close> driver and FastAPI's
  \<open>HTTPException\<close>), the error monad on \<open>exc + 'a\<close> that threads them, and list lemmas
  on filtering and key sorting that the store and the handlers share.
\<close>

section \<open>Python strings and bytes\<close>

text \<open>
  A Python \<open>str\<close> is a sequence of Unicode code points, each below \<open>0x110000\<close>; it may hold
  lone surrogates (\<open>0xD800\<close> to \<open>0xDFFF\<close>), which \<open>str.encode\<close> refuses. Bytes are
  8-bit words. \<open>py\<close> turns an ASCII literal of HOL into the code points Python would hold.
\<close>

type_synonym codepoint = nat
type_synonym pystr = "codepoint list"
type_synonym byte = "8 word"

definition py :: "string \<Rightarrow> pystr" where
  "py s = map of_char s"

definition valid_codepoint :: "codepoint \<Rightarrow> bool" where
  "valid_codepoint c \<longleftrightarrow> c < 0x110000"

definition is_surrogate :: "codepoint \<Rightarrow> bool" where
  "is_surrogate c \<longleftrightarrow> 0xD800 \<le> c \<and> c \<le> 0xDFFF"

definition valid_pystr :: "pystr \<Rightarrow> bool" where
  "valid_pystr s \<longleftrightarrow> list_all valid_codepoint s"

section \<open>Exceptions and the error monad\<close>

text \<open>
  The exceptions the server's code can raise or let through. \<open>HTTPException status detail\<close>
  is FastAPI's; the others are what \<open>str.encode\<close> and \<open>sqlite3\<close> raise on the paths the
  handlers reach, the \<open>ValueError\<close> of \<open>json.dumps(..., allow_nan=False)\<close> on a
  \<open>nan\<close> or an infinity, and the \<open>UnicodeDecodeError\<close> of \<open>bytes.decode()\<close>.
\<close>

datatype exc =
    UnicodeEncodeError
  | IntegrityError
  | OperationalError pystr
  | HTTPException nat pystr
  | ValueError
  | UnicodeDecodeError

type_synonym 'a result = "exc + 'a"

definition ebind :: "'a result \<Rightarrow> ('a \<Rightarrow> 'b result) \<Rightarrow> 'b result" where
  "ebind r f = (case r of Inl e \<Rightarrow> Inl e | Inr a \<Rightarrow> f a)"

named_theorems model_simps "equations of the model's operations used by the component proofs"

lemma ebind_Inl [simp]: "ebind (Inl e) f = Inl e"
  by (simp add: ebind_def)

lemma ebind_Inr [simp]: "ebind (Inr a) f = f a"
  by (simp add: ebind_def)

lemma ebind_eq_Inr [simp]:
  "ebind r f = Inr b \<longleftrightarrow> (\<exists>a. r = Inr a \<and> f a = Inr b)"
  by (cases r) auto

lemma ebind_eq_Inl:
  "ebind r f = Inl e \<longleftrightarrow> r = Inl e \<or> (\<exists>a. r = Inr a \<and> f a = Inl e)"
  by (cases r) auto

section \<open>Lists: filtering and sorting by a key\<close>

text \<open>
  \<open>ORDER BY k\<close> in SQL promises a permutation of its input sorted by \<open>k\<close>; \<open>sort_key\<close>
  is one such permutation, the stable one. These facts carry the proofs about
  \<open>SELECT ... ORDER BY\<close>.
\<close>

lemma set_sort_key_filter [simp]:
  "set (sort_key f (filter P xs)) = {x \<in> set xs. P x}"
  by (simp add: set_sort)

lemma sorted_wrt_map_filter:
  "sorted_wrt R (map f xs) \<Longrightarrow> sorted_wrt R (map f (filter P xs))"
  by (induction xs) auto

end
