(* ===== verification/Utf8.thy ===== *)
theory Utf8
  imports Prelude
begin

text \<open>
  \<open>str.encode()\<close> with its defaults (UTF-8, \<open>errors='strict'\<close>), as \<open>hash_password\<close>
  calls it (\<open>src/server.py\<close> line 67) and as the \<open>sqlite3\<close> driver applies it to every
  string it binds to a statement. A code point becomes one to four bytes; a surrogate
  raises \<open>UnicodeEncodeError\<close>. The lemmas say which strings raise, which is what the
  handlers' error paths depend on.
\<close>

section \<open>The encoder\<close>

definition utf8_char :: "codepoint \<Rightarrow> byte list result" where
  "utf8_char c =
     (if c < 0x80 then Inr [of_nat c]
      else if c < 0x800 then Inr [of_nat (0xC0 + c div 0x40), of_nat (0x80 + c mod 0x40)]
      else if c < 0x10000 then
        (if is_surrogate c then Inl UnicodeEncodeError
         else Inr [of_nat (0xE0 + c div 0x1000), of_nat (0x80 + c div 0x40 mod 0x40),
                   of_nat (0x80 + c mod 0x40)])
      else Inr [of_nat (0xF0 + c div 0x40000), of_nat (0x80 + c div 0x1000 mod 0x40),
                of_nat (0x80 + c div 0x40 mod 0x40), of_nat (0x80 + c mod 0x40)])"

fun utf8_encode :: "pystr \<Rightarrow> byte list result" where
  "utf8_encode [] = Inr []"
| "utf8_encode (c # cs) =
     ebind (utf8_char c) (\<lambda>b. ebind (utf8_encode cs) (\<lambda>bs. Inr (b @ bs)))"

text \<open>Whether \<open>str.encode()\<close> returns rather than raises.\<close>

definition encodable :: "pystr \<Rightarrow> bool" where
  "encodable s = (case utf8_encode s of Inl _ \<Rightarrow> False | Inr _ \<Rightarrow> True)"

section \<open>Properties of the encoding\<close>

text \<open>Which code points, and so which strings, make the encoder raise.\<close>

lemma utf8_char_Inl: "utf8_char c = Inl e \<longleftrightarrow> e = UnicodeEncodeError \<and> is_surrogate c"
  by (auto simp: utf8_char_def is_surrogate_def)

lemma utf8_char_Inr: "(\<exists>b. utf8_char c = Inr b) \<longleftrightarrow> \<not> is_surrogate c"
  by (auto simp: utf8_char_def is_surrogate_def)

lemma utf8_encode_Inl:
  "utf8_encode s = Inl e \<longleftrightarrow> e = UnicodeEncodeError \<and> (\<exists>c\<in>set s. is_surrogate c)"
proof (induction s)
  case Nil
  then show ?case by simp
next
  case (Cons c cs)
  show ?case
  proof (cases "utf8_char c")
    case (Inl e')
    then have "utf8_encode (c # cs) = Inl e'" by simp
    with Inl show ?thesis using utf8_char_Inl [of c e'] by (auto simp: utf8_char_Inl)
  next
    case (Inr b)
    then have "\<not> is_surrogate c" using utf8_char_Inr by blast
    with Inr Cons.IH show ?thesis by (cases "utf8_encode cs") auto
  qed
qed

lemma encodable_iff: "encodable s \<longleftrightarrow> (\<forall>c\<in>set s. \<not> is_surrogate c)"
  using utf8_encode_Inl [of s] by (cases "utf8_encode s") (auto simp: encodable_def)

lemma encodable_Inr: "encodable s \<longleftrightarrow> (\<exists>bs. utf8_encode s = Inr bs)"
  by (cases "utf8_encode s") (auto simp: encodable_def)

lemma encodable_ascii: "list_all (\<lambda>c. c < 0x80) s \<Longrightarrow> encodable s"
  by (auto simp: encodable_iff list_all_iff is_surrogate_def)

end
