(* ===== verification/Sha256.thy ===== *)
theory Sha256
  imports Utf8
begin

text \<open>
  The credential hasher, \<open>hash_password\<close> (\<open>src/server.py\<close> lines 66--67):
  \<open>hashlib.sha256(password.encode()).hexdigest()\<close>. SHA-256 is written out after FIPS 180-4
  on 32-bit words (\<open>32 word\<close>: \<open>+\<close> wraps modulo \<open>2^32\<close>, \<open>word_rotr\<close> rotates,
  \<open>drop_bit\<close> shifts right); \<open>hexdigest\<close> spells each byte as two lower-case hex digits.
\<close>

unbundle bit_operations_syntax

type_synonym word32 = "32 word"

section \<open>The SHA-256 functions and constants\<close>

definition Ch :: "word32 \<Rightarrow> word32 \<Rightarrow> word32 \<Rightarrow> word32" where
  "Ch x y z = (x AND y) XOR (NOT x AND z)"

definition Maj :: "word32 \<Rightarrow> word32 \<Rightarrow> word32 \<Rightarrow> word32" where
  "Maj x y z = (x AND y) XOR (x AND z) XOR (y AND z)"

definition Sigma0 :: "word32 \<Rightarrow> word32" where
  "Sigma0 x = word_rotr 2 x XOR word_rotr 13 x XOR word_rotr 22 x"

definition Sigma1 :: "word32 \<Rightarrow> word32" where
  "Sigma1 x = word_rotr 6 x XOR word_rotr 11 x XOR word_rotr 25 x"

definition sigma0 :: "word32 \<Rightarrow> word32" where
  "sigma0 x = word_rotr 7 x XOR word_rotr 18 x XOR drop_bit 3 x"

definition sigma1 :: "word32 \<Rightarrow> word32" where
  "sigma1 x = word_rotr 17 x XOR word_rotr 19 x XOR drop_bit 10 x"

definition sha_K :: "word32 list" where
  "sha_K = concat
    [[0x428a2f98, 0x71374491, 0xb5c0fbcf, 0xe9b5dba5, 0x3956c25b, 0x59f111f1, 0x923f82a4, 0xab1c5ed5],
     [0xd807aa98, 0x12835b01, 0x243185be, 0x550c7dc3, 0x72be5d74, 0x80deb1fe, 0x9bdc06a7, 0xc19bf174],
     [0xe49b69c1, 0xefbe4786, 0x0fc19dc6, 0x240ca1cc, 0x2de92c6f, 0x4a7484aa, 0x5cb0a9dc, 0x76f988da],
     [0x983e5152, 0xa831c66d, 0xb00327c8, 0xbf597fc7, 0xc6e00bf3, 0xd5a79147, 0x06ca6351, 0x14292967],
     [0x27b70a85, 0x2e1b2138, 0x4d2c6dfc, 0x53380d13, 0x650a7354, 0x766a0abb, 0x81c2c92e, 0x92722c85],
     [0xa2bfe8a1, 0xa81a664b, 0xc24b8b70, 0xc76c51a3, 0xd192e819, 0xd6990624, 0xf40e3585, 0x106aa070],
     [0x19a4c116, 0x1e376c08, 0x2748774c, 0x34b0bcb5, 0x391c0cb3, 0x4ed8aa4a, 0x5b9cca4f, 0x682e6ff3],
     [0x748f82ee, 0x78a5636f, 0x84c87814, 0x8cc70208, 0x90befffa, 0xa4506ceb, 0xbef9a3f7, 0xc67178f2]]"

text \<open>The eight working variables \<open>a\<close> to \<open>h\<close>, and the hash value of the same shape.\<close>

record sha_vars =
  va :: word32
  vb :: word32
  vc :: word32
  vd :: word32
  ve :: word32
  vf :: word32
  vg :: word32
  vh :: word32

definition sha_H0 :: sha_vars where
  "sha_H0 = \<lparr>va = 0x6a09e667, vb = 0xbb67ae85, vc = 0x3c6ef372, vd = 0xa54ff53a,
             ve = 0x510e527f, vf = 0x9b05688c, vg = 0x1f83d9ab, vh = 0x5be0cd19\<rparr>"

section \<open>Padding and message blocks\<close>

text \<open>\<open>be_bytes n v\<close>: the last \<open>n\<close> bytes of \<open>v\<close>, big-endian (\<open>of_nat\<close> into a byte
  keeps the value modulo 256).\<close>

definition be_bytes :: "nat \<Rightarrow> nat \<Rightarrow> byte list" where
  "be_bytes n v = map (\<lambda>i. of_nat (v div 256 ^ (n - 1 - i))) [0..<n]"

definition be_word :: "byte list \<Rightarrow> word32" where
  "be_word bs = of_nat (foldl (\<lambda>acc b. acc * 256 + unat b) 0 bs)"

definition sha_pad :: "byte list \<Rightarrow> byte list" where
  "sha_pad m =
     m @ [0x80] @ replicate ((119 - length m mod 64) mod 64) 0 @ be_bytes 8 (8 * length m)"

function chunks :: "nat \<Rightarrow> 'a list \<Rightarrow> 'a list list" where
  "chunks n xs = (if n = 0 \<or> xs = [] then [] else take n xs # chunks n (drop n xs))"
  by pat_completeness auto
termination
  by (relation "measure (\<lambda>(n, xs). length xs)") auto

declare chunks.simps [simp del]

section \<open>Message schedule and compression\<close>

fun sched_ext :: "nat \<Rightarrow> word32 list \<Rightarrow> word32 list" where
  "sched_ext 0 w = w"
| "sched_ext (Suc k) w =
     sched_ext k (w @ [sigma1 (w ! (length w - 2)) + w ! (length w - 7)
                        + sigma0 (w ! (length w - 15)) + w ! (length w - 16)])"

definition sha_schedule :: "byte list \<Rightarrow> word32 list" where
  "sha_schedule blk = sched_ext 48 (map be_word (chunks 4 blk))"

definition sha_round :: "sha_vars \<Rightarrow> word32 \<times> word32 \<Rightarrow> sha_vars" where
  "sha_round s kw =
     (let t1 = vh s + Sigma1 (ve s) + Ch (ve s) (vf s) (vg s) + fst kw + snd kw;
          t2 = Sigma0 (va s) + Maj (va s) (vb s) (vc s)
      in \<lparr>va = t1 + t2, vb = va s, vc = vb s, vd = vc s,
          ve = vd s + t1, vf = ve s, vg = vf s, vh = vg s\<rparr>)"

definition vars_add :: "sha_vars \<Rightarrow> sha_vars \<Rightarrow> sha_vars" where
  "vars_add h s = \<lparr>va = va h + va s, vb = vb h + vb s, vc = vc h + vc s, vd = vd h + vd s,
                   ve = ve h + ve s, vf = vf h + vf s, vg = vg h + vg s, vh = vh h + vh s\<rparr>"

definition sha_block :: "sha_vars \<Rightarrow> byte list \<Rightarrow> sha_vars" where
  "sha_block h blk = vars_add h (foldl sha_round h (zip sha_K (sha_schedule blk)))"

definition vars_list :: "sha_vars \<Rightarrow> word32 list" where
  "vars_list h = [va h, vb h, vc h, vd h, ve h, vf h, vg h, vh h]"

definition sha256 :: "byte list \<Rightarrow> byte list" where
  "sha256 m =
     concat (map (\<lambda>w. be_bytes 4 (unat w)) (vars_list (foldl sha_block sha_H0 (chunks 64 (sha_pad m)))))"

section \<open>Hex digest and the password hash\<close>

definition hex_digit :: "nat \<Rightarrow> codepoint" where
  "hex_digit d = (if d < 10 then 48 + d else 87 + d)"

definition hexdigest :: "byte list \<Rightarrow> pystr" where
  "hexdigest bs = concat (map (\<lambda>b. [hex_digit (unat b div 16), hex_digit (unat b mod 16)]) bs)"

definition is_hex_digit :: "codepoint \<Rightarrow> bool" where
  "is_hex_digit c \<longleftrightarrow> (48 \<le> c \<and> c \<le> 57) \<or> (97 \<le> c \<and> c \<le> 102)"

definition hash_password :: "pystr \<Rightarrow> pystr result" where
  "hash_password password = ebind (utf8_encode password) (\<lambda>bs. Inr (hexdigest (sha256 bs)))"

section \<open>Properties of the hasher\<close>

text \<open>
  A digest is 32 bytes and its hex digest 64 characters of \<open>[0-9a-f]\<close>; \<open>hash_password\<close>
  fails exactly on passwords holding a surrogate.
\<close>

lemma length_be_bytes [simp]: "length (be_bytes n v) = n"
  by (simp add: be_bytes_def)

lemma sha256_length: "length (sha256 m) = 32"
  by (simp add: sha256_def vars_list_def)

lemma is_hex_digit_hex_digit: "d < 16 \<Longrightarrow> is_hex_digit (hex_digit d)"
  by (simp add: is_hex_digit_def hex_digit_def)

lemma length_hexdigest [simp]: "length (hexdigest bs) = 2 * length bs"
  by (induction bs) (simp_all add: hexdigest_def)

lemma hexdigest_Cons:
  "hexdigest (b # bs) = hex_digit (unat b div 16) # hex_digit (unat b mod 16) # hexdigest bs"
  by (simp add: hexdigest_def)

lemma hexdigest_alphabet: "list_all is_hex_digit (hexdigest bs)"
proof (induction bs)
  case Nil
  then show ?case by (simp add: hexdigest_def)
next
  case (Cons b bs)
  have "unat b < 256" using unsigned_less [of b] by simp
  then have "unat b div 16 < 16" by simp
  with Cons show ?case by (simp add: hexdigest_Cons is_hex_digit_hex_digit)
qed

lemma hash_password_Inr:
  "hash_password p = Inr h \<longleftrightarrow> (\<exists>bs. utf8_encode p = Inr bs \<and> h = hexdigest (sha256 bs))"
  by (auto simp: hash_password_def)

lemma hash_password_digest:
  "hash_password p = Inr h \<Longrightarrow> length h = 64 \<and> list_all is_hex_digit h"
  by (auto simp: hash_password_Inr sha256_length hexdigest_alphabet)


lemma hash_password_encodable: "hash_password p = Inr h \<Longrightarrow> encodable h"
proof -
  assume "hash_password p = Inr h"
  then have "list_all is_hex_digit h" by (simp add: hash_password_digest)
  then have "list_all (\<lambda>c. c < 0x80) h" by (auto simp: list_all_iff is_hex_digit_def)
  then show "encodable h" by (rule encodable_ascii)
qed


lemma hash_password_ok: "\<forall>c\<in>set p. \<not> is_surrogate c \<Longrightarrow> \<exists>h. hash_password p = Inr h"
proof -
  assume "\<forall>c\<in>set p. \<not> is_surrogate c"
  then have "encodable p" by (simp add: encodable_iff)
  then obtain bs where "utf8_encode p = Inr bs" by (auto simp: encodable_Inr)
  then show ?thesis by (simp add: hash_password_def)
qed

section \<open>Claims about the hasher\<close>

text \<open>
  C17: for every password without a surrogate, \<open>hash_password\<close> returns a digest of exactly
  64 characters, each a lower-case hex digit: the fixed-length hex digest of section 4.1
  of the spec.
\<close>

theorem hash_password_hex_digest:
  "\<forall>c\<in>set p. \<not> is_surrogate c \<Longrightarrow>
   \<exists>h. hash_password p = Inr h \<and> length h = 64 \<and> list_all is_hex_digit h"
  using hash_password_ok hash_password_digest by blast

theorem hash_password_hex_digest_witness:
  "\<exists>h. hash_password (py ''secret'') = Inr h \<and> length h = 64 \<and> list_all is_hex_digit h"
  by (rule hash_password_hex_digest) (simp add: py_def is_surrogate_def)

text \<open>
  C18: \<open>hash_password\<close> raises exactly when the password holds a surrogate, and then raises
  \<open>UnicodeEncodeError\<close> (from \<open>password.encode()\<close>); it is total on every other string.
\<close>

theorem hash_password_Inl:
  "hash_password p = Inl e \<longleftrightarrow> e = UnicodeEncodeError \<and> (\<exists>c\<in>set p. is_surrogate c)"
  by (auto simp: hash_password_def ebind_eq_Inl utf8_encode_Inl)

theorem hash_password_error_witness:
  "hash_password [0x61, 0xD800] = Inl UnicodeEncodeError"
  by (simp add: hash_password_Inl is_surrogate_def)

end
