(* ===== verification/Store.thy ===== *)
theory Store
  imports Utf8 "HOL-Library.Product_Lexorder"
begin

text \<open>
  The SQLite file \<open>messenger.db\<close> as the server sees it (\<open>src/server.py\<close>): the two tables
  that \<open>init_db\<close> creates (lines 46--61), the connections that \<open>get_db\<close> opens (lines
  41--44), and the four statements the handlers run (lines 75, 88, 99, 108 and 118--120).
  A statement is a function on the file contents that returns the new contents, a result,
  or the \<open>sqlite3\<close> exception it raises; SQLite checks a statement in the order the model
  does: the table must exist (at prepare time), every bound string must encode to UTF-8
  (at bind time), then the constraint is checked (at step time).

  The order of the rows a \<open>SELECT\<close> returns is unspecified by SQL where the statement has no
  \<open>ORDER BY\<close>, and unspecified among ties where it has one. Statements that read rows are
  therefore parameterised by the ordering the engine picks, and \<open>scan_contract\<close> and
  \<open>order_by_contract\<close> state what SQL promises of it.
\<close>

section \<open>Rows, tables and the file\<close>

text \<open>A row of \<open>users\<close> (lines 49--52).\<close>

record user_row =
  username :: pystr
  password_hash :: pystr

text \<open>A row of \<open>messages\<close> (lines 53--59); the pydantic model \<open>Message\<close> (lines 33--38)
  has the same fields, and \<open>Message(**dict(row))\<close> (line 121) copies them.\<close>

record msg_row =
  msg_id :: int
  sender :: pystr
  receiver :: pystr
  msg_text :: pystr
  timestamp :: pystr

text \<open>
  The file: each table is absent (\<open>None\<close>) until \<open>CREATE TABLE\<close> runs, else its rows in
  rowid order. \<open>msg_seq\<close> is the \<open>sqlite_sequence\<close> entry that \<open>AUTOINCREMENT\<close> keeps
  for \<open>messages\<close>: the largest id ever handed out (0 before the first insert).
\<close>

record db =
  users_tbl :: "user_row list option"
  msgs_tbl :: "msg_row list option"
  msg_seq :: int

text \<open>The process: the file and the number of connections opened and not yet closed.\<close>

record server =
  dbfile :: db
  open_conns :: nat

definition empty_file :: db where
  "empty_file = \<lparr>users_tbl = None, msgs_tbl = None, msg_seq = 0\<rparr>"

text \<open>The largest rowid SQLite can hand out: a signed 64-bit integer.\<close>

definition max_rowid :: int where
  "max_rowid = 2 ^ 63 - 1"

section \<open>Connections\<close>

text \<open>\<open>open_conns\<close> counts the connections opened by \<open>get_db\<close> and not closed by an
  explicit \<open>conn.close()\<close>. A connection a handler abandons (an exception before its
  \<open>close\<close>) stays counted: CPython would finalise it once the frame's last reference is
  dropped, at a time the code does not control, which is not modelled.\<close>

definition get_db :: "server \<Rightarrow> server" where
  "get_db s = s\<lparr>open_conns := Suc (open_conns s)\<rparr>"

definition conn_close :: "server \<Rightarrow> server" where
  "conn_close s = s\<lparr>open_conns := open_conns s - 1\<rparr>"

section \<open>Schema creation\<close>

text \<open>\<open>init_db\<close>: both \<open>CREATE TABLE IF NOT EXISTS\<close> statements, committed, on a
  connection that is closed again.\<close>

definition create_tables :: "db \<Rightarrow> db" where
  "create_tables d =
     d\<lparr>users_tbl := Some (case users_tbl d of None \<Rightarrow> [] | Some rs \<Rightarrow> rs),
       msgs_tbl := Some (case msgs_tbl d of None \<Rightarrow> [] | Some rs \<Rightarrow> rs)\<rparr>"

definition init_db :: "server \<Rightarrow> server" where
  "init_db s = (let s1 = get_db s in conn_close (s1\<lparr>dbfile := create_tables (dbfile s1)\<rparr>))"

section \<open>Binding parameters\<close>

text \<open>The driver encodes every \<open>str\<close> parameter to UTF-8 before it binds it.\<close>

definition bind_strs :: "pystr list \<Rightarrow> unit result" where
  "bind_strs ps = (if list_all encodable ps then Inr () else Inl UnicodeEncodeError)"

definition table :: "'r list option \<Rightarrow> 'r list result" where
  "table t = (case t of None \<Rightarrow> Inl (OperationalError (py ''no such table'')) | Some rs \<Rightarrow> Inr rs)"

section \<open>The contracts of row order\<close>

definition scan_contract :: "('r list \<Rightarrow> 'r list) \<Rightarrow> bool" where
  "scan_contract scan \<longleftrightarrow> (\<forall>rs. mset (scan rs) = mset rs)"

definition order_by_contract :: "('r \<Rightarrow> 'k::linorder) \<Rightarrow> ('r list \<Rightarrow> 'r list) \<Rightarrow> bool" where
  "order_by_contract key ob \<longleftrightarrow> (\<forall>rs. mset (ob rs) = mset rs \<and> sorted (map key (ob rs)))"

text \<open>What SQLite does on this schema. \<open>SELECT username FROM users\<close> (line 99) is answered
  from the covering index \<open>sqlite_autoindex_users_1\<close> of the primary key, so the names come
  in the index's BINARY order: \<open>memcmp\<close> on the UTF-8 bytes, which for encodable strings is
  the lexicographic order of the code points. \<open>rowid_scan\<close> is the plain table scan in
  rowid (insertion) order, another order the contract admits. \<open>ORDER BY timestamp\<close>
  (line 120) is a stable sort of the rowid-ordered matches. \<open>desc_ties_order\<close> is another
  order the contract admits, which breaks ties by descending id.\<close>

definition username_index_scan :: "user_row list \<Rightarrow> user_row list" where
  "username_index_scan rs = sort_key username rs"

definition rowid_scan :: "'r list \<Rightarrow> 'r list" where
  "rowid_scan rs = rs"

definition stable_order_by :: "('r \<Rightarrow> 'k::linorder) \<Rightarrow> 'r list \<Rightarrow> 'r list" where
  "stable_order_by key rs = sort_key key rs"

definition desc_ties_order :: "msg_row list \<Rightarrow> msg_row list" where
  "desc_ties_order rs = sort_key (\<lambda>r. (timestamp r, - msg_id r)) rs"

section \<open>The statements\<close>

text \<open>Line 75: \<open>INSERT INTO users (username, password_hash) VALUES (?, ?)\<close>; the primary
  key makes a second row with the same username an \<open>IntegrityError\<close>.\<close>

definition insert_user :: "pystr \<Rightarrow> pystr \<Rightarrow> db \<Rightarrow> db result" where
  "insert_user u h d =
     ebind (table (users_tbl d)) (\<lambda>rs.
     ebind (bind_strs [u, h]) (\<lambda>_.
       if u \<in> set (map username rs) then Inl IntegrityError
       else Inr (d\<lparr>users_tbl := Some (rs @ [\<lparr>username = u, password_hash = h\<rparr>])\<rparr>)))"

text \<open>Lines 88--89: \<open>SELECT password_hash FROM users WHERE username = ?\<close> and
  \<open>fetchone()\<close>: the first row found, if any.\<close>

definition select_password_hash ::
  "(user_row list \<Rightarrow> user_row list) \<Rightarrow> pystr \<Rightarrow> db \<Rightarrow> pystr option result" where
  "select_password_hash scan u d =
     ebind (table (users_tbl d)) (\<lambda>rs.
     ebind (bind_strs [u]) (\<lambda>_.
       Inr (map_option password_hash (find (\<lambda>r. username r = u) (scan rs)))))"

text \<open>Lines 99--100: \<open>SELECT username FROM users\<close>, in whatever order the engine scans.\<close>

definition select_usernames :: "(user_row list \<Rightarrow> user_row list) \<Rightarrow> db \<Rightarrow> pystr list result" where
  "select_usernames scan d = ebind (table (users_tbl d)) (\<lambda>rs. Inr (map username (scan rs)))"

text \<open>
  Line 108: \<open>INSERT INTO messages (sender, receiver, text) VALUES (?, ?, ?)\<close>. The id is
  chosen by \<open>AUTOINCREMENT\<close>: one more than the larger of \<open>sqlite_sequence\<close> and the
  largest id in the table; when that is already \<open>max_rowid\<close> the insert fails with
  \<open>SQLITE_FULL\<close>, which the driver raises as \<open>OperationalError\<close>. The timestamp is the
  column default \<open>CURRENT_TIMESTAMP\<close>, the clock \<open>now\<close> at the time of the statement.
\<close>

definition max_id :: "msg_row list \<Rightarrow> int" where
  "max_id rs = fold max (map msg_id rs) 0"

definition insert_message :: "pystr \<Rightarrow> pystr \<Rightarrow> pystr \<Rightarrow> pystr \<Rightarrow> db \<Rightarrow> db result" where
  "insert_message now sndr rcvr txt d =
     ebind (table (msgs_tbl d)) (\<lambda>rs.
     ebind (bind_strs [sndr, rcvr, txt]) (\<lambda>_.
       let m = max (msg_seq d) (max_id rs) in
       if max_rowid \<le> m then Inl (OperationalError (py ''database or disk is full''))
       else Inr (d\<lparr>msgs_tbl := Some (rs @ [\<lparr>msg_id = m + 1, sender = sndr, receiver = rcvr,
                                           msg_text = txt, timestamp = now\<rparr>]),
                  msg_seq := m + 1\<rparr>)))"

text \<open>Lines 118--120: the messages between two users, both directions, \<open>ORDER BY timestamp\<close>.\<close>

definition between :: "pystr \<Rightarrow> pystr \<Rightarrow> msg_row \<Rightarrow> bool" where
  "between u1 u2 r \<longleftrightarrow> (sender r = u1 \<and> receiver r = u2) \<or> (sender r = u2 \<and> receiver r = u1)"

definition select_conversation ::
  "(msg_row list \<Rightarrow> msg_row list) \<Rightarrow> pystr \<Rightarrow> pystr \<Rightarrow> db \<Rightarrow> msg_row list result" where
  "select_conversation ob u1 u2 d =
     ebind (table (msgs_tbl d)) (\<lambda>rs.
     ebind (bind_strs [u1, u2, u2, u1]) (\<lambda>_.
       Inr (ob (filter (between u1 u2) rs))))"

section \<open>The state after start-up, and the order the spec asks for\<close>

text \<open>Importing the module runs \<open>init_db()\<close> (line 63) on the file; on a fresh file this
  is the state every request starts from. \<open>ts_id_before\<close> is the order of section 3 of the
  spec: by timestamp, ties by id.\<close>

definition initial_server :: server where
  "initial_server = init_db \<lparr>dbfile = empty_file, open_conns = 0\<rparr>"

definition ts_id_before :: "msg_row \<Rightarrow> msg_row \<Rightarrow> bool" where
  "ts_id_before a b \<longleftrightarrow> timestamp a < timestamp b \<or> (timestamp a = timestamp b \<and> msg_id a < msg_id b)"

section \<open>Well-formed files\<close>

text \<open>
  What every file the server produces satisfies: both tables exist, usernames are distinct
  (the primary key), message ids increase in rowid order, lie in \<open>1..msg_seq\<close>, and
  \<open>msg_seq\<close> stays within the 64-bit rowid range; every stored string is encodable,
  since the driver refuses to bind any other.
\<close>

definition wf_users :: "user_row list \<Rightarrow> bool" where
  "wf_users rs \<longleftrightarrow> distinct (map username rs)
     \<and> list_all (\<lambda>r. encodable (username r) \<and> encodable (password_hash r)) rs"

definition wf_msgs :: "int \<Rightarrow> msg_row list \<Rightarrow> bool" where
  "wf_msgs seq rs \<longleftrightarrow> 0 \<le> seq \<and> seq \<le> max_rowid \<and> sorted_wrt (<) (map msg_id rs)
     \<and> list_all (\<lambda>r. 0 < msg_id r \<and> msg_id r \<le> seq
                    \<and> encodable (sender r) \<and> encodable (receiver r) \<and> encodable (msg_text r)) rs"

definition wf_db :: "db \<Rightarrow> bool" where
  "wf_db d \<longleftrightarrow>
     (case (users_tbl d, msgs_tbl d) of
        (Some us, Some ms) \<Rightarrow> wf_users us \<and> wf_msgs (msg_seq d) ms
      | _ \<Rightarrow> False)"

section \<open>Properties of the statements\<close>

text \<open>Opening and closing one connection leaves the process as it was.\<close>

lemma dbfile_get_db [simp]: "dbfile (get_db s) = dbfile s"
  by (simp add: get_db_def)

lemma conn_close_get_db [simp]: "conn_close (get_db s) = s"
  by (simp add: get_db_def conn_close_def)

lemma conn_close_get_db_update [simp]: "conn_close ((get_db s)\<lparr>dbfile := d\<rparr>) = s\<lparr>dbfile := d\<rparr>"
  by (simp add: get_db_def conn_close_def)

lemma get_db_conns: "get_db s = s\<lparr>open_conns := Suc (open_conns s)\<rparr>"
  by (simp add: get_db_def)

lemma bind_strs_Inr [simp]: "bind_strs ps = Inr u \<longleftrightarrow> list_all encodable ps"
  by (simp add: bind_strs_def)

lemma bind_strs_Inl: "bind_strs ps = Inl e \<longleftrightarrow> e = UnicodeEncodeError \<and> \<not> list_all encodable ps"
  by (auto simp: bind_strs_def)

lemma bind_strs_fail [simp]: "\<not> list_all encodable ps \<Longrightarrow> bind_strs ps = Inl UnicodeEncodeError"
  by (simp add: bind_strs_def)

lemma bind_strs_ok [simp]: "list_all encodable ps \<Longrightarrow> bind_strs ps = Inr ()"
  by (simp add: bind_strs_def)

lemma table_Some [simp]: "table (Some rs) = Inr rs"
  by (simp add: table_def)

lemma table_None [simp]: "table None = Inl (OperationalError (py ''no such table''))"
  by (simp add: table_def)

lemma max_id_bound: "list_all (\<lambda>r. msg_id r \<le> seq) rs \<Longrightarrow> 0 \<le> seq \<Longrightarrow> max_id rs \<le> seq"
proof -
  have "\<And>a. a \<le> seq \<Longrightarrow> list_all (\<lambda>r. msg_id r \<le> seq) rs \<Longrightarrow> fold max (map msg_id rs) a \<le> seq"
    by (induction rs) auto
  then show "list_all (\<lambda>r. msg_id r \<le> seq) rs \<Longrightarrow> 0 \<le> seq \<Longrightarrow> max_id rs \<le> seq"
    by (simp add: max_id_def)
qed

lemma wf_db_msgs: "wf_db d \<Longrightarrow> msgs_tbl d = Some rs \<Longrightarrow> wf_msgs (msg_seq d) rs"
  by (auto simp: wf_db_def split: option.splits)

lemma wf_db_users: "wf_db d \<Longrightarrow> users_tbl d = Some rs \<Longrightarrow> wf_users rs"
  by (auto simp: wf_db_def split: option.splits)

lemma wf_db_seq: "wf_db d \<Longrightarrow> msgs_tbl d = Some rs \<Longrightarrow> max (msg_seq d) (max_id rs) = msg_seq d"
proof -
  assume "wf_db d" "msgs_tbl d = Some rs"
  then have w: "wf_msgs (msg_seq d) rs" by (rule wf_db_msgs)
  then have "list_all (\<lambda>r. msg_id r \<le> msg_seq d) rs" "0 \<le> msg_seq d"
    by (auto simp: wf_msgs_def list_all_iff)
  then have "max_id rs \<le> msg_seq d" by (rule max_id_bound)
  then show ?thesis by simp
qed

lemma create_tables_idem: "create_tables (create_tables d) = create_tables d"
  by (simp add: create_tables_def)

lemma create_tables_wf: "wf_db d \<Longrightarrow> create_tables d = d"
  by (auto simp: create_tables_def wf_db_def split: option.splits)

lemma wf_db_create_empty: "wf_db (create_tables empty_file)"
  by (simp add: create_tables_def empty_file_def wf_db_def wf_users_def wf_msgs_def max_rowid_def)

lemma insert_user_Inr:
  "insert_user u h d = Inr d' \<longleftrightarrow>
     (\<exists>us. users_tbl d = Some us \<and> encodable u \<and> encodable h \<and> u \<notin> set (map username us)
        \<and> d' = d\<lparr>users_tbl := Some (us @ [\<lparr>username = u, password_hash = h\<rparr>])\<rparr>)"
  by (cases "users_tbl d") (auto simp: insert_user_def)

lemma insert_user_dup:
  "users_tbl d = Some us \<Longrightarrow> encodable u \<Longrightarrow> encodable h \<Longrightarrow> u \<in> set (map username us)
   \<Longrightarrow> insert_user u h d = Inl IntegrityError"
  by (simp add: insert_user_def)

lemma insert_user_wf: "wf_db d \<Longrightarrow> insert_user u h d = Inr d' \<Longrightarrow> wf_db d'"
  by (auto simp: insert_user_Inr wf_db_def wf_users_def split: option.splits)

lemma insert_message_Inr:
  "wf_db d \<Longrightarrow> insert_message now s r t d = Inr d' \<longleftrightarrow>
     (\<exists>ms. msgs_tbl d = Some ms \<and> encodable s \<and> encodable r \<and> encodable t \<and> msg_seq d < max_rowid
        \<and> d' = d\<lparr>msgs_tbl := Some (ms @ [\<lparr>msg_id = msg_seq d + 1, sender = s, receiver = r,
                                          msg_text = t, timestamp = now\<rparr>]),
                  msg_seq := msg_seq d + 1\<rparr>)"
  by (cases "msgs_tbl d") (auto simp: insert_message_def wf_db_seq Let_def not_le)

lemma insert_message_full:
  "msgs_tbl d = Some ms \<Longrightarrow> list_all encodable [s, r, t] \<Longrightarrow> msg_seq d = max_rowid
   \<Longrightarrow> insert_message now s r t d = Inl (OperationalError (py ''database or disk is full''))"
  by (simp add: insert_message_def Let_def)

lemma insert_message_wf: "wf_db d \<Longrightarrow> insert_message now s r t d = Inr d' \<Longrightarrow> wf_db d'"
proof -
  assume wf: "wf_db d" and ins: "insert_message now s r t d = Inr d'"
  from wf ins obtain ms where ms: "msgs_tbl d = Some ms" and enc: "encodable s" "encodable r" "encodable t"
    and lt: "msg_seq d < max_rowid"
    and d': "d' = d\<lparr>msgs_tbl := Some (ms @ [\<lparr>msg_id = msg_seq d + 1, sender = s, receiver = r,
                                          msg_text = t, timestamp = now\<rparr>]),
                  msg_seq := msg_seq d + 1\<rparr>"
    by (auto simp: insert_message_Inr)
  from wf ms have "wf_msgs (msg_seq d) ms" by (rule wf_db_msgs)
  then have "wf_msgs (msg_seq d + 1) (ms @ [\<lparr>msg_id = msg_seq d + 1, sender = s, receiver = r,
                                          msg_text = t, timestamp = now\<rparr>])"
    using enc lt by (auto simp: wf_msgs_def sorted_wrt_append list_all_iff)
  with wf ms d' show "wf_db d'" by (auto simp: wf_db_def split: option.splits)
qed


section \<open>Row order\<close>

text \<open>
  A lookup by primary key does not depend on the scan order; \<open>ORDER BY\<close> gives a sorted
  permutation whatever order the engine picks; the stable sort keeps rows with the same
  key in rowid order, and another admissible order does not.
\<close>

lemma find_key_Some:
  "distinct (map k xs) \<Longrightarrow> find (\<lambda>r. k r = u) xs = Some x \<longleftrightarrow> x \<in> set xs \<and> k x = u"
  by (induction xs) (auto simp: image_iff)

lemma find_key_perm:
  assumes "distinct (map k xs)" "mset ys = mset xs"
  shows "find (\<lambda>r. k r = u) ys = find (\<lambda>r. k r = u) xs"
proof -
  have sets: "set ys = set xs" using assms(2) by (metis set_mset_mset)
  have "distinct (map k ys)"
    using assms mset_eq_imp_distinct_iff [of "map k ys" "map k xs"] by simp
  show ?thesis
  proof (cases "find (\<lambda>r. k r = u) xs")
    case None
    then have "find (\<lambda>r. k r = u) ys = None" using sets by (simp add: find_None_iff)
    with None show ?thesis by simp
  next
    case (Some x)
    then have "x \<in> set ys \<and> k x = u" using assms(1) sets by (simp add: find_key_Some)
    with Some \<open>distinct (map k ys)\<close> show ?thesis by (simp add: find_key_Some)
  qed
qed

lemma select_password_hash_wf:
  assumes "wf_db d" "users_tbl d = Some us" "encodable u" "scan_contract scan"
  shows "select_password_hash scan u d = Inr (map_option password_hash (find (\<lambda>r. username r = u) us))"
proof -
  have "distinct (map username us)" using wf_db_users [OF assms(1,2)] by (simp add: wf_users_def)
  moreover have "mset (scan us) = mset us" using assms(4) by (simp add: scan_contract_def)
  ultimately have "find (\<lambda>r. username r = u) (scan us) = find (\<lambda>r. username r = u) us"
    by (rule find_key_perm)
  with assms(2,3) show ?thesis by (simp add: select_password_hash_def)
qed

lemma select_usernames_perm:
  "users_tbl d = Some us \<Longrightarrow> scan_contract scan \<Longrightarrow>
   \<exists>xs. select_usernames scan d = Inr xs \<and> mset xs = mset (map username us)"
  by (simp add: select_usernames_def scan_contract_def)

lemma select_conversation_ok:
  "msgs_tbl d = Some ms \<Longrightarrow> encodable u1 \<Longrightarrow> encodable u2 \<Longrightarrow>
   select_conversation ob u1 u2 d = Inr (ob (filter (between u1 u2) ms))"
  by (simp add: select_conversation_def)

lemma order_by_contractD:
  "order_by_contract key ob \<Longrightarrow> mset (ob rs) = mset rs \<and> sorted (map key (ob rs))"
  by (simp add: order_by_contract_def)

lemma stable_order_by_contract: "order_by_contract key (stable_order_by key)"
  by (simp add: order_by_contract_def stable_order_by_def)

lemma rowid_scan_contract: "scan_contract rowid_scan"
  by (simp add: scan_contract_def rowid_scan_def)

lemma username_index_scan_contract: "scan_contract username_index_scan"
  by (simp add: scan_contract_def username_index_scan_def)

lemma stable_order_by_ties:
  "sorted_wrt (<) (map msg_id rs) \<Longrightarrow>
   sorted_wrt (<) (map msg_id (filter (\<lambda>r. timestamp r = k) (stable_order_by timestamp rs)))"
  by (simp add: stable_order_by_def sort_key_stable sorted_wrt_map_filter)

lemma sorted_map_fst_lex:
  "sorted (map (\<lambda>x. (f x, g x)) xs) \<Longrightarrow> sorted (map f xs)"
  by (induction xs) (auto simp: less_eq_prod_def)

lemma desc_ties_order_contract: "order_by_contract timestamp desc_ties_order"
  unfolding order_by_contract_def desc_ties_order_def
proof
  fix rs :: "msg_row list"
  have s: "sorted (map (\<lambda>r. (timestamp r, - msg_id r)) (sort_key (\<lambda>r. (timestamp r, - msg_id r)) rs))"
    by (rule sorted_sort_key)
  show "mset (sort_key (\<lambda>r. (timestamp r, - msg_id r)) rs) = mset rs
      \<and> sorted (map timestamp (sort_key (\<lambda>r. (timestamp r, - msg_id r)) rs))"
    using sorted_map_fst_lex [OF s] by simp
qed


section \<open>Start-up and the stable sort\<close>

lemma initial_server_eq:
  "initial_server = \<lparr>dbfile = \<lparr>users_tbl = Some [], msgs_tbl = Some [], msg_seq = 0\<rparr>, open_conns = 0\<rparr>"
  by (simp add: initial_server_def init_db_def get_db_def conn_close_def create_tables_def empty_file_def)

lemma ts_id_before_trans: "ts_id_before a b \<Longrightarrow> ts_id_before b c \<Longrightarrow> ts_id_before a c"
  by (auto simp: ts_id_before_def)

lemma sorted_ts_id_insort:
  "sorted_wrt ts_id_before ys \<Longrightarrow> (\<forall>y\<in>set ys. msg_id x < msg_id y)
   \<Longrightarrow> sorted_wrt ts_id_before (insort_key timestamp x ys)"
proof (induction ys)
  case Nil
  then show ?case by simp
next
  case (Cons y ys)
  show ?case
  proof (cases "timestamp x \<le> timestamp y")
    case True
    with Cons.prems have "ts_id_before x y" by (auto simp: ts_id_before_def)
    with Cons.prems True show ?thesis by (auto intro: ts_id_before_trans)
  next
    case False
    then have "ts_id_before y x" by (simp add: ts_id_before_def not_le)
    with Cons False show ?thesis by (auto simp: set_insort_key)
  qed
qed

lemma sorted_ts_id_sort_key:
  "sorted_wrt (<) (map msg_id xs) \<Longrightarrow> sorted_wrt ts_id_before (sort_key timestamp xs)"
proof (induction xs)
  case Nil
  then show ?case by simp
next
  case (Cons x xs)
  then have "\<forall>y\<in>set (sort_key timestamp xs). msg_id x < msg_id y" by (simp add: set_sort)
  with Cons show ?case by (simp add: sorted_ts_id_insort)
qed

lemma initial_server_wf: "wf_db (dbfile initial_server)"
  by (simp add: initial_server_eq wf_db_def wf_users_def wf_msgs_def max_rowid_def)

lemma order_by_unique:
  "order_by_contract key ob \<Longrightarrow> inj_on key (set rs) \<Longrightarrow> ob rs = sort_key key rs"
  by (metis order_by_contractD sort_key_inj_key_eq)

section \<open>Claims about the store\<close>

text \<open>
  C12: on a well-formed file, the conversation SQLite returns when it sorts stably (its
  table scan is in rowid order) is ordered by timestamp with ties in ascending id order,
  the order section 3 of the spec describes.
\<close>

theorem sqlite_conversation_order:
  assumes "wf_db d" "select_conversation (stable_order_by timestamp) u1 u2 d = Inr out"
  shows "sorted_wrt ts_id_before out"
proof -
  from assms(2) obtain ms where ms: "msgs_tbl d = Some ms"
    and out: "out = sort_key timestamp (filter (between u1 u2) ms)"
    by (cases "msgs_tbl d") (auto simp: select_conversation_def stable_order_by_def)
  from wf_db_msgs [OF assms(1) ms] have "sorted_wrt (<) (map msg_id ms)" by (simp add: wf_msgs_def)
  then have "sorted_wrt (<) (map msg_id (filter (between u1 u2) ms))" by (rule sorted_wrt_map_filter)
  with out show ?thesis by (simp add: sorted_ts_id_sort_key)
qed

theorem sqlite_conversation_order_witness:
  "select_conversation (stable_order_by timestamp) (py ''alice'') (py ''bob'')
     \<lparr>users_tbl = Some [], msgs_tbl = Some
        [\<lparr>msg_id = 1, sender = py ''bob'', receiver = py ''alice'', msg_text = py ''hi'', timestamp = py ''2''\<rparr>,
         \<lparr>msg_id = 2, sender = py ''alice'', receiver = py ''bob'', msg_text = py ''yo'', timestamp = py ''1''\<rparr>,
         \<lparr>msg_id = 3, sender = py ''alice'', receiver = py ''bob'', msg_text = py ''ok'', timestamp = py ''1''\<rparr>],
      msg_seq = 3\<rparr>
   = Inr [\<lparr>msg_id = 2, sender = py ''alice'', receiver = py ''bob'', msg_text = py ''yo'', timestamp = py ''1''\<rparr>,
          \<lparr>msg_id = 3, sender = py ''alice'', receiver = py ''bob'', msg_text = py ''ok'', timestamp = py ''1''\<rparr>,
          \<lparr>msg_id = 1, sender = py ''bob'', receiver = py ''alice'', msg_text = py ''hi'', timestamp = py ''2''\<rparr>]
   \<and> sorted_wrt ts_id_before
         [\<lparr>msg_id = 2, sender = py ''alice'', receiver = py ''bob'', msg_text = py ''yo'', timestamp = py ''1''\<rparr>,
          \<lparr>msg_id = 3, sender = py ''alice'', receiver = py ''bob'', msg_text = py ''ok'', timestamp = py ''1''\<rparr>,
          \<lparr>msg_id = 1, sender = py ''bob'', receiver = py ''alice'', msg_text = py ''hi'', timestamp = py ''2''\<rparr>]"
  (is "?sel = Inr ?out \<and> _")
proof -
  have sel: "?sel = Inr ?out"
    by (simp add: select_conversation_def stable_order_by_def between_def py_def encodable_iff is_surrogate_def)
  have "wf_db \<lparr>users_tbl = Some [], msgs_tbl = Some
        [\<lparr>msg_id = 1, sender = py ''bob'', receiver = py ''alice'', msg_text = py ''hi'', timestamp = py ''2''\<rparr>,
         \<lparr>msg_id = 2, sender = py ''alice'', receiver = py ''bob'', msg_text = py ''yo'', timestamp = py ''1''\<rparr>,
         \<lparr>msg_id = 3, sender = py ''alice'', receiver = py ''bob'', msg_text = py ''ok'', timestamp = py ''1''\<rparr>],
      msg_seq = 3\<rparr>"
    by (simp add: wf_db_def wf_users_def wf_msgs_def max_rowid_def py_def encodable_iff is_surrogate_def)
  from sqlite_conversation_order [OF this sel] sel show ?thesis by simp
qed

text \<open>
  C19: \<open>init_db\<close> is idempotent, and on a file that is already well formed (a restart of
  the server) it changes nothing, not even the number of open connections.
\<close>

theorem init_db_idempotent:
  "init_db (init_db s) = init_db s \<and> (wf_db (dbfile s) \<longrightarrow> init_db s = s)"
  by (auto simp: init_db_def get_db_def conn_close_def create_tables_idem create_tables_wf)


theorem init_db_idempotent_witness:
  "init_db (init_db initial_server) = init_db initial_server \<and> init_db initial_server = initial_server"
proof -
  have "wf_db (dbfile initial_server)"
    by (simp add: initial_server_eq wf_db_def wf_users_def wf_msgs_def max_rowid_def)
  then show ?thesis using init_db_idempotent [of initial_server] by simp
qed
end
