(* ===== verification/Handlers.thy ===== *)
theory Handlers
  imports Sha256 Store
begin

text \<open>
  The five endpoint functions of \<open>src/server.py\<close> (lines 70--123), each a function from the
  request model and the process state (\<open>server\<close>: the file and the open connections) to
  the value it returns or the exception it raises, together with the new process state.
  Each follows the code statement by statement: \<open>get_db()\<close> opens a connection, the
  statement runs, \<open>commit()\<close> makes a write part of the file, and \<open>conn.close()\<close> closes
  the connection only where the code reaches it (in \<open>register\<close> a \<open>finally\<close> clause; in
  the others a plain statement that an exception skips).

  The row order of the two reading statements is left to the engine: an \<open>engine\<close> names
  the order SQLite picks, and \<open>engine_ok\<close> says it keeps the SQL contract.
\<close>

section \<open>Request models and replies\<close>

text \<open>The pydantic models \<open>UserCreate\<close>, \<open>UserLogin\<close> and \<open>MessageCreate\<close> (lines 20--31).\<close>

record user_create =
  uc_username :: pystr
  uc_password :: pystr

record user_login =
  ul_username :: pystr
  ul_password :: pystr

record message_create =
  mc_sender :: pystr
  mc_receiver :: pystr
  mc_text :: pystr

text \<open>A reply such as \<open>{"message": "User registered"}\<close>: a dict from \<open>str\<close> to \<open>str\<close>.\<close>

type_synonym reply = "(pystr \<times> pystr) list"

type_synonym 'a outcome = "'a result \<times> server"

definition reply_message :: "pystr \<Rightarrow> reply" where
  "reply_message m = [(py ''message'', m)]"

definition conflict :: exc where
  "conflict = HTTPException 400 (py ''Username already exists'')"

definition invalid_credentials :: exc where
  "invalid_credentials = HTTPException 401 (py ''Invalid credentials'')"

section \<open>The engine's row orders\<close>

record engine =
  users_scan :: "user_row list \<Rightarrow> user_row list"
  msgs_order :: "msg_row list \<Rightarrow> msg_row list"

definition engine_ok :: "engine \<Rightarrow> bool" where
  "engine_ok eng \<longleftrightarrow> scan_contract (users_scan eng) \<and> order_by_contract timestamp (msgs_order eng)"

definition sqlite_engine :: engine where
  "sqlite_engine = \<lparr>users_scan = username_index_scan, msgs_order = stable_order_by timestamp\<rparr>"

section \<open>The endpoints\<close>

text \<open>\<open>register\<close> (lines 70--82). The password is hashed while the parameter tuple is
  built, before \<open>execute\<close> runs; an \<open>IntegrityError\<close> becomes the 400 reply.\<close>

definition register :: "user_create \<Rightarrow> server \<Rightarrow> reply outcome" where
  "register user s =
     (let s1 = get_db s;
          r = ebind (hash_password (uc_password user))
                (\<lambda>h. insert_user (uc_username user) h (dbfile s1))
      in case r of
           Inr d' \<Rightarrow> (Inr (reply_message (py ''User registered'')), conn_close (s1\<lparr>dbfile := d'\<rparr>))
         | Inl e \<Rightarrow> (Inl (if e = IntegrityError then conflict else e), conn_close s1))"

text \<open>\<open>login\<close> (lines 84--93). The connection is closed after \<open>fetchone()\<close>; the password
  is hashed only when a row was found (\<open>not row or ...\<close> short-circuits).\<close>

definition login :: "engine \<Rightarrow> user_login \<Rightarrow> server \<Rightarrow> reply outcome" where
  "login eng user s =
     (let s1 = get_db s in
      case select_password_hash (users_scan eng) (ul_username user) (dbfile s1) of
        Inl e \<Rightarrow> (Inl e, s1)
      | Inr row \<Rightarrow>
          (let s2 = conn_close s1 in
           case row of
             None \<Rightarrow> (Inl invalid_credentials, s2)
           | Some h \<Rightarrow>
               (case hash_password (ul_password user) of
                  Inl e \<Rightarrow> (Inl e, s2)
                | Inr h' \<Rightarrow>
                    if h \<noteq> h' then (Inl invalid_credentials, s2)
                    else (Inr (reply_message (py ''Login successful'')), s2))))"

text \<open>\<open>get_users\<close> (lines 95--102).\<close>

definition get_users :: "engine \<Rightarrow> server \<Rightarrow> pystr list outcome" where
  "get_users eng s =
     (let s1 = get_db s in
      case select_usernames (users_scan eng) (dbfile s1) of
        Inl e \<Rightarrow> (Inl e, s1)
      | Inr us \<Rightarrow> (Inr us, conn_close s1))"

text \<open>\<open>send_message\<close> (lines 104--112); \<open>now\<close> is the clock \<open>CURRENT_TIMESTAMP\<close> reads.\<close>

definition send_message :: "pystr \<Rightarrow> message_create \<Rightarrow> server \<Rightarrow> reply outcome" where
  "send_message now msg s =
     (let s1 = get_db s in
      case insert_message now (mc_sender msg) (mc_receiver msg) (mc_text msg) (dbfile s1) of
        Inl e \<Rightarrow> (Inl e, s1)
      | Inr d' \<Rightarrow> (Inr (reply_message (py ''Message sent'')), conn_close (s1\<lparr>dbfile := d'\<rparr>)))"

text \<open>\<open>get_messages\<close> (lines 114--123); \<open>Message(**dict(row))\<close> copies each row.\<close>

definition get_messages :: "engine \<Rightarrow> pystr \<Rightarrow> pystr \<Rightarrow> server \<Rightarrow> msg_row list outcome" where
  "get_messages eng user1 user2 s =
     (let s1 = get_db s in
      case select_conversation (msgs_order eng) user1 user2 (dbfile s1) of
        Inl e \<Rightarrow> (Inl e, s1)
      | Inr ms \<Rightarrow> (Inr ms, conn_close s1))"

section \<open>Behaviour of the endpoints\<close>

text \<open>
  For each endpoint, its result and new state on a well-formed file, branch by branch:
  \<open>register\<close> on a new and on a taken username, \<open>login\<close> as a whole and on each of its
  outcomes, \<open>send_message\<close>, the two readers under any engine that keeps the SQL
  contract, and the connections each leaves open.
\<close>

lemma engine_okD:
  "engine_ok eng \<Longrightarrow> scan_contract (users_scan eng) \<and> order_by_contract timestamp (msgs_order eng)"
  by (simp add: engine_ok_def)

lemma sqlite_engine_ok: "engine_ok sqlite_engine"
  by (simp add: engine_ok_def sqlite_engine_def username_index_scan_contract stable_order_by_contract)

lemma register_new:
  assumes "users_tbl (dbfile s) = Some us" "encodable (uc_username user)"
    and "hash_password (uc_password user) = Inr h" "uc_username user \<notin> set (map username us)"
  shows "register user s =
    (Inr (reply_message (py ''User registered'')),
     s\<lparr>dbfile := (dbfile s)\<lparr>users_tbl := Some (us @ [\<lparr>username = uc_username user, password_hash = h\<rparr>])\<rparr>\<rparr>)"
  using assms hash_password_encodable [OF assms(3)]
  by (simp add: register_def insert_user_def)

lemma register_dup:
  assumes "users_tbl (dbfile s) = Some us" "encodable (uc_username user)"
    and "hash_password (uc_password user) = Inr h" "uc_username user \<in> set (map username us)"
  shows "register user s = (Inl conflict, s)"
  using assms hash_password_encodable [OF assms(3)]
  by (simp add: register_def insert_user_def conflict_def)

lemma register_wf: "wf_db (dbfile s) \<Longrightarrow> wf_db (dbfile (snd (register user s)))"
  by (auto simp: register_def Let_def insert_user_wf split: sum.split)

lemma login_eq:
  assumes "wf_db (dbfile s)" "users_tbl (dbfile s) = Some us" "engine_ok eng" "encodable (ul_username user)"
  shows "login eng user s =
    (case find (\<lambda>r. username r = ul_username user) us of
       None \<Rightarrow> (Inl invalid_credentials, s)
     | Some r \<Rightarrow>
         (case hash_password (ul_password user) of
            Inl e \<Rightarrow> (Inl e, s)
          | Inr h' \<Rightarrow> if password_hash r = h' then (Inr (reply_message (py ''Login successful'')), s)
                     else (Inl invalid_credentials, s)))"
proof -
  have "select_password_hash (users_scan eng) (ul_username user) (dbfile s)
        = Inr (map_option password_hash (find (\<lambda>r. username r = ul_username user) us))"
    using assms engine_okD [OF assms(3)] by (simp add: select_password_hash_wf)
  then show ?thesis
    by (auto simp: login_def split: option.split sum.split)
qed

lemma login_unknown:
  assumes "wf_db (dbfile s)" "users_tbl (dbfile s) = Some us" "engine_ok eng" "encodable (ul_username user)"
    and "ul_username user \<notin> set (map username us)"
  shows "login eng user s = (Inl invalid_credentials, s)"
proof -
  have "find (\<lambda>r. username r = ul_username user) us = None"
    using assms(5) by (simp add: find_None_iff) (metis image_eqI)
  then show ?thesis by (simp add: login_eq [OF assms(1-4)])
qed

lemma login_row:
  assumes "wf_db (dbfile s)" "users_tbl (dbfile s) = Some us" "engine_ok eng" "encodable (ul_username user)"
    and "\<lparr>username = ul_username user, password_hash = h\<rparr> \<in> set us"
  shows "login eng user s =
    (case hash_password (ul_password user) of
       Inl e \<Rightarrow> (Inl e, s)
     | Inr h' \<Rightarrow> if h = h' then (Inr (reply_message (py ''Login successful'')), s)
                else (Inl invalid_credentials, s))"
proof -
  have "distinct (map username us)" using wf_db_users [OF assms(1,2)] by (simp add: wf_users_def)
  then have "find (\<lambda>r. username r = ul_username user) us = Some \<lparr>username = ul_username user, password_hash = h\<rparr>"
    using assms(5) by (simp add: find_key_Some)
  then show ?thesis by (simp add: login_eq [OF assms(1-4)] split: sum.split)
qed

lemma send_message_new:
  assumes "wf_db (dbfile s)" "msgs_tbl (dbfile s) = Some ms"
    and "list_all encodable [mc_sender m, mc_receiver m, mc_text m]" "msg_seq (dbfile s) < max_rowid"
  shows "send_message now m s =
    (Inr (reply_message (py ''Message sent'')),
     s\<lparr>dbfile := (dbfile s)\<lparr>msgs_tbl := Some (ms @ [\<lparr>msg_id = msg_seq (dbfile s) + 1,
          sender = mc_sender m, receiver = mc_receiver m, msg_text = mc_text m, timestamp = now\<rparr>]),
        msg_seq := msg_seq (dbfile s) + 1\<rparr>\<rparr>)"
proof -
  have "insert_message now (mc_sender m) (mc_receiver m) (mc_text m) (dbfile s)
        = Inr ((dbfile s)\<lparr>msgs_tbl := Some (ms @ [\<lparr>msg_id = msg_seq (dbfile s) + 1,
          sender = mc_sender m, receiver = mc_receiver m, msg_text = mc_text m, timestamp = now\<rparr>]),
        msg_seq := msg_seq (dbfile s) + 1\<rparr>)"
    using assms by (simp add: insert_message_Inr)
  then show ?thesis by (simp add: send_message_def)
qed

lemma send_message_conns:
  "open_conns (snd (send_message now m s)) =
     (if isl (fst (send_message now m s)) then Suc (open_conns s) else open_conns s)"
  by (auto simp: send_message_def Let_def get_db_def conn_close_def split: sum.split)

lemma send_message_wf: "wf_db (dbfile s) \<Longrightarrow> wf_db (dbfile (snd (send_message now m s)))"
  by (auto simp: send_message_def Let_def insert_message_wf split: sum.split)

lemma get_messages_result:
  assumes "engine_ok eng" "msgs_tbl (dbfile s) = Some ms" "encodable u1" "encodable u2"
  shows "\<exists>out. get_messages eng u1 u2 s = (Inr out, s)
           \<and> mset out = mset (filter (between u1 u2) ms) \<and> sorted (map timestamp out)"
proof -
  have "select_conversation (msgs_order eng) u1 u2 (dbfile s) = Inr (msgs_order eng (filter (between u1 u2) ms))"
    using assms(2-4) by (rule select_conversation_ok)
  moreover have "order_by_contract timestamp (msgs_order eng)" using engine_okD [OF assms(1)] by simp
  ultimately show ?thesis by (simp add: get_messages_def order_by_contractD)
qed

lemma get_messages_state: "fst (get_messages eng u1 u2 s) = Inr out \<Longrightarrow> snd (get_messages eng u1 u2 s) = s"
  by (auto simp: get_messages_def Let_def split: sum.splits)

lemma read_handlers_keep_file:
  "dbfile (snd (login eng u s)) = dbfile s \<and> dbfile (snd (get_users eng s)) = dbfile s
   \<and> dbfile (snd (get_messages eng u1 u2 s)) = dbfile s"
  by (auto simp: login_def get_users_def get_messages_def Let_def conn_close_def
           split: sum.split option.split)

lemma register_Inr:
  "register user s = (Inr r, s') \<Longrightarrow>
   \<exists>us h. users_tbl (dbfile s) = Some us \<and> encodable (uc_username user)
     \<and> hash_password (uc_password user) = Inr h \<and> uc_username user \<notin> set (map username us)
     \<and> s' = s\<lparr>dbfile := (dbfile s)\<lparr>users_tbl := Some (us @ [\<lparr>username = uc_username user, password_hash = h\<rparr>])\<rparr>\<rparr>"
  by (auto simp: register_def Let_def insert_user_Inr split: sum.splits)

lemma get_messages_engine:
  assumes "msgs_tbl (dbfile s) = Some ms" "encodable u1" "encodable u2"
  shows "get_messages eng u1 u2 s = (Inr (msgs_order eng (filter (between u1 u2) ms)), s)"
  using select_conversation_ok [OF assms, of "msgs_order eng"] by (simp add: get_messages_def)

section \<open>Claims about the endpoints\<close>

text \<open>
  C1: registering a username that is not taken, with a password \<open>str.encode()\<close> accepts,
  succeeds: the reply is \<open>{"message": "User registered"}\<close>, the file gains exactly one row
  holding the username and the hex SHA-256 digest of the password, and the connection is
  closed again.
\<close>

theorem register_new_user:
  assumes "users_tbl (dbfile s) = Some us" "encodable u" "\<forall>c\<in>set p. \<not> is_surrogate c"
    and "u \<notin> set (map username us)"
  shows "\<exists>h. hash_password p = Inr h \<and>
    register \<lparr>uc_username = u, uc_password = p\<rparr> s =
      (Inr (reply_message (py ''User registered'')),
       s\<lparr>dbfile := (dbfile s)\<lparr>users_tbl := Some (us @ [\<lparr>username = u, password_hash = h\<rparr>])\<rparr>\<rparr>)"
proof -
  obtain h where h: "hash_password p = Inr h" using hash_password_ok [OF assms(3)] by blast
  with register_new [of s us "\<lparr>uc_username = u, uc_password = p\<rparr>" h] assms show ?thesis by auto
qed

theorem register_new_user_witness:
  "\<exists>h. hash_password (py ''secret'') = Inr h \<and>
    register \<lparr>uc_username = py ''alice'', uc_password = py ''secret''\<rparr> initial_server =
      (Inr (reply_message (py ''User registered'')),
       initial_server\<lparr>dbfile := (dbfile initial_server)\<lparr>users_tbl :=
          Some [\<lparr>username = py ''alice'', password_hash = h\<rparr>]\<rparr>\<rparr>)"
  using register_new_user [of initial_server "[]" "py ''alice''" "py ''secret''"]
  by (simp add: initial_server_eq py_def encodable_iff is_surrogate_def)

text \<open>
  C2: registering a username that is already taken fails with the 400 reply
  \<open>"Username already exists"\<close> and leaves the process exactly as it was: the primary key's
  \<open>IntegrityError\<close> is translated, nothing is written, the connection is closed.
\<close>

theorem register_taken_username:
  assumes "users_tbl (dbfile s) = Some us" "encodable u" "\<forall>c\<in>set p. \<not> is_surrogate c"
    and "u \<in> set (map username us)"
  shows "register \<lparr>uc_username = u, uc_password = p\<rparr> s
           = (Inl (HTTPException 400 (py ''Username already exists'')), s)"
proof -
  obtain h where h: "hash_password p = Inr h" using hash_password_ok [OF assms(3)] by blast
  with register_dup [of s us "\<lparr>uc_username = u, uc_password = p\<rparr>" h] assms show ?thesis
    by (simp add: conflict_def)
qed

theorem register_taken_username_witness:
  "register \<lparr>uc_username = py ''alice'', uc_password = py ''other''\<rparr>
     \<lparr>dbfile = \<lparr>users_tbl = Some [\<lparr>username = py ''alice'', password_hash = py ''0''\<rparr>],
                msgs_tbl = Some [], msg_seq = 0\<rparr>, open_conns = 0\<rparr>
   = (Inl (HTTPException 400 (py ''Username already exists'')),
      \<lparr>dbfile = \<lparr>users_tbl = Some [\<lparr>username = py ''alice'', password_hash = py ''0''\<rparr>],
                msgs_tbl = Some [], msg_seq = 0\<rparr>, open_conns = 0\<rparr>)"
  using register_taken_username [of "\<lparr>dbfile = \<lparr>users_tbl = Some [\<lparr>username = py ''alice'', password_hash = py ''0''\<rparr>],
                msgs_tbl = Some [], msg_seq = 0\<rparr>, open_conns = 0\<rparr>"
      "[\<lparr>username = py ''alice'', password_hash = py ''0''\<rparr>]" "py ''alice''" "py ''other''"]
  by (simp add: py_def encodable_iff is_surrogate_def)

text \<open>
  C4: logging in as a user who does not exist fails with the 401 reply
  \<open>"Invalid credentials"\<close>, whatever the password, even one that cannot be encoded: the
  password is not hashed when no row was found. Nothing changes.
\<close>

theorem login_unknown_user:
  assumes "wf_db (dbfile s)" "users_tbl (dbfile s) = Some us" "engine_ok eng" "encodable u"
    and "u \<notin> set (map username us)"
  shows "login eng \<lparr>ul_username = u, ul_password = p\<rparr> s
           = (Inl (HTTPException 401 (py ''Invalid credentials'')), s)"
  using login_unknown [of s us eng "\<lparr>ul_username = u, ul_password = p\<rparr>"] assms
  by (simp add: invalid_credentials_def)

theorem login_unknown_user_witness:
  "login sqlite_engine \<lparr>ul_username = py ''mallory'', ul_password = [0xD800]\<rparr> initial_server
     = (Inl (HTTPException 401 (py ''Invalid credentials'')), initial_server)"
  using login_unknown_user [of initial_server "[]" sqlite_engine "py ''mallory''" "[0xD800]"]
    initial_server_wf sqlite_engine_ok
  by (simp add: initial_server_eq py_def encodable_iff is_surrogate_def)

text \<open>
  C5: logging in with a password whose digest differs from the stored one fails with the
  same 401 reply as an unknown user, so the two failures cannot be told apart.
\<close>

theorem login_wrong_password:
  assumes "wf_db (dbfile s)" "users_tbl (dbfile s) = Some us" "engine_ok eng" "encodable u"
    and "\<lparr>username = u, password_hash = h\<rparr> \<in> set us" "hash_password p = Inr h'" "h' \<noteq> h"
  shows "login eng \<lparr>ul_username = u, ul_password = p\<rparr> s
           = (Inl (HTTPException 401 (py ''Invalid credentials'')), s)"
  using login_row [of s us eng "\<lparr>ul_username = u, ul_password = p\<rparr>" h] assms
  by (simp add: invalid_credentials_def)

theorem login_wrong_password_witness:
  "\<exists>h'. hash_password (py ''guess'') = Inr h' \<and> h' \<noteq> py ''0'' \<and>
     login sqlite_engine \<lparr>ul_username = py ''alice'', ul_password = py ''guess''\<rparr>
       \<lparr>dbfile = \<lparr>users_tbl = Some [\<lparr>username = py ''alice'', password_hash = py ''0''\<rparr>],
                  msgs_tbl = Some [], msg_seq = 0\<rparr>, open_conns = 0\<rparr>
     = (Inl (HTTPException 401 (py ''Invalid credentials'')),
        \<lparr>dbfile = \<lparr>users_tbl = Some [\<lparr>username = py ''alice'', password_hash = py ''0''\<rparr>],
                  msgs_tbl = Some [], msg_seq = 0\<rparr>, open_conns = 0\<rparr>)"
proof -
  obtain h' where h': "hash_password (py ''guess'') = Inr h'"
    using hash_password_ok [of "py ''guess''"] by (auto simp: py_def is_surrogate_def)
  then have "length h' = 64" by (simp add: hash_password_digest)
  then have ne: "h' \<noteq> py ''0''" by (auto simp: py_def)
  have wf: "wf_db \<lparr>users_tbl = Some [\<lparr>username = py ''alice'', password_hash = py ''0''\<rparr>],
                  msgs_tbl = Some [], msg_seq = 0\<rparr>"
    by (simp add: wf_db_def wf_users_def wf_msgs_def max_rowid_def py_def encodable_iff is_surrogate_def)
  show ?thesis
    using login_wrong_password [of "\<lparr>dbfile = \<lparr>users_tbl = Some [\<lparr>username = py ''alice'', password_hash = py ''0''\<rparr>],
                  msgs_tbl = Some [], msg_seq = 0\<rparr>, open_conns = 0\<rparr>"
        "[\<lparr>username = py ''alice'', password_hash = py ''0''\<rparr>]" sqlite_engine "py ''alice''" "py ''0''" "py ''guess''" h']
      wf h' ne sqlite_engine_ok
    by (simp add: py_def encodable_iff is_surrogate_def)
qed

text \<open>
  C6: \<open>get_messages\<close> returns exactly the messages sent between the two users in either
  direction, each as often as it is stored, ordered by timestamp, for every row order the
  SQL of lines 118--120 allows; it changes nothing.
\<close>

theorem get_messages_conversation:
  assumes "engine_ok eng" "msgs_tbl (dbfile s) = Some ms" "encodable u1" "encodable u2"
  shows "\<exists>out. get_messages eng u1 u2 s = (Inr out, s)
     \<and> set out = {m \<in> set ms. (sender m = u1 \<and> receiver m = u2) \<or> (sender m = u2 \<and> receiver m = u1)}
     \<and> mset out = mset (filter (between u1 u2) ms) \<and> sorted (map timestamp out)"
proof -
  obtain out where out: "get_messages eng u1 u2 s = (Inr out, s)"
    "mset out = mset (filter (between u1 u2) ms)" "sorted (map timestamp out)"
    using get_messages_result [OF assms] by blast
  then have "set out = set (filter (between u1 u2) ms)" by (metis set_mset_mset)
  with out show ?thesis by (auto simp: between_def)
qed

theorem get_messages_conversation_witness:
  "\<exists>out. get_messages sqlite_engine (py ''alice'') (py ''bob'')
      \<lparr>dbfile = \<lparr>users_tbl = Some [], msgs_tbl = Some
        [\<lparr>msg_id = 1, sender = py ''alice'', receiver = py ''bob'', msg_text = py ''hi'', timestamp = py ''1''\<rparr>,
         \<lparr>msg_id = 2, sender = py ''carol'', receiver = py ''alice'', msg_text = py ''yo'', timestamp = py ''2''\<rparr>],
        msg_seq = 2\<rparr>, open_conns = 0\<rparr>
      = (Inr out, \<lparr>dbfile = \<lparr>users_tbl = Some [], msgs_tbl = Some
        [\<lparr>msg_id = 1, sender = py ''alice'', receiver = py ''bob'', msg_text = py ''hi'', timestamp = py ''1''\<rparr>,
         \<lparr>msg_id = 2, sender = py ''carol'', receiver = py ''alice'', msg_text = py ''yo'', timestamp = py ''2''\<rparr>],
        msg_seq = 2\<rparr>, open_conns = 0\<rparr>)
     \<and> set out = {\<lparr>msg_id = 1, sender = py ''alice'', receiver = py ''bob'', msg_text = py ''hi'', timestamp = py ''1''\<rparr>}
     \<and> mset out = {#\<lparr>msg_id = 1, sender = py ''alice'', receiver = py ''bob'', msg_text = py ''hi'', timestamp = py ''1''\<rparr>#}
     \<and> sorted (map timestamp out)"
  using get_messages_conversation [of sqlite_engine
      "\<lparr>dbfile = \<lparr>users_tbl = Some [], msgs_tbl = Some
        [\<lparr>msg_id = 1, sender = py ''alice'', receiver = py ''bob'', msg_text = py ''hi'', timestamp = py ''1''\<rparr>,
         \<lparr>msg_id = 2, sender = py ''carol'', receiver = py ''alice'', msg_text = py ''yo'', timestamp = py ''2''\<rparr>],
        msg_seq = 2\<rparr>, open_conns = 0\<rparr>"
      "[\<lparr>msg_id = 1, sender = py ''alice'', receiver = py ''bob'', msg_text = py ''hi'', timestamp = py ''1''\<rparr>,
         \<lparr>msg_id = 2, sender = py ''carol'', receiver = py ''alice'', msg_text = py ''yo'', timestamp = py ''2''\<rparr>]"
      "py ''alice''" "py ''bob''"]
    sqlite_engine_ok
  by (simp add: py_def encodable_iff is_surrogate_def between_def)

text \<open>
  C7: sending a message appends one row whose id is one more than \<open>sqlite_sequence\<close>
  (so larger than every id before it), whose timestamp is the clock's, and whose sender,
  receiver and text are the request's; the users table and the connection count are
  unchanged and the file stays well formed.
\<close>

theorem send_message_appends:
  assumes "wf_db (dbfile s)" "msgs_tbl (dbfile s) = Some ms" "list_all encodable [a, b, t]"
    and "msg_seq (dbfile s) < max_rowid"
  shows "\<exists>s'. send_message now \<lparr>mc_sender = a, mc_receiver = b, mc_text = t\<rparr> s
                = (Inr (reply_message (py ''Message sent'')), s')
     \<and> msgs_tbl (dbfile s') = Some (ms @ [\<lparr>msg_id = msg_seq (dbfile s) + 1, sender = a,
                                         receiver = b, msg_text = t, timestamp = now\<rparr>])
     \<and> msg_seq (dbfile s') = msg_seq (dbfile s) + 1 \<and> users_tbl (dbfile s') = users_tbl (dbfile s)
     \<and> open_conns s' = open_conns s \<and> wf_db (dbfile s')
     \<and> (\<forall>m\<in>set ms. msg_id m < msg_seq (dbfile s) + 1)"
proof -
  let ?m = "\<lparr>mc_sender = a, mc_receiver = b, mc_text = t\<rparr>"
  have eq: "send_message now ?m s =
    (Inr (reply_message (py ''Message sent'')),
     s\<lparr>dbfile := (dbfile s)\<lparr>msgs_tbl := Some (ms @ [\<lparr>msg_id = msg_seq (dbfile s) + 1,
          sender = a, receiver = b, msg_text = t, timestamp = now\<rparr>]),
        msg_seq := msg_seq (dbfile s) + 1\<rparr>\<rparr>)"
    using send_message_new [of s ms ?m] assms by simp
  have "wf_db (dbfile (snd (send_message now ?m s)))" using send_message_wf [OF assms(1)] .
  moreover have "\<forall>m\<in>set ms. msg_id m < msg_seq (dbfile s) + 1"
    using wf_db_msgs [OF assms(1,2)] by (auto simp: wf_msgs_def list_all_iff)
  ultimately show ?thesis using eq by simp
qed

theorem send_message_appends_witness:
  "\<exists>s'. send_message (py ''2024-01-01 10:00:00'') \<lparr>mc_sender = py ''alice'', mc_receiver = py ''bob'', mc_text = py ''hi''\<rparr>
          initial_server = (Inr (reply_message (py ''Message sent'')), s')
     \<and> msgs_tbl (dbfile s') = Some [\<lparr>msg_id = 1, sender = py ''alice'', receiver = py ''bob'',
                                      msg_text = py ''hi'', timestamp = py ''2024-01-01 10:00:00''\<rparr>]
     \<and> msg_seq (dbfile s') = 1 \<and> users_tbl (dbfile s') = Some [] \<and> open_conns s' = 0 \<and> wf_db (dbfile s')"
  using send_message_appends [of initial_server "[]" "py ''alice''" "py ''bob''" "py ''hi''" "py ''2024-01-01 10:00:00''"]
    initial_server_wf
  by (simp add: initial_server_eq py_def encodable_iff is_surrogate_def max_rowid_def)

text \<open>
  C11: \<open>get_users\<close> returns every registered username exactly once, in the order the
  engine scans (no order is promised), and changes nothing.
\<close>

theorem get_users_returns_usernames:
  assumes "engine_ok eng" "users_tbl (dbfile s) = Some us"
  shows "\<exists>out. get_users eng s = (Inr out, s) \<and> mset out = mset (map username us)"
proof -
  obtain xs where "select_usernames (users_scan eng) (dbfile s) = Inr xs" "mset xs = mset (map username us)"
    using select_usernames_perm [OF assms(2)] engine_okD [OF assms(1)] by blast
  then show ?thesis by (simp add: get_users_def)
qed


theorem get_users_returns_usernames_witness:
  "\<exists>out. get_users sqlite_engine
      \<lparr>dbfile = \<lparr>users_tbl = Some [\<lparr>username = py ''alice'', password_hash = py ''0''\<rparr>,
                               \<lparr>username = py ''bob'', password_hash = py ''1''\<rparr>],
                 msgs_tbl = Some [], msg_seq = 0\<rparr>, open_conns = 0\<rparr>
      = (Inr out, \<lparr>dbfile = \<lparr>users_tbl = Some [\<lparr>username = py ''alice'', password_hash = py ''0''\<rparr>,
                               \<lparr>username = py ''bob'', password_hash = py ''1''\<rparr>],
                 msgs_tbl = Some [], msg_seq = 0\<rparr>, open_conns = 0\<rparr>)
     \<and> mset out = {#py ''alice'', py ''bob''#}"
  using get_users_returns_usernames [of sqlite_engine
      "\<lparr>dbfile = \<lparr>users_tbl = Some [\<lparr>username = py ''alice'', password_hash = py ''0''\<rparr>,
                               \<lparr>username = py ''bob'', password_hash = py ''1''\<rparr>],
                 msgs_tbl = Some [], msg_seq = 0\<rparr>, open_conns = 0\<rparr>"
      "[\<lparr>username = py ''alice'', password_hash = py ''0''\<rparr>, \<lparr>username = py ''bob'', password_hash = py ''1''\<rparr>]"]
    sqlite_engine_ok
  by simp

text \<open>
  C14: \<open>register\<close> closes the connection it opens on every path, success and error
  alike (its \<open>finally\<close> clause).
\<close>

theorem register_closes_connection: "open_conns (snd (register user s)) = open_conns s"
  by (auto simp: register_def Let_def get_db_def conn_close_def split: sum.split)

text \<open>
  C15: when \<open>send_message\<close> fails (here: a field the driver cannot encode) the
  exception skips \<open>conn.close()\<close>: the reply is the exception and one more connection is
  left open, against the release on every exit path that section 5 of the spec requires.
\<close>

theorem send_message_error_leaks_connection:
  assumes "msgs_tbl (dbfile s) = Some ms" "\<not> list_all encodable [a, b, t]"
  shows "send_message now \<lparr>mc_sender = a, mc_receiver = b, mc_text = t\<rparr> s
           = (Inl UnicodeEncodeError, s\<lparr>open_conns := Suc (open_conns s)\<rparr>)"
proof -
  have b: "bind_strs [a, b, t] = Inl UnicodeEncodeError" by (rule bind_strs_fail [OF assms(2)])
  have "insert_message now a b t (dbfile s) = Inl UnicodeEncodeError"
    unfolding insert_message_def using assms(1) b by (simp only: table_Some ebind_Inr ebind_Inl)
  then show ?thesis by (simp add: send_message_def get_db_conns)
qed

theorem send_message_error_leaks_connection_witness:
  "send_message (py ''2024-01-01 10:00:00'') \<lparr>mc_sender = py ''alice'', mc_receiver = py ''bob'', mc_text = [0xD83D]\<rparr>
     initial_server = (Inl UnicodeEncodeError, initial_server\<lparr>open_conns := 1\<rparr>)"
  using send_message_error_leaks_connection [of initial_server "[]" "py ''alice''" "py ''bob''" "[0xD83D]"]
  by (simp add: initial_server_eq py_def encodable_iff is_surrogate_def)

text \<open>
  C16: once \<open>sqlite_sequence\<close> has reached the largest 64-bit rowid, every further
  \<open>send_message\<close> fails with \<open>SQLITE_FULL\<close> (raised as \<open>OperationalError\<close>), and
  the connection is left open.
\<close>

theorem send_message_id_exhausted:
  assumes "msgs_tbl (dbfile s) = Some ms" "list_all encodable [a, b, t]" "msg_seq (dbfile s) = max_rowid"
  shows "send_message now \<lparr>mc_sender = a, mc_receiver = b, mc_text = t\<rparr> s
           = (Inl (OperationalError (py ''database or disk is full'')), s\<lparr>open_conns := Suc (open_conns s)\<rparr>)"
  using insert_message_full [OF assms, of now] by (simp add: send_message_def get_db_conns)

theorem send_message_id_exhausted_witness:
  "send_message (py ''2024-01-01 10:00:00'') \<lparr>mc_sender = py ''a'', mc_receiver = py ''b'', mc_text = py ''x''\<rparr>
     \<lparr>dbfile = \<lparr>users_tbl = Some [], msgs_tbl = Some [], msg_seq = 9223372036854775807\<rparr>, open_conns = 0\<rparr>
   = (Inl (OperationalError (py ''database or disk is full'')),
      \<lparr>dbfile = \<lparr>users_tbl = Some [], msgs_tbl = Some [], msg_seq = 9223372036854775807\<rparr>, open_conns = 1\<rparr>)"
  using send_message_id_exhausted [of "\<lparr>dbfile = \<lparr>users_tbl = Some [], msgs_tbl = Some [],
      msg_seq = 9223372036854775807\<rparr>, open_conns = 0\<rparr>" "[]" "py ''a''" "py ''b''" "py ''x''"]
  by (simp add: py_def encodable_iff is_surrogate_def max_rowid_def)

text \<open>
  C20: registering with a password that holds a surrogate raises
  \<open>UnicodeEncodeError\<close> (a generic server error) before the store is consulted, so even a
  taken username does not get the 400 conflict reply; nothing changes.
\<close>

theorem register_surrogate_password:
  assumes "\<exists>c\<in>set p. is_surrogate c"
  shows "register \<lparr>uc_username = u, uc_password = p\<rparr> s = (Inl UnicodeEncodeError, s)"
proof -
  have "hash_password p = Inl UnicodeEncodeError" using assms by (simp add: hash_password_Inl)
  then show ?thesis by (simp add: register_def)
qed

theorem register_surrogate_password_witness:
  "register \<lparr>uc_username = py ''alice'', uc_password = [0xDC00]\<rparr>
     \<lparr>dbfile = \<lparr>users_tbl = Some [\<lparr>username = py ''alice'', password_hash = py ''0''\<rparr>],
                msgs_tbl = Some [], msg_seq = 0\<rparr>, open_conns = 0\<rparr>
   = (Inl UnicodeEncodeError,
      \<lparr>dbfile = \<lparr>users_tbl = Some [\<lparr>username = py ''alice'', password_hash = py ''0''\<rparr>],
                msgs_tbl = Some [], msg_seq = 0\<rparr>, open_conns = 0\<rparr>)"
  by (rule register_surrogate_password) (simp add: is_surrogate_def)

text \<open>
  C21: logging in with a username that holds a surrogate raises \<open>UnicodeEncodeError\<close>
  from \<open>execute\<close>, which skips \<open>conn.close()\<close>: one more connection is left open.
\<close>

theorem login_surrogate_username_leaks:
  assumes "users_tbl (dbfile s) = Some us" "\<not> encodable u"
  shows "login eng \<lparr>ul_username = u, ul_password = p\<rparr> s
           = (Inl UnicodeEncodeError, s\<lparr>open_conns := Suc (open_conns s)\<rparr>)"
  using assms by (simp add: login_def select_password_hash_def bind_strs_def get_db_conns)

theorem login_surrogate_username_leaks_witness:
  "login sqlite_engine \<lparr>ul_username = [0xD800], ul_password = py ''x''\<rparr> initial_server
     = (Inl UnicodeEncodeError, initial_server\<lparr>open_conns := 1\<rparr>)"
  using login_surrogate_username_leaks [of initial_server "[]" "[0xD800]" sqlite_engine "py ''x''"]
  by (simp add: initial_server_eq encodable_iff is_surrogate_def)

end
