(* ===== verification/PyFloat.thy ===== *)
theory PyFloat
  imports Prelude
begin

text \<open>
  Python's \<open>float\<close> as far as a JSON request body reaches it: \<open>float(s)\<close> on a JSON
  number literal (\<open>PyFloat_FromString\<close>, correctly rounded to the nearest IEEE 754
  double, ties to even, overflowing to \<open>inf\<close>) and \<open>repr\<close> of the result (the shortest
  digit string that reads back as the same double, \<open>float_repr_style = 'short'\<close>), which
  \<open>json.dumps\<close> writes. Values are exact fractions of integers (\<open>frac\<close>, the
  denominator positive, not reduced); a double is a sign, a mantissa
  \<open>m < 2 ^ 53\<close> and an exponent \<open>e \<ge> -1074\<close> with \<open>m \<ge> 2 ^ 52\<close> unless \<open>e = -1074\<close>.
\<close>

datatype pyfloat = FNum bool nat int | FInf bool | FNaN

section \<open>Digits, powers and logarithms\<close>

fun digits10 :: "nat \<Rightarrow> pystr" where
  "digits10 n = (if n < 10 then [48 + n] else digits10 (n div 10) @ [48 + n mod 10])"

declare digits10.simps [simp del]

fun ndig :: "nat \<Rightarrow> nat \<Rightarrow> nat" where
  "ndig b n = (if b < 2 \<or> n < b then 1 else Suc (ndig b (n div b)))"

declare ndig.simps [simp del]

type_synonym frac = "int \<times> int"

definition fr_mul :: "frac \<Rightarrow> frac \<Rightarrow> frac" where
  "fr_mul x y = (fst x * fst y, snd x * snd y)"

definition fr_div :: "frac \<Rightarrow> frac \<Rightarrow> frac" where
  "fr_div x y = (fst x * snd y, snd x * fst y)"

definition fr_add :: "frac \<Rightarrow> frac \<Rightarrow> frac" where
  "fr_add x y = (fst x * snd y + fst y * snd x, snd x * snd y)"

definition fr_sub :: "frac \<Rightarrow> frac \<Rightarrow> frac" where
  "fr_sub x y = (fst x * snd y - fst y * snd x, snd x * snd y)"

definition fr_le :: "frac \<Rightarrow> frac \<Rightarrow> bool" where
  "fr_le x y \<longleftrightarrow> fst x * snd y \<le> fst y * snd x"

definition fr_lt :: "frac \<Rightarrow> frac \<Rightarrow> bool" where
  "fr_lt x y \<longleftrightarrow> fst x * snd y < fst y * snd x"

definition fr_floor :: "frac \<Rightarrow> int" where
  "fr_floor x = fst x div snd x"

definition fr_ceil :: "frac \<Rightarrow> int" where
  "fr_ceil x = - ((- fst x) div snd x)"

definition pow_fr :: "int \<Rightarrow> int \<Rightarrow> frac" where
  "pow_fr b e = (if 0 \<le> e then (b ^ nat e, 1) else (1, b ^ nat (- e)))"

text \<open>\<open>flog b x\<close>: the \<open>t\<close> with \<open>b ^ t \<le> x < b ^ (t + 1)\<close>, for \<open>x > 0\<close>.\<close>

definition flog :: "nat \<Rightarrow> frac \<Rightarrow> int" where
  "flog b x = (if fr_le (1, 1) x then int (ndig b (nat (fr_floor x))) - 1
               else - int (ndig b (nat (fr_ceil (snd x, fst x)) - 1)))"

definition round_even :: "frac \<Rightarrow> int" where
  "round_even x = (let f = fr_floor x; r = fr_sub x (f, 1) in
     if fr_lt r (1, 2) then f else if fr_lt (1, 2) r then f + 1 else if even f then f else f + 1)"

definition digits_val :: "pystr \<Rightarrow> nat" where
  "digits_val ds = foldl (\<lambda>a d. 10 * a + (d - 48)) 0 ds"

section \<open>\<open>float()\<close> of a literal\<close>

definition is_digit :: "codepoint \<Rightarrow> bool" where
  "is_digit c \<longleftrightarrow> 48 \<le> c \<and> c \<le> 57"

definition round_double :: "bool \<Rightarrow> frac \<Rightarrow> pyfloat" where
  "round_double neg v =
     (if fst v = 0 then FNum neg 0 0
      else let e = max (flog 2 v - 52) (-1074); m = nat (round_even (fr_div v (pow_fr 2 e))) in
        if m = 0 then FNum neg 0 0
        else if m = 2 ^ 53 then (if e + 1 > 971 then FInf neg else FNum neg (2 ^ 52) (e + 1))
        else if e > 971 then FInf neg else FNum neg m e)"

text \<open>The literal as the scanner matched it: \<open>-?(0|[1-9][0-9]*)(\.[0-9]+)?([eE][-+]?[0-9]+)?\<close>.\<close>

definition float_of_literal :: "pystr \<Rightarrow> pyfloat" where
  "float_of_literal s =
     (let neg = (take 1 s = [45]); r = (if neg then tl s else s);
          ip = takeWhile is_digit r; r1 = dropWhile is_digit r;
          fp = (if take 1 r1 = [46] then takeWhile is_digit (tl r1) else []);
          r2 = (if take 1 r1 = [46] then dropWhile is_digit (tl r1) else r1);
          eneg = (take 1 (drop 1 r2) = [45]);
          ed = dropWhile (\<lambda>c. c = 43 \<or> c = 45) (drop 1 r2);
          ex = (if r2 = [] then 0 else if eneg then - int (digits_val ed) else int (digits_val ed))
      in round_double neg (fr_mul (int (digits_val (ip @ fp)), 1) (pow_fr 10 (ex - int (length fp)))))"

section \<open>\<open>repr\<close>\<close>

definition fval :: "nat \<Rightarrow> int \<Rightarrow> frac" where
  "fval m e = fr_mul (int m, 1) (pow_fr 2 e)"

text \<open>The half-gaps to the neighbouring doubles: below, the gap halves at a power of two.\<close>

definition gap_below :: "nat \<Rightarrow> int \<Rightarrow> frac" where
  "gap_below m e = (if m = 2 ^ 52 \<and> -1074 < e then pow_fr 2 (e - 1) else pow_fr 2 e)"

definition in_round :: "nat \<Rightarrow> int \<Rightarrow> frac \<Rightarrow> bool" where
  "in_round m e y =
     (let x = fval m e; lo = fr_sub x (fr_mul (gap_below m e) (1, 2));
          hi = fr_add x (fr_mul (pow_fr 2 e) (1, 2)) in
      if even m then fr_le lo y \<and> fr_le y hi else fr_lt lo y \<and> fr_lt y hi)"

text \<open>The \<open>k\<close>-digit candidate nearest to the value that reads back as it, if any.\<close>

definition cand :: "nat \<Rightarrow> int \<Rightarrow> nat \<Rightarrow> nat option" where
  "cand m e k =
     (let x = fval m e; u = pow_fr 10 (flog 10 x + 1 - int k); q = fr_div x u;
          d1 = fr_floor q; d2 = d1 + 1;
          ok1 = in_round m e (fr_mul (d1, 1) u); ok2 = in_round m e (fr_mul (d2, 1) u);
          below = fr_sub q (d1, 1); above = fr_sub (d2, 1) q
      in if ok1 \<and> ok2 then
           Some (nat (if fr_lt below above then d1 else if fr_lt above below then d2
                      else if even d1 then d1 else d2))
         else if ok1 then Some (nat d1) else if ok2 then Some (nat d2) else None)"

definition shortest :: "nat \<Rightarrow> int \<Rightarrow> pystr \<times> int" where
  "shortest m e =
     (let x = fval m e; k = (case find (\<lambda>k. cand m e k \<noteq> None) [1..<17] of Some k \<Rightarrow> k | None \<Rightarrow> 17);
          d = (case cand m e k of Some d \<Rightarrow> d | None \<Rightarrow> nat (fr_floor (fr_div x (pow_fr 10 (flog 10 x + 1 - int k)))));
          ds = digits10 d
      in (rev (dropWhile (\<lambda>c. c = 48) (rev ds)), flog 10 x + 1 - int k + int (length ds)))"

definition exp_str :: "int \<Rightarrow> pystr" where
  "exp_str x = (if x < 0 then [45] else [43]) @ (let ds = digits10 (nat \<bar>x\<bar>) in if length ds < 2 then 48 # ds else ds)"

definition format_short :: "pystr \<Rightarrow> int \<Rightarrow> pystr" where
  "format_short ds dp =
     (if dp \<le> -4 \<or> 16 < dp then
        take 1 ds @ (if length ds > 1 then 46 # drop 1 ds else []) @ [101] @ exp_str (dp - 1)
      else if dp \<le> 0 then [48, 46] @ replicate (nat (- dp)) 48 @ ds
      else if int (length ds) \<le> dp then ds @ replicate (nat dp - length ds) 48 @ [46, 48]
      else take (nat dp) ds @ [46] @ drop (nat dp) ds)"

fun float_repr :: "pyfloat \<Rightarrow> pystr" where
  "float_repr FNaN = py ''nan''"
| "float_repr (FInf neg) = (if neg then py ''-inf'' else py ''inf'')"
| "float_repr (FNum neg m e) =
     (if neg then [45] else []) @ (if m = 0 then py ''0.0'' else case_prod format_short (shortest m e))"

section \<open>The repr is ASCII\<close>

lemma digits10_digits: "c \<in> set (digits10 n) \<Longrightarrow> 48 \<le> c \<and> c < 58"
proof (induction n rule: digits10.induct)
  case (1 n)
  then show ?case using mod_less_divisor [of 10 n] by (subst (asm) digits10.simps) (auto split: if_splits)
qed

lemma shortest_digits: "c \<in> set (fst (shortest m e)) \<Longrightarrow> 48 \<le> c \<and> c < 58"
  by (auto simp: shortest_def Let_def dest!: set_dropWhileD digits10_digits)

lemma exp_str_ascii: "c \<in> set (exp_str x) \<Longrightarrow> c < 128"
  by (auto simp: exp_str_def Let_def split: if_splits dest!: digits10_digits)

lemma format_short_ascii:
  assumes "\<And>c. c \<in> set ds \<Longrightarrow> c < 128"
  shows "c \<in> set (format_short ds dp) \<Longrightarrow> c < 128"
  using assms by (auto simp: format_short_def dest: in_set_takeD in_set_dropD exp_str_ascii split: if_splits)

lemma float_repr_ascii: "list_all (\<lambda>c. c < 128) (float_repr x)"
proof (cases x)
  case (FNum neg m e)
  have "c < 128" if "c \<in> set (format_short (fst (shortest m e)) (snd (shortest m e)))" for c
    using format_short_ascii [OF _ that] shortest_digits by fastforce
  then show ?thesis using FNum by (auto simp: list_all_iff py_def split_beta)
qed (auto simp: py_def)

end
