(* ===== verification/Http.thy ===== *)
theory Http
  imports Utf8 PyFloat
begin

text \<open>
  The HTTP vocabulary the service layer works in: JSON values as the framework parses and
  renders them, requests and responses as the ASGI server hands them over, the
  validation of a request's body and query by the declared models (FastAPI with
  pydantic 2: a \<open>str\<close> field accepts a JSON string only), the rendering of a JSON reply
  by \<open>json.dumps\<close> as \<open>JSONResponse\<close> calls it.
\<close>

section \<open>JSON values, requests, responses\<close>

text \<open>
  A JSON value after \<open>json.loads\<close>. Numbers other than integers do not reach a string
  field in any other way than as a value that is not a string, so they are not told apart.
\<close>

datatype json =
    JNull
  | JBool bool
  | JInt int
  | JFloat pyfloat
  | JStr pystr
  | JList "json list"
  | JObj "(pystr \<times> json) list"

text \<open>
  A request as the ASGI scope gives it: method, percent-decoded path, query pairs in
  order, headers with lower-case names (the ASGI rule), and the body after \<open>json.loads\<close>
  (\<open>None\<close> when the body is empty).
\<close>

record http_request =
  req_method :: pystr
  req_path :: pystr
  req_query :: "(pystr \<times> pystr) list"
  req_headers :: "(pystr \<times> pystr) list"
  req_body :: "json option"

datatype resp_body = JsonBody json | TextBody pystr

record http_response =
  status :: nat
  resp_headers :: "(pystr \<times> pystr) list"
  rbody :: resp_body

section \<open>Lookups in pairs and headers\<close>

text \<open>
  A JSON object and a query string may name a key twice; \<open>json.loads\<close> keeps the last
  value, and so does Starlette's \<open>QueryParams\<close>. A header lookup (\<open>Headers.get\<close>) returns
  the first. \<open>set_header\<close> is \<open>MutableHeaders.__setitem__\<close>: it overwrites the first
  header of that name, drops the others, or appends one.
\<close>

definition last_value :: "pystr \<Rightarrow> (pystr \<times> 'v) list \<Rightarrow> 'v option" where
  "last_value k kvs = map_of (rev kvs) k"

definition header :: "pystr \<Rightarrow> (pystr \<times> pystr) list \<Rightarrow> pystr option" where
  "header k hs = map_of hs k"

fun replace_first :: "pystr \<Rightarrow> pystr \<Rightarrow> (pystr \<times> pystr) list \<Rightarrow> (pystr \<times> pystr) list" where
  "replace_first k v [] = []"
| "replace_first k v ((a, b) # hs) =
     (if a = k then (k, v) # filter (\<lambda>p. fst p \<noteq> k) hs else (a, b) # replace_first k v hs)"

definition set_header :: "pystr \<Rightarrow> pystr \<Rightarrow> (pystr \<times> pystr) list \<Rightarrow> (pystr \<times> pystr) list" where
  "set_header k v hs = (if list_ex (\<lambda>p. fst p = k) hs then replace_first k v hs else hs @ [(k, v)])"

section \<open>Validation of the request models\<close>

text \<open>
  The errors pydantic reports, with their location (\<open>("body", "username")\<close>,
  \<open>("query", "user1")\<close>) and the input they were raised on. A missing key is
  \<open>missing\<close> (its input is the whole body object); a value that is not a string, \<open>null\<close>
  included, is \<open>string_type\<close>; a body that is not an object is \<open>model_attributes_type\<close>;
  a missing body or query parameter is \<open>missing\<close> with input \<open>None\<close>. Every field is
  checked and every error is reported, in the order of the fields.
\<close>

datatype verr =
    Missing "pystr list" json
  | StringType "pystr list" json
  | ModelAttributesType "pystr list" json

fun str_value :: "pystr list \<Rightarrow> json \<Rightarrow> json option \<Rightarrow> verr list + pystr" where
  "str_value loc obj None = Inl [Missing loc obj]"
| "str_value loc obj (Some (JStr s)) = Inr s"
| "str_value loc obj (Some v) = Inl [StringType loc v]"

fun collect :: "(verr list + 'a) list \<Rightarrow> verr list + 'a list" where
  "collect [] = Inr []"
| "collect (r # rs) =
     (case (r, collect rs) of
        (Inr a, Inr as) \<Rightarrow> Inr (a # as)
      | (Inl e, Inr _) \<Rightarrow> Inl e
      | (Inr _, Inl es) \<Rightarrow> Inl es
      | (Inl e, Inl es) \<Rightarrow> Inl (e @ es))"

text \<open>
  The fields of a body model, each a \<open>str\<close> (FastAPI's \<open>request_body_to_args\<close>, then the
  model's validator). An empty body or \<open>null\<close> is a missing body; keys the model does not
  name are ignored.
\<close>

fun body_strs :: "pystr list \<Rightarrow> json option \<Rightarrow> verr list + pystr list" where
  "body_strs names None = Inl [Missing [py ''body''] JNull]"
| "body_strs names (Some JNull) = Inl [Missing [py ''body''] JNull]"
| "body_strs names (Some (JObj kvs)) =
     collect (map (\<lambda>n. str_value [py ''body'', n] (JObj kvs) (last_value n kvs)) names)"
| "body_strs names (Some v) = Inl [ModelAttributesType [py ''body''] v]"

text \<open>The \<open>str\<close> query parameters of an endpoint; a query value is always a string.\<close>

definition query_strs :: "pystr list \<Rightarrow> (pystr \<times> pystr) list \<Rightarrow> verr list + pystr list" where
  "query_strs names qs =
     collect (map (\<lambda>n. case last_value n qs of
                         None \<Rightarrow> Inl [Missing [py ''query'', n] JNull]
                       | Some v \<Rightarrow> Inr v) names)"

text \<open>
  FastAPI's 422 reply lists the errors under \<open>detail\<close>, each with its \<open>type\<close>, \<open>loc\<close>,
  \<open>msg\<close> and \<open>input\<close>.
\<close>

definition verr_entry :: "pystr \<Rightarrow> pystr list \<Rightarrow> pystr \<Rightarrow> json \<Rightarrow> json" where
  "verr_entry ty loc m inp =
     JObj [(py ''type'', JStr ty), (py ''loc'', JList (map JStr loc)), (py ''msg'', JStr m),
           (py ''input'', inp)]"

fun verr_json :: "verr \<Rightarrow> json" where
  "verr_json (Missing loc inp) = verr_entry (py ''missing'') loc (py ''Field required'') inp"
| "verr_json (StringType loc inp) =
     verr_entry (py ''string_type'') loc (py ''Input should be a valid string'') inp"
| "verr_json (ModelAttributesType loc inp) =
     verr_entry (py ''model_attributes_type'') loc
       (py ''Input should be a valid dictionary or object to extract fields from'') inp"

section \<open>Rendering a JSON reply\<close>

text \<open>
  \<open>JSONResponse.render\<close> is \<open>json.dumps(content, ensure_ascii=False, allow_nan=False,
  indent=None, separators=(",", ":")).encode("utf-8")\<close>. A string is quoted; the quote,
  the backslash and the control characters are escaped (\<open>\n\<close> and its kin by name, the
  others as \<open>\u00XX\<close> in lower-case hex); every other code point is kept.
\<close>

definition hex4 :: "nat \<Rightarrow> pystr" where
  "hex4 n = map (\<lambda>k. let d = n div 16 ^ k mod 16 in if d < 10 then 48 + d else 87 + d) [3, 2, 1, 0]"

definition escape_char :: "codepoint \<Rightarrow> pystr" where
  "escape_char c =
     (if c = 34 then [92, 34] else if c = 92 then [92, 92]
      else if c = 8 then [92, 98] else if c = 12 then [92, 102]
      else if c = 10 then [92, 110] else if c = 13 then [92, 114]
      else if c = 9 then [92, 116]
      else if c < 32 then [92, 117] @ hex4 c else [c])"

definition quote_str :: "pystr \<Rightarrow> pystr" where
  "quote_str s = [34] @ concat (map escape_char s) @ [34]"

definition int_str :: "int \<Rightarrow> pystr" where
  "int_str i = (if i < 0 then [45] @ digits10 (nat (- i)) else digits10 (nat i))"

fun join_with :: "pystr \<Rightarrow> pystr list \<Rightarrow> pystr" where
  "join_with sep [] = []"
| "join_with sep [x] = x"
| "join_with sep (x # xs) = x @ sep @ join_with sep xs"

fun render :: "json \<Rightarrow> pystr" where
  "render JNull = py ''null''"
| "render (JBool b) = (if b then py ''true'' else py ''false'')"
| "render (JInt i) = int_str i"
| "render (JFloat x) = float_repr x"
| "render (JStr s) = quote_str s"
| "render (JList xs) = [91] @ join_with [44] (map render xs) @ [93]"
| "render (JObj kvs) = [123] @ join_with [44] (map (\<lambda>(k, v). quote_str k @ [58] @ render v) kvs) @ [125]"

definition render_bytes :: "json \<Rightarrow> byte list result" where
  "render_bytes j = utf8_encode (render j)"

text \<open>
  \<open>JSONResponse(content, status_code)\<close> renders its body when it is built, so building a
  reply whose strings \<open>.encode\<close> refuses raises \<open>UnicodeEncodeError\<close> there.
\<close>

text \<open>Whether every float of a value is finite: \<open>allow_nan=False\<close> makes \<open>json.dumps\<close>
  raise \<open>ValueError\<close> on \<open>nan\<close> and the infinities.\<close>

fun json_finite :: "json \<Rightarrow> bool" where
  "json_finite (JFloat (FNum _ _ _)) = True"
| "json_finite (JFloat _) = False"
| "json_finite (JList xs) = list_all json_finite xs"
| "json_finite (JObj kvs) = list_all (\<lambda>kv. json_finite (snd kv)) kvs"
| "json_finite _ = True"

text \<open>\<open>JSONResponse(content, status_code)\<close>: the rendered body is only checked, and the
  reply carries the value. Starlette's \<open>content-type: application/json\<close> and
  \<open>content-length\<close> headers, which every JSON reply has, are left out of
  \<open>resp_headers\<close>: they follow from the body, and the headers modelled are those the
  code's logic chooses (\<open>Allow\<close>, \<open>Location\<close>, the CORS headers).\<close>

definition json_response :: "nat \<Rightarrow> json \<Rightarrow> http_response result" where
  "json_response c j =
     (if json_finite j
      then ebind (render_bytes j) (\<lambda>_. Inr \<lparr>status = c, resp_headers = [], rbody = JsonBody j\<rparr>)
      else Inl ValueError)"

definition validation_response :: "verr list \<Rightarrow> http_response result" where
  "validation_response es = json_response 422 (JObj [(py ''detail'', JList (map verr_json es))])"

text \<open>Every string of a value, keys included: what \<open>.encode("utf-8")\<close> has to accept.\<close>

fun json_strs :: "json \<Rightarrow> pystr list" where
  "json_strs (JStr s) = [s]"
| "json_strs (JList xs) = concat (map json_strs xs)"
| "json_strs (JObj kvs) = concat (map (\<lambda>(k, v). k # json_strs v) kvs)"
| "json_strs _ = []"

section \<open>Rendering succeeds exactly on encodable strings\<close>

text \<open>
  The escapes \<open>json.dumps\<close> writes are ASCII, so the rendered text holds a code point
  \<open>.encode\<close> refuses exactly when a string of the value does: a reply can be built
  exactly when all its strings are encodable.
\<close>

lemma encodable_Nil [simp]: "encodable []"
  by (simp add: encodable_iff)

lemma encodable_Cons [simp]: "encodable (c # cs) \<longleftrightarrow> \<not> is_surrogate c \<and> encodable cs"
  by (simp add: encodable_iff)

lemma encodable_append [simp]: "encodable (xs @ ys) \<longleftrightarrow> encodable xs \<and> encodable ys"
  by (auto simp: encodable_iff)

lemma encodable_concat [simp]: "encodable (concat xss) \<longleftrightarrow> list_all encodable xss"
  by (induction xss) auto

lemma encodable_escape_char [simp]: "encodable (escape_char c) \<longleftrightarrow> \<not> is_surrogate c"
  by (auto simp: escape_char_def hex4_def is_surrogate_def Let_def)

lemma encodable_quote_str [simp]: "encodable (quote_str s) \<longleftrightarrow> encodable s"
  by (induction s) (auto simp: quote_str_def is_surrogate_def)

lemma encodable_digits10 [simp]: "encodable (digits10 n)"
proof (induction n rule: digits10.induct)
  case (1 n)
  then show ?case using mod_less_divisor [of 10 n] by (subst digits10.simps) (auto simp: is_surrogate_def)
qed

lemma encodable_int_str [simp]: "encodable (int_str i)"
  by (simp add: int_str_def is_surrogate_def)

lemma encodable_join_with:
  "encodable sep \<Longrightarrow> encodable (join_with sep xs) \<longleftrightarrow> list_all encodable xs"
  by (induction sep xs rule: join_with.induct) auto

lemma render_encodable: "encodable (render j) \<longleftrightarrow> list_all encodable (json_strs j)"
proof (induction j rule: render.induct)
  case (4 x)
  then show ?case using float_repr_ascii [of x] by (simp add: encodable_ascii)
next
  case (6 xs)
  then show ?case by (simp add: encodable_join_with is_surrogate_def list_all_iff comp_def)
next
  case (7 kvs)
  have "encodable (render (snd x)) = list_all encodable (json_strs (snd x))" if "x \<in> set kvs" for x
    using "7.IH" [of x "fst x" "snd x"] that by simp
  then show ?case
    by (auto simp: encodable_join_with is_surrogate_def list_all_iff comp_def split_beta)
qed (simp_all add: py_def is_surrogate_def)

lemma json_response_Inr:
  "json_response c j = Inr r \<longleftrightarrow>
     json_finite j \<and> list_all encodable (json_strs j)
     \<and> r = \<lparr>status = c, resp_headers = [], rbody = JsonBody j\<rparr>"
  by (auto simp: json_response_def render_bytes_def encodable_Inr [symmetric] render_encodable)

lemma json_response_Inl:
  "json_response c j = Inl e \<longleftrightarrow>
     (if json_finite j then e = UnicodeEncodeError \<and> \<not> list_all encodable (json_strs j)
      else e = ValueError)"
proof (cases "utf8_encode (render j)")
  case (Inl e')
  then show ?thesis using utf8_encode_Inl [of "render j" e']
    by (auto simp: json_response_def render_bytes_def render_encodable [symmetric] encodable_def)
next
  case (Inr bs)
  then show ?thesis
    by (auto simp: json_response_def render_bytes_def render_encodable [symmetric] encodable_def)
qed

lemma json_response_eq:
  "json_response c j = (if \<not> json_finite j then Inl ValueError
     else if list_all encodable (json_strs j)
     then Inr \<lparr>status = c, resp_headers = [], rbody = JsonBody j\<rparr> else Inl UnicodeEncodeError)"
  by (cases "json_response c j") (auto simp: json_response_Inr json_response_Inl split: if_splits)

section \<open>Headers\<close>

text \<open>Setting a header makes a lookup of that name find the new value, and of any other
  name what it found before.\<close>

lemma map_of_filter_other: "k' \<noteq> k \<Longrightarrow> map_of (filter (\<lambda>p. fst p \<noteq> k) hs) k' = map_of hs k'"
  by (induction hs) auto

lemma header_replace_first:
  "header k' (replace_first k v hs) = (if k' = k \<and> list_ex (\<lambda>p. fst p = k) hs then Some v else header k' hs)"
  by (induction k v hs rule: replace_first.induct) (auto simp: header_def map_of_filter_other)

lemma header_set_header [simp]:
  "header k' (set_header k v hs) = (if k' = k then Some v else header k' hs)"
proof (cases "list_ex (\<lambda>p. fst p = k) hs")
  case True
  then show ?thesis by (simp add: set_header_def header_replace_first)
next
  case False
  then have "map_of hs k = None" by (auto simp: map_of_eq_None_iff list_ex_iff)
  with False show ?thesis
    by (auto simp: set_header_def header_def map_of_append map_add_def split: option.splits)
qed

section \<open>Validation\<close>

lemma collect_map_Inr [simp]: "collect (map Inr vs) = Inr vs"
  by (induction vs) auto

lemma collect_Inr: "collect rs = Inr vs \<longleftrightarrow> rs = map Inr vs"
  by (induction rs arbitrary: vs) (auto split: sum.splits prod.splits)

end
