(* ===== verification/Cors.thy ===== *)
theory Cors
  imports Http
begin

text \<open>
  The cross-origin middleware of \<open>src/server.py\<close> (lines 11--17): Starlette's
  \<open>CORSMiddleware\<close> with the configuration the code passes. \<open>cors_config\<close> holds the
  arguments; the settings \<open>CORSMiddleware.__init__\<close> derives from them, the preflight reply
  (\<open>preflight_response\<close>), the headers added to every other reply (\<open>simple_response\<close>
  and its \<open>send\<close> wrapper) and the dispatch of \<open>__call__\<close> follow Starlette's code. An
  exception raised by the wrapped application passes through the middleware untouched.
\<close>

section \<open>Configuration\<close>

record cors_config =
  allow_origins :: "pystr list"
  allow_methods :: "pystr list"
  allow_headers :: "pystr list"
  allow_credentials :: bool
  expose_headers :: "pystr list"
  max_age :: nat

text \<open>
  \<open>app.add_middleware(CORSMiddleware, allow_origins=["*"], allow_credentials=True,
  allow_methods=["*"], allow_headers=["*"])\<close>; \<open>expose_headers\<close> and \<open>max_age\<close> keep their
  defaults \<open>()\<close> and \<open>600\<close>.
\<close>

definition app_cors :: cors_config where
  "app_cors = \<lparr>allow_origins = [py ''*''], allow_methods = [py ''*''], allow_headers = [py ''*''],
               allow_credentials = True, expose_headers = [], max_age = 600\<rparr>"

section \<open>Settings derived by the constructor\<close>

text \<open>\<open>"*"\<close> among the methods stands for Starlette's \<open>ALL_METHODS\<close>, seven methods.\<close>

definition all_methods :: "pystr list" where
  "all_methods = map py [''DELETE'', ''GET'', ''HEAD'', ''OPTIONS'', ''PATCH'', ''POST'', ''PUT'']"

definition safelisted_headers :: "pystr list" where
  "safelisted_headers = map py [''Accept'', ''Accept-Language'', ''Content-Language'', ''Content-Type'']"

definition cors_methods :: "cors_config \<Rightarrow> pystr list" where
  "cors_methods c = (if py ''*'' \<in> set (allow_methods c) then all_methods else allow_methods c)"

definition allow_all_origins :: "cors_config \<Rightarrow> bool" where
  "allow_all_origins c \<longleftrightarrow> py ''*'' \<in> set (allow_origins c)"

definition allow_all_headers :: "cors_config \<Rightarrow> bool" where
  "allow_all_headers c \<longleftrightarrow> py ''*'' \<in> set (allow_headers c)"

text \<open>\<open>sorted(SAFELISTED_HEADERS | set(allow_headers))\<close>.\<close>

definition cors_allow_headers :: "cors_config \<Rightarrow> pystr list" where
  "cors_allow_headers c = sort (remdups (safelisted_headers @ allow_headers c))"

definition preflight_explicit :: "cors_config \<Rightarrow> bool" where
  "preflight_explicit c \<longleftrightarrow> \<not> allow_all_origins c \<or> allow_credentials c"

text \<open>\<open>is_allowed_origin\<close>, with no \<open>allow_origin_regex\<close>.\<close>

definition is_allowed_origin :: "cors_config \<Rightarrow> pystr \<Rightarrow> bool" where
  "is_allowed_origin c origin \<longleftrightarrow> allow_all_origins c \<or> origin \<in> set (allow_origins c)"

definition simple_headers :: "cors_config \<Rightarrow> (pystr \<times> pystr) list" where
  "simple_headers c =
     (if allow_all_origins c then [(py ''access-control-allow-origin'', py ''*'')] else [])
     @ (if allow_credentials c then [(py ''access-control-allow-credentials'', py ''true'')] else [])
     @ (if expose_headers c \<noteq> []
        then [(py ''access-control-expose-headers'', join_with (py '', '') (expose_headers c))] else [])"

definition preflight_headers :: "cors_config \<Rightarrow> (pystr \<times> pystr) list" where
  "preflight_headers c =
     (if preflight_explicit c then [(py ''vary'', py ''Origin'')]
      else [(py ''access-control-allow-origin'', py ''*'')])
     @ [(py ''access-control-allow-methods'', join_with (py '', '') (cors_methods c)),
        (py ''access-control-max-age'', digits10 (max_age c))]
     @ (if cors_allow_headers c \<noteq> [] \<and> \<not> allow_all_headers c
        then [(py ''access-control-allow-headers'', join_with (py '', '') (cors_allow_headers c))]
        else [])
     @ (if allow_credentials c then [(py ''access-control-allow-credentials'', py ''true'')] else [])"

section \<open>String helpers of the header check\<close>

text \<open>
  \<open>str.split(",")\<close>, \<open>str.strip()\<close> and \<open>str.lower()\<close> on a header value. Header values
  are decoded as Latin-1, so only code points below 256 occur; on them \<open>isspace\<close> and
  \<open>lower\<close> are as written.
\<close>

fun split_on :: "codepoint \<Rightarrow> pystr \<Rightarrow> pystr list" where
  "split_on d [] = [[]]"
| "split_on d (c # cs) =
     (if c = d then [] # split_on d cs
      else (case split_on d cs of [] \<Rightarrow> [[c]] | w # ws \<Rightarrow> (c # w) # ws))"

definition is_space :: "codepoint \<Rightarrow> bool" where
  "is_space c \<longleftrightarrow> (9 \<le> c \<and> c \<le> 13) \<or> (28 \<le> c \<and> c \<le> 32) \<or> c = 0x85 \<or> c = 0xA0"

definition strip :: "pystr \<Rightarrow> pystr" where
  "strip s = rev (dropWhile is_space (rev (dropWhile is_space s)))"

definition lower :: "pystr \<Rightarrow> pystr" where
  "lower s = map (\<lambda>c. if (65 \<le> c \<and> c \<le> 90) \<or> (0xC0 \<le> c \<and> c \<le> 0xDE \<and> c \<noteq> 0xD7) then c + 32 else c) s"

section \<open>The middleware\<close>

text \<open>
  \<open>preflight_response\<close>: the reply to \<open>OPTIONS\<close> with \<open>Origin\<close> and
  \<open>Access-Control-Request-Method\<close>, which never reaches the application. Each refused
  part (origin, method, headers) is named in the 400 reply's text.
\<close>

definition headers_ok :: "cors_config \<Rightarrow> pystr \<Rightarrow> bool" where
  "headers_ok c rh \<longleftrightarrow>
     list_all (\<lambda>h. strip h \<in> set (map lower (cors_allow_headers c))) (map lower (split_on 44 rh))"

definition preflight_response ::
  "cors_config \<Rightarrow> pystr \<Rightarrow> pystr \<Rightarrow> pystr option \<Rightarrow> http_response" where
  "preflight_response c origin rmethod rheaders =
     (let h0 = preflight_headers c;
          h1 = (if is_allowed_origin c origin \<and> preflight_explicit c
                then set_header (py ''access-control-allow-origin'') origin h0 else h0);
          f1 = (if is_allowed_origin c origin then [] else [py ''origin'']);
          f2 = (if rmethod \<in> set (cors_methods c) then [] else [py ''method'']);
          h2 = (case rheaders of
                  Some rh \<Rightarrow> if allow_all_headers c
                             then set_header (py ''access-control-allow-headers'') rh h1 else h1
                | None \<Rightarrow> h1);
          f3 = (case rheaders of
                  Some rh \<Rightarrow> if allow_all_headers c \<or> headers_ok c rh then [] else [py ''headers'']
                | None \<Rightarrow> []);
          fs = f1 @ f2 @ f3
      in if fs = [] then \<lparr>status = 200, resp_headers = h2, rbody = TextBody (py ''OK'')\<rparr>
         else \<lparr>status = 400, resp_headers = h2,
               rbody = TextBody (py ''Disallowed CORS '' @ join_with (py '', '') fs)\<rparr>)"

text \<open>
  \<open>allow_explicit_origin\<close>: the origin replaces \<open>*\<close> and \<open>Origin\<close> is added to \<open>Vary\<close>
  (\<open>MutableHeaders.add_vary_header\<close>).
\<close>

definition allow_explicit_origin :: "pystr \<Rightarrow> (pystr \<times> pystr) list \<Rightarrow> (pystr \<times> pystr) list" where
  "allow_explicit_origin origin hs =
     (let hs1 = set_header (py ''access-control-allow-origin'') origin hs in
      case header (py ''vary'') hs1 of
        None \<Rightarrow> set_header (py ''vary'') (py ''Origin'') hs1
      | Some v \<Rightarrow> set_header (py ''vary'') (v @ py '', Origin'') hs1)"

text \<open>
  The \<open>send\<close> wrapper of \<open>simple_response\<close>: the configured headers, then the explicit
  origin when all origins are allowed and the request carries a cookie.
\<close>

definition simple_response_headers ::
  "cors_config \<Rightarrow> (pystr \<times> pystr) list \<Rightarrow> pystr \<Rightarrow> (pystr \<times> pystr) list \<Rightarrow> (pystr \<times> pystr) list" where
  "simple_response_headers c req_hs origin hs =
     (let hs1 = foldl (\<lambda>acc kv. set_header (fst kv) (snd kv) acc) hs (simple_headers c) in
      if allow_all_origins c \<and> list_ex (\<lambda>p. fst p = py ''cookie'') req_hs
      then allow_explicit_origin origin hs1
      else if \<not> allow_all_origins c \<and> is_allowed_origin c origin
      then allow_explicit_origin origin hs1
      else hs1)"

text \<open>\<open>simple_response\<close>: the application runs and its reply gets those headers.\<close>

definition simple_response ::
  "cors_config \<Rightarrow> (http_request \<Rightarrow> 's \<Rightarrow> http_response result \<times> 's) \<Rightarrow>
   pystr \<Rightarrow> http_request \<Rightarrow> 's \<Rightarrow> http_response result \<times> 's" where
  "simple_response c app origin req s =
     (case app req s of
        (Inr r, s') \<Rightarrow>
          (Inr (r\<lparr>resp_headers := simple_response_headers c (req_headers req) origin (resp_headers r)\<rparr>), s')
      | (Inl e, s') \<Rightarrow> (Inl e, s'))"

text \<open>
  \<open>CORSMiddleware.__call__\<close> around an application that returns a reply or lets an
  exception through, with the state it changes: no \<open>Origin\<close>, the application alone; a
  preflight, the middleware's own reply; otherwise \<open>simple_response\<close>.
\<close>

definition cors_middleware ::
  "cors_config \<Rightarrow> (http_request \<Rightarrow> 's \<Rightarrow> http_response result \<times> 's) \<Rightarrow>
   http_request \<Rightarrow> 's \<Rightarrow> http_response result \<times> 's" where
  "cors_middleware c app req s =
     (case header (py ''origin'') (req_headers req) of
        None \<Rightarrow> app req s
      | Some origin \<Rightarrow>
          if req_method req = py ''OPTIONS''
             \<and> header (py ''access-control-request-method'') (req_headers req) \<noteq> None
          then (Inr (preflight_response c origin
                       (the (header (py ''access-control-request-method'') (req_headers req)))
                       (header (py ''access-control-request-headers'') (req_headers req))), s)
          else simple_response c app origin req s)"

section \<open>The application's policy\<close>

text \<open>
  With the configuration of lines 11--17 every origin is allowed and echoed (credentials
  are allowed, so \<open>*\<close> cannot be used), every requested header is allowed and echoed, and
  the methods are Starlette's seven.
\<close>

lemma app_cors_settings [simp]:
  "allow_all_origins app_cors" "allow_all_headers app_cors" "preflight_explicit app_cors"
  "cors_methods app_cors = all_methods" "allow_credentials app_cors" "max_age app_cors = 600"
  by (simp_all add: app_cors_def allow_all_origins_def allow_all_headers_def preflight_explicit_def
                    cors_methods_def py_def)

lemma preflight_status: "status (preflight_response c origin m rh) \<in> {200, 400}"
  by (simp add: preflight_response_def Let_def)

lemma preflight_acao:
  "header (py ''access-control-allow-origin'') (resp_headers (preflight_response app_cors origin m rh)) \<noteq> None"
  by (simp add: preflight_response_def Let_def is_allowed_origin_def split: option.splits)

lemma simple_response_headers_acao:
  "header (py ''access-control-allow-origin'') (simple_response_headers app_cors hq origin hs) \<noteq> None"
  by (simp add: simple_response_headers_def simple_headers_def allow_explicit_origin_def Let_def
           split: option.splits)

text \<open>
  C26: the reply to every CORS preflight under the application's configuration. The
  origin and the requested headers, whatever they are, are echoed and accepted; the
  request is accepted exactly when its method is one of \<open>DELETE\<close>, \<open>GET\<close>, \<open>HEAD\<close>,
  \<open>OPTIONS\<close>, \<open>PATCH\<close>, \<open>POST\<close>, \<open>PUT\<close>, and refused with 400 "Disallowed CORS method"
  for any other, although \<open>allow_methods=["*"]\<close> is passed.
\<close>

theorem app_preflight:
  "preflight_response app_cors origin m rh =
     \<lparr>status = (if m \<in> set all_methods then 200 else 400),
      resp_headers = [(py ''vary'', py ''Origin''),
                      (py ''access-control-allow-methods'', py ''DELETE, GET, HEAD, OPTIONS, PATCH, POST, PUT''),
                      (py ''access-control-max-age'', py ''600''),
                      (py ''access-control-allow-credentials'', py ''true''),
                      (py ''access-control-allow-origin'', origin)]
                     @ (case rh of None \<Rightarrow> [] | Some h \<Rightarrow> [(py ''access-control-allow-headers'', h)]),
      rbody = TextBody (if m \<in> set all_methods then py ''OK'' else py ''Disallowed CORS method'')\<rparr>"
proof -
  have "preflight_headers app_cors =
     [(py ''vary'', py ''Origin''),
      (py ''access-control-allow-methods'', py ''DELETE, GET, HEAD, OPTIONS, PATCH, POST, PUT''),
      (py ''access-control-max-age'', py ''600''),
      (py ''access-control-allow-credentials'', py ''true'')]"
    by (simp add: preflight_headers_def all_methods_def digits10.simps py_def)
  then show ?thesis
    by (cases rh) (auto simp: preflight_response_def Let_def is_allowed_origin_def set_header_def py_def)
qed

end
