(* ===== verification/Service.thy ===== *)
theory Service
  imports Handlers Cors
begin

text \<open>
  The service around the handlers: the routes the decorators of \<open>src/server.py\<close> declare
  (\<open>@app.post("/register")\<close> and the four others), the router that picks one (with
  Starlette's 405, 404 and trailing-slash redirect), the binding of the body or query
  to the handler's parameters with pydantic's validation, the conversion of the
  handler's return value or \<open>HTTPException\<close> into a JSON reply, and the middleware stack
  FastAPI builds: \<open>ServerErrorMiddleware\<close> outside the CORS middleware outside the
  exception middleware and the router. \<open>asgi_app\<close> is one request served from one state.
\<close>

section \<open>Routes\<close>

datatype endpoint = Register | Login | Users | Send | Messages

text \<open>The routes in the order the decorators register them (lines 70, 84, 95, 104, 114).
  FastAPI also registers \<open>/openapi.json\<close>, \<open>/docs\<close>, \<open>/docs/oauth2-redirect\<close> and
  \<open>/redoc\<close>, whose \<open>GET\<close> replies 200 with the generated schema and pages; they are
  not modelled, so on those four paths the model answers 404 (or 405) where the
  application answers 200.\<close>

definition routes :: "(pystr \<times> pystr \<times> endpoint) list" where
  "routes = [(py ''/register'', py ''POST'', Register), (py ''/login'', py ''POST'', Login),
             (py ''/users'', py ''GET'', Users), (py ''/send'', py ''POST'', Send),
             (py ''/messages'', py ''GET'', Messages)]"

text \<open>
  \<open>Route.matches\<close> over the routes: a full match (path and method), else a partial one
  (path only, carrying the route's method for the \<open>Allow\<close> header), else none.
\<close>

datatype route_match = Full endpoint | Partial pystr | NoRoute

definition match_route :: "pystr \<Rightarrow> pystr \<Rightarrow> route_match" where
  "match_route meth path =
     (case find (\<lambda>(p, m, _). p = path \<and> m = meth) routes of
        Some (_, _, e) \<Rightarrow> Full e
      | None \<Rightarrow> (case find (\<lambda>(p, _, _). p = path) routes of
                  Some (_, m, _) \<Rightarrow> Partial m
                | None \<Rightarrow> NoRoute))"

text \<open>
  \<open>redirect_slashes\<close>: a path with trailing slashes is tried without them
  (\<open>rstrip("/")\<close>), any other path with one slash added.
\<close>

definition redirect_path :: "pystr \<Rightarrow> pystr" where
  "redirect_path p =
     (if p \<noteq> [] \<and> last p = 47 then rev (dropWhile (\<lambda>c. c = 47) (rev p)) else p @ [47])"

section \<open>Replies\<close>

text \<open>
  FastAPI's handler for \<open>HTTPException\<close>: \<open>{"detail": detail}\<close> with the exception's
  status and headers.
\<close>

definition http_error :: "nat \<Rightarrow> pystr \<Rightarrow> (pystr \<times> pystr) list \<Rightarrow> http_response result" where
  "http_error c d hs =
     ebind (json_response c (JObj [(py ''detail'', JStr d)])) (\<lambda>r. Inr (r\<lparr>resp_headers := hs\<rparr>))"

definition reply_json :: "reply \<Rightarrow> json" where
  "reply_json r = JObj (map (\<lambda>(k, v). (k, JStr v)) r)"

text \<open>A \<open>Message\<close> as \<open>response_model=List[Message]\<close> serialises it, fields in order.\<close>

definition message_json :: "msg_row \<Rightarrow> json" where
  "message_json m =
     JObj [(py ''id'', JInt (msg_id m)), (py ''sender'', JStr (sender m)),
           (py ''receiver'', JStr (receiver m)), (py ''text'', JStr (msg_text m)),
           (py ''timestamp'', JStr (timestamp m))]"

text \<open>
  The value a handler returns becomes a 200 JSON reply; an \<open>HTTPException\<close> it raises
  becomes its reply (the exception middleware); any other exception goes on.
\<close>

definition to_response :: "('a \<Rightarrow> json) \<Rightarrow> 'a result \<Rightarrow> http_response result" where
  "to_response f r =
     (case r of
        Inr v \<Rightarrow> json_response 200 (f v)
      | Inl e \<Rightarrow> (case e of HTTPException c d \<Rightarrow> http_error c d [] | _ \<Rightarrow> Inl e))"

section \<open>Calling an endpoint\<close>

text \<open>
  The parameters are validated before the function runs: a failure is the 422 reply
  and the function is not called (no connection is opened).
\<close>

definition call_endpoint ::
  "engine \<Rightarrow> pystr \<Rightarrow> endpoint \<Rightarrow> http_request \<Rightarrow> server \<Rightarrow> http_response result \<times> server" where
  "call_endpoint eng now e req s =
     (case e of
        Register \<Rightarrow>
          (case body_strs [py ''username'', py ''password''] (req_body req) of
             Inl es \<Rightarrow> (validation_response es, s)
           | Inr vs \<Rightarrow>
               (let (r, s') = register \<lparr>uc_username = vs ! 0, uc_password = vs ! 1\<rparr> s
                in (to_response reply_json r, s')))
      | Login \<Rightarrow>
          (case body_strs [py ''username'', py ''password''] (req_body req) of
             Inl es \<Rightarrow> (validation_response es, s)
           | Inr vs \<Rightarrow>
               (let (r, s') = login eng \<lparr>ul_username = vs ! 0, ul_password = vs ! 1\<rparr> s
                in (to_response reply_json r, s')))
      | Users \<Rightarrow>
          (let (r, s') = get_users eng s in (to_response (\<lambda>us. JList (map JStr us)) r, s'))
      | Send \<Rightarrow>
          (case body_strs [py ''sender'', py ''receiver'', py ''text''] (req_body req) of
             Inl es \<Rightarrow> (validation_response es, s)
           | Inr vs \<Rightarrow>
               (let (r, s') = send_message now
                                \<lparr>mc_sender = vs ! 0, mc_receiver = vs ! 1, mc_text = vs ! 2\<rparr> s
                in (to_response reply_json r, s')))
      | Messages \<Rightarrow>
          (case query_strs [py ''user1'', py ''user2''] (req_query req) of
             Inl es \<Rightarrow> (validation_response es, s)
           | Inr vs \<Rightarrow>
               (let (r, s') = get_messages eng (vs ! 0) (vs ! 1) s
                in (to_response (\<lambda>ms. JList (map message_json ms)) r, s'))))"

section \<open>The application\<close>

text \<open>
  The router with the exception middleware: a full match calls the endpoint, a partial
  one is 405 with \<open>Allow\<close>, a path that matches once its trailing slash is toggled is a
  307 redirect (its \<open>Location\<close> modelled by the new path), anything else 404.
\<close>

definition inner_app :: "engine \<Rightarrow> pystr \<Rightarrow> http_request \<Rightarrow> server \<Rightarrow> http_response result \<times> server" where
  "inner_app eng now req s =
     (case match_route (req_method req) (req_path req) of
        Full e \<Rightarrow> call_endpoint eng now e req s
      | Partial m \<Rightarrow> (http_error 405 (py ''Method Not Allowed'') [(py ''allow'', m)], s)
      | NoRoute \<Rightarrow>
          (if req_path req \<noteq> py ''/''
              \<and> match_route (req_method req) (redirect_path (req_path req)) \<noteq> NoRoute
           then (Inr \<lparr>status = 307, resp_headers = [(py ''location'', redirect_path (req_path req))],
                      rbody = TextBody []\<rparr>, s)
           else (http_error 404 (py ''Not Found'') [], s)))"

text \<open>\<open>ServerErrorMiddleware\<close>: an exception that reaches it is a plain 500 reply.\<close>

definition server_error_response :: http_response where
  "server_error_response =
     \<lparr>status = 500, resp_headers = [], rbody = TextBody (py ''Internal Server Error'')\<rparr>"

definition asgi_app :: "engine \<Rightarrow> pystr \<Rightarrow> http_request \<Rightarrow> server \<Rightarrow> http_response \<times> server" where
  "asgi_app eng now req s =
     (case cors_middleware app_cors (inner_app eng now) req s of
        (Inr r, s') \<Rightarrow> (r, s')
      | (Inl e, s') \<Rightarrow> (server_error_response, s'))"

section \<open>Requests a client sends\<close>

text \<open>A JSON \<open>POST\<close> and a \<open>GET\<close> with a query, with no \<open>Origin\<close> header.\<close>

definition post_json :: "pystr \<Rightarrow> (pystr \<times> json) list \<Rightarrow> http_request" where
  "post_json path kvs = \<lparr>req_method = py ''POST'', req_path = path, req_query = [], req_headers = [],
                         req_body = Some (JObj kvs)\<rparr>"

definition get_req :: "pystr \<Rightarrow> (pystr \<times> pystr) list \<Rightarrow> http_request" where
  "get_req path q = \<lparr>req_method = py ''GET'', req_path = path, req_query = q, req_headers = [],
                     req_body = None\<rparr>"

section \<open>Which exceptions reach the service\<close>

text \<open>
  The store and the hasher raise \<open>UnicodeEncodeError\<close> and \<open>OperationalError\<close>, never an
  \<open>HTTPException\<close>; so the only HTTP errors of the handlers are \<open>register\<close>'s 400 and
  \<open>login\<close>'s 401.
\<close>

lemma hash_password_exc: "hash_password p = Inl e \<Longrightarrow> e = UnicodeEncodeError"
  by (auto simp: hash_password_def ebind_eq_Inl utf8_encode_Inl)

lemma table_exc: "table t = Inl e \<Longrightarrow> e = OperationalError (py ''no such table'')"
  by (cases t) auto

lemma bind_strs_exc: "bind_strs ps = Inl e \<Longrightarrow> e = UnicodeEncodeError"
  by (simp add: bind_strs_Inl)

lemmas statement_excs = hash_password_exc table_exc bind_strs_exc

lemma insert_user_exc: "insert_user u h d = Inl (HTTPException c m) \<Longrightarrow> False"
  by (auto simp: insert_user_def ebind_eq_Inl dest: statement_excs split: if_splits)

lemma insert_message_exc: "insert_message now a b t d = Inl (HTTPException c m) \<Longrightarrow> False"
  by (auto simp: insert_message_def ebind_eq_Inl Let_def dest: statement_excs split: if_splits)

lemma select_password_hash_exc: "select_password_hash sc u d = Inl (HTTPException c m) \<Longrightarrow> False"
  by (auto simp: select_password_hash_def ebind_eq_Inl dest: statement_excs)

lemma select_usernames_exc: "select_usernames sc d = Inl (HTTPException c m) \<Longrightarrow> False"
  by (auto simp: select_usernames_def ebind_eq_Inl dest: statement_excs)

lemma select_conversation_exc: "select_conversation ob u1 u2 d = Inl (HTTPException c m) \<Longrightarrow> False"
  by (auto simp: select_conversation_def ebind_eq_Inl dest: statement_excs)

lemma register_http_exc: "fst (register u s) = Inl (HTTPException c m) \<Longrightarrow> c = 400"
  by (auto simp: register_def Let_def conflict_def ebind_eq_Inl dest: statement_excs insert_user_exc
           split: sum.splits if_splits)

lemma login_http_exc: "fst (login eng u s) = Inl (HTTPException c m) \<Longrightarrow> c = 401"
  by (auto simp: login_def Let_def invalid_credentials_def dest: statement_excs select_password_hash_exc
           split: sum.splits if_splits option.splits)

lemma get_users_http_exc: "fst (get_users eng s) = Inl (HTTPException c m) \<Longrightarrow> False"
  by (auto simp: get_users_def Let_def dest: select_usernames_exc split: sum.splits)

lemma send_message_http_exc: "fst (send_message now msg s) = Inl (HTTPException c m) \<Longrightarrow> False"
  by (auto simp: send_message_def Let_def dest: insert_message_exc split: sum.splits)

lemma get_messages_http_exc: "fst (get_messages eng u1 u2 s) = Inl (HTTPException c m) \<Longrightarrow> False"
  by (auto simp: get_messages_def Let_def dest: select_conversation_exc split: sum.splits)

lemmas handler_http_excs = register_http_exc login_http_exc get_users_http_exc
  send_message_http_exc get_messages_http_exc

section \<open>Status codes\<close>

lemma to_response_status:
  "to_response f r = Inr resp \<Longrightarrow> status resp = 200 \<or> (\<exists>d. r = Inl (HTTPException (status resp) d))"
  by (auto simp: to_response_def http_error_def json_response_Inr split: sum.splits exc.splits)

lemma validation_response_status: "validation_response es = Inr resp \<Longrightarrow> status resp = 422"
  by (auto simp: validation_response_def json_response_Inr)

lemma http_error_status: "http_error c d hs = Inr resp \<Longrightarrow> status resp = c"
  by (auto simp: http_error_def json_response_Inr)

lemma call_endpoint_status:
  "fst (call_endpoint eng now e req s) = Inr resp \<Longrightarrow> status resp \<in> {200, 400, 401, 422}"
  by (cases e)
     (auto simp: call_endpoint_def case_prod_beta split: sum.splits
           dest!: to_response_status validation_response_status handler_http_excs)

lemma inner_app_status:
  "fst (inner_app eng now req s) = Inr resp \<Longrightarrow> status resp \<in> {200, 307, 400, 401, 404, 405, 422}"
  by (auto simp: inner_app_def split: route_match.splits if_splits
           dest!: call_endpoint_status http_error_status)

section \<open>Serving the client's requests\<close>

text \<open>Without an \<open>Origin\<close> header the CORS middleware passes the request through.\<close>

lemma asgi_app_no_origin:
  "header (py ''origin'') (req_headers req) = None \<Longrightarrow>
   asgi_app eng now req s =
     (case inner_app eng now req s of (Inr r, s') \<Rightarrow> (r, s') | (Inl e, s') \<Rightarrow> (server_error_response, s'))"
  by (simp add: asgi_app_def cors_middleware_def)

lemma asgi_app_post_json:
  "asgi_app eng now (post_json path kvs) s =
     (case inner_app eng now (post_json path kvs) s of
        (Inr r, s') \<Rightarrow> (r, s') | (Inl e, s') \<Rightarrow> (server_error_response, s'))"
  by (rule asgi_app_no_origin) (simp add: post_json_def header_def)

lemma asgi_app_get_req:
  "asgi_app eng now (get_req path q) s =
     (case inner_app eng now (get_req path q) s of
        (Inr r, s') \<Rightarrow> (r, s') | (Inl e, s') \<Rightarrow> (server_error_response, s'))"
  by (rule asgi_app_no_origin) (simp add: get_req_def header_def)

lemma inner_app_register:
  "inner_app eng now (post_json (py ''/register'') kvs) s =
     (case body_strs [py ''username'', py ''password''] (Some (JObj kvs)) of
        Inl es \<Rightarrow> (validation_response es, s)
      | Inr vs \<Rightarrow> (let (r, s') = register \<lparr>uc_username = vs ! 0, uc_password = vs ! 1\<rparr> s
                  in (to_response reply_json r, s')))"
  by (simp add: inner_app_def post_json_def match_route_def routes_def call_endpoint_def py_def)

lemma inner_app_users:
  "inner_app eng now (get_req (py ''/users'') q) s =
     (let (r, s') = get_users eng s in (to_response (\<lambda>us. JList (map JStr us)) r, s'))"
  by (simp add: inner_app_def get_req_def match_route_def routes_def call_endpoint_def py_def)

lemma inner_app_messages:
  "inner_app eng now (get_req (py ''/messages'') q) s =
     (case query_strs [py ''user1'', py ''user2''] q of
        Inl es \<Rightarrow> (validation_response es, s)
      | Inr vs \<Rightarrow> (let (r, s') = get_messages eng (vs ! 0) (vs ! 1) s
                  in (to_response (\<lambda>ms. JList (map message_json ms)) r, s')))"
  by (simp add: inner_app_def get_req_def match_route_def routes_def call_endpoint_def py_def)

lemma inner_app_send:
  "inner_app eng now (req\<lparr>req_method := py ''POST'', req_path := py ''/send''\<rparr>) s =
     call_endpoint eng now Send (req\<lparr>req_method := py ''POST'', req_path := py ''/send''\<rparr>) s"
  by (simp add: inner_app_def match_route_def routes_def py_def)

lemma body_strs_pair:
  "a \<noteq> b \<Longrightarrow> body_strs [a, b] (Some (JObj [(a, JStr x), (b, JStr y)])) = Inr [x, y]"
  by (simp add: last_value_def)

lemma query_strs_pair:
  "a \<noteq> b \<Longrightarrow> query_strs [a, b] [(a, x), (b, y)] = Inr [x, y]"
  by (simp add: query_strs_def last_value_def)

lemma json_response_ascii:
  "json_finite j \<Longrightarrow> list_all (list_all (\<lambda>c. c < 0x80)) (json_strs j) \<Longrightarrow>
   json_response c j = Inr \<lparr>status = c, resp_headers = [], rbody = JsonBody j\<rparr>"
  by (simp add: json_response_Inr list_all_iff encodable_ascii)

lemma asgi_app_register:
  "asgi_app eng now (post_json (py ''/register'') [(py ''username'', JStr u), (py ''password'', JStr p)]) s =
     (let (r, s') = register \<lparr>uc_username = u, uc_password = p\<rparr> s in
      case to_response reply_json r of Inr resp \<Rightarrow> (resp, s') | Inl e \<Rightarrow> (server_error_response, s'))"
proof -
  have "body_strs [py ''username'', py ''password'']
          (Some (JObj [(py ''username'', JStr u), (py ''password'', JStr p)])) = Inr [u, p]"
    by (rule body_strs_pair) (simp add: py_def)
  then show ?thesis
    by (simp add: asgi_app_post_json inner_app_register case_prod_beta split: sum.split)
qed

lemma message_json_finite [simp]: "json_finite (message_json m)"
  by (simp add: message_json_def)

lemma get_users_wf:
  assumes "wf_db (dbfile s)" "engine_ok eng"
  shows "\<exists>us xs. users_tbl (dbfile s) = Some us \<and> get_users eng s = (Inr xs, s)
           \<and> mset xs = mset (map username us) \<and> list_all encodable xs"
proof -
  obtain us where us: "users_tbl (dbfile s) = Some us" "wf_users us"
    using assms(1) by (auto simp: wf_db_def split: option.splits)
  obtain xs where xs: "select_usernames (users_scan eng) (dbfile s) = Inr xs"
      "mset xs = mset (map username us)"
    using select_usernames_perm [OF us(1)] engine_okD [OF assms(2)] by blast
  then have "set xs = username ` set us" by (metis mset_eq_setD set_map)
  with us(2) have "list_all encodable xs" by (auto simp: wf_users_def list_all_iff)
  with us xs show ?thesis by (simp add: get_users_def)
qed

lemma inner_app_login:
  "inner_app eng now (post_json (py ''/login'') kvs) s =
     (case body_strs [py ''username'', py ''password''] (Some (JObj kvs)) of
        Inl es \<Rightarrow> (validation_response es, s)
      | Inr vs \<Rightarrow> (let (r, s') = login eng \<lparr>ul_username = vs ! 0, ul_password = vs ! 1\<rparr> s
                  in (to_response reply_json r, s')))"
  by (simp add: inner_app_def post_json_def match_route_def routes_def call_endpoint_def py_def)

lemma asgi_app_login:
  "asgi_app eng now (post_json (py ''/login'') [(py ''username'', JStr u), (py ''password'', JStr p)]) s =
     (let (r, s') = login eng \<lparr>ul_username = u, ul_password = p\<rparr> s in
      case to_response reply_json r of Inr resp \<Rightarrow> (resp, s') | Inl e \<Rightarrow> (server_error_response, s'))"
proof -
  have "body_strs [py ''username'', py ''password'']
          (Some (JObj [(py ''username'', JStr u), (py ''password'', JStr p)])) = Inr [u, p]"
    by (rule body_strs_pair) (simp add: py_def)
  then show ?thesis
    by (simp add: asgi_app_post_json inner_app_login case_prod_beta split: sum.split)
qed

lemma json_strs_str_list [simp]: "json_strs (JList (map JStr xs)) = xs"
  by (induction xs) simp_all

lemma message_list_encodable:
  assumes "wf_msgs seq ms" "list_all (\<lambda>m. encodable (timestamp m)) ms" "set out \<subseteq> set ms"
  shows "list_all encodable (json_strs (JList (map message_json out)))"
proof -
  have "\<forall>m\<in>set out. encodable (sender m) \<and> encodable (receiver m) \<and> encodable (msg_text m)
                     \<and> encodable (timestamp m)"
    using assms by (auto simp: wf_msgs_def list_all_iff)
  then show ?thesis
    by (auto simp: message_json_def list_all_iff encodable_ascii py_def is_surrogate_def)
qed

section \<open>Claims about the service\<close>

text \<open>
  C22: over HTTP, \<open>POST /register\<close> with a JSON body naming a username and a password
  (both encodable) gets the 200 reply \<open>{"message": "User registered"}\<close> and stores the
  user with the password's digest when the name is free, and the 400 reply
  \<open>{"detail": "Username already exists"}\<close> with nothing changed when it is taken.
\<close>

theorem http_register:
  assumes "users_tbl (dbfile s) = Some us" "encodable u" "encodable p"
  shows "\<exists>h. hash_password p = Inr h \<and>
    asgi_app eng now (post_json (py ''/register'') [(py ''username'', JStr u), (py ''password'', JStr p)]) s =
      (if u \<in> set (map username us)
       then (\<lparr>status = 400, resp_headers = [],
              rbody = JsonBody (JObj [(py ''detail'', JStr (py ''Username already exists''))])\<rparr>, s)
       else (\<lparr>status = 200, resp_headers = [],
              rbody = JsonBody (JObj [(py ''message'', JStr (py ''User registered''))])\<rparr>,
             s\<lparr>dbfile := (dbfile s)\<lparr>users_tbl := Some (us @ [\<lparr>username = u, password_hash = h\<rparr>])\<rparr>\<rparr>))"
proof -
  obtain h where h: "hash_password p = Inr h"
    using hash_password_ok assms(3) by (auto simp: encodable_iff)
  show ?thesis
  proof (cases "u \<in> set (map username us)")
    case True
    then have "register \<lparr>uc_username = u, uc_password = p\<rparr> s = (Inl conflict, s)"
      using register_dup [of s us "\<lparr>uc_username = u, uc_password = p\<rparr>" h] assms(1,2) h by simp
    with True h show ?thesis unfolding asgi_app_register
      by (simp add: to_response_def conflict_def http_error_def json_response_ascii py_def)
  next
    case False
    then have "register \<lparr>uc_username = u, uc_password = p\<rparr> s =
      (Inr (reply_message (py ''User registered'')),
       s\<lparr>dbfile := (dbfile s)\<lparr>users_tbl := Some (us @ [\<lparr>username = u, password_hash = h\<rparr>])\<rparr>\<rparr>)"
      using register_new [of s us "\<lparr>uc_username = u, uc_password = p\<rparr>" h] assms(1,2) h by simp
    with False h show ?thesis unfolding asgi_app_register
      by (simp add: to_response_def reply_json_def reply_message_def json_response_ascii py_def)
  qed
qed

theorem http_register_witness:
  "\<exists>h. hash_password (py ''pw'') = Inr h \<and>
    asgi_app sqlite_engine (py ''2024-01-01 10:00:00'')
      (post_json (py ''/register'') [(py ''username'', JStr (py ''alice'')), (py ''password'', JStr (py ''pw''))])
      initial_server =
      (\<lparr>status = 200, resp_headers = [],
         rbody = JsonBody (JObj [(py ''message'', JStr (py ''User registered''))])\<rparr>,
       initial_server\<lparr>dbfile := (dbfile initial_server)\<lparr>users_tbl :=
          Some [\<lparr>username = py ''alice'', password_hash = h\<rparr>]\<rparr>\<rparr>)"
  using http_register [of initial_server "[]" "py ''alice''" "py ''pw''" sqlite_engine "py ''2024-01-01 10:00:00''"]
  by (simp add: initial_server_eq py_def is_surrogate_def)

text \<open>
  C23: every reply the service sends has one of the status codes 200, 307, 400, 401,
  404, 405, 422 or 500: the handlers raise no HTTP error but 400 and 401, and every other
  exception becomes 500.
\<close>

theorem reply_status_codes:
  "status (fst (asgi_app eng now req s)) \<in> {200, 307, 400, 401, 404, 405, 422, 500}"
proof -
  have "fst (inner_app eng now req s) = Inr resp \<Longrightarrow>
        status resp \<in> {200, 307, 400, 401, 404, 405, 422, 500}" for resp
    using inner_app_status by blast
  then show ?thesis
    using preflight_status [of app_cors]
    by (auto simp: asgi_app_def cors_middleware_def simple_response_def server_error_response_def
             split: option.splits sum.splits prod.splits if_splits)
qed

text \<open>
  C24: for a request from another origin (an \<open>Origin\<close> header), a reply lacks the
  \<open>Access-Control-Allow-Origin\<close> header exactly when it is a 500: the exception passes
  the CORS middleware and \<open>ServerErrorMiddleware\<close> answers it without CORS headers, so a
  browser reports a CORS failure instead of the server error.
\<close>

theorem server_error_lacks_cors:
  assumes "header (py ''origin'') (req_headers req) \<noteq> None"
  shows "status (fst (asgi_app eng now req s)) = 500 \<longleftrightarrow>
         header (py ''access-control-allow-origin'') (resp_headers (fst (asgi_app eng now req s))) = None"
proof -
  obtain origin where o: "header (py ''origin'') (req_headers req) = Some origin" using assms by blast
  show ?thesis
  proof (cases "req_method req = py ''OPTIONS''
                \<and> header (py ''access-control-request-method'') (req_headers req) \<noteq> None")
    case True
    then have "fst (asgi_app eng now req s) = preflight_response app_cors origin
                 (the (header (py ''access-control-request-method'') (req_headers req)))
                 (header (py ''access-control-request-headers'') (req_headers req))"
      using o by (simp add: asgi_app_def cors_middleware_def)
    moreover have "status (preflight_response app_cors origin
                 (the (header (py ''access-control-request-method'') (req_headers req)))
                 (header (py ''access-control-request-headers'') (req_headers req))) \<noteq> 500"
      by (simp add: preflight_response_def Let_def)
    ultimately show ?thesis using preflight_acao by simp
  next
    case False
    obtain r s' where i: "inner_app eng now req s = (r, s')" by fastforce
    show ?thesis
    proof (cases r)
      case (Inl e)
      with i o False have "fst (asgi_app eng now req s) = server_error_response"
        by (auto simp: asgi_app_def cors_middleware_def simple_response_def)
      then show ?thesis by (simp add: server_error_response_def header_def)
    next
      case (Inr resp)
      with i have "status resp \<noteq> 500" using inner_app_status [of eng now req s resp] by auto
      moreover from Inr i o False have "fst (asgi_app eng now req s) =
          resp\<lparr>resp_headers := simple_response_headers app_cors (req_headers req) origin (resp_headers resp)\<rparr>"
        by (auto simp: asgi_app_def cors_middleware_def simple_response_def)
      ultimately show ?thesis using simple_response_headers_acao by simp
    qed
  qed
qed

theorem server_error_lacks_cors_witness:
  "header (py ''origin'') [(py ''origin'', py ''http://example.com'')] \<noteq> None
   \<and> status (fst (asgi_app sqlite_engine (py ''t'')
        \<lparr>req_method = py ''POST'', req_path = py ''/send'', req_query = [],
         req_headers = [(py ''origin'', py ''http://example.com'')],
         req_body = Some (JObj [(py ''sender'', JStr (py ''a'')), (py ''receiver'', JStr (py ''b'')),
                                (py ''text'', JStr [0xD800])])\<rparr> initial_server)) = 500
   \<and> header (py ''access-control-allow-origin'') (resp_headers (fst (asgi_app sqlite_engine (py ''t'')
        \<lparr>req_method = py ''POST'', req_path = py ''/send'', req_query = [],
         req_headers = [(py ''origin'', py ''http://example.com'')],
         req_body = Some (JObj [(py ''sender'', JStr (py ''a'')), (py ''receiver'', JStr (py ''b'')),
                                (py ''text'', JStr [0xD800])])\<rparr> initial_server))) = None"
proof -
  let ?req = "\<lparr>req_method = py ''POST'', req_path = py ''/send'', req_query = [],
         req_headers = [(py ''origin'', py ''http://example.com'')],
         req_body = Some (JObj [(py ''sender'', JStr (py ''a'')), (py ''receiver'', JStr (py ''b'')),
                                (py ''text'', JStr [0xD800])])\<rparr>"
  have o: "header (py ''origin'') (req_headers ?req) \<noteq> None" by (simp add: header_def)
  have "fst (inner_app sqlite_engine (py ''t'') ?req initial_server) = Inl UnicodeEncodeError"
    using inner_app_send [of sqlite_engine "py ''t''" ?req initial_server]
    by (simp add: call_endpoint_def last_value_def py_def send_message_def insert_message_def
                  initial_server_eq bind_strs_def is_surrogate_def to_response_def)
  then obtain s' where "inner_app sqlite_engine (py ''t'') ?req initial_server = (Inl UnicodeEncodeError, s')"
    by (metis prod.collapse)
  then have "status (fst (asgi_app sqlite_engine (py ''t'') ?req initial_server)) = 500"
    by (simp add: asgi_app_def cors_middleware_def header_def simple_response_def py_def
                  server_error_response_def)
  with server_error_lacks_cors [OF o, of sqlite_engine "py ''t''" initial_server] show ?thesis
    by (simp add: header_def)
qed

text \<open>
  C25: a registration body without \<open>username\<close> is answered 422, listing the missing
  field with the body as its input, when the body's password is encodable; when it holds a
  lone surrogate (a JSON \<open>\ud800\<close> escape) the 422 reply cannot be rendered and the client
  gets 500. Nothing is stored and no connection is opened either way.
\<close>

theorem missing_username_reply:
  "asgi_app eng now (post_json (py ''/register'') [(py ''password'', JStr p)]) s =
     (if encodable p
      then (\<lparr>status = 422, resp_headers = [],
             rbody = JsonBody (JObj [(py ''detail'', JList [verr_json (Missing [py ''body'', py ''username'']
                                        (JObj [(py ''password'', JStr p)]))])])\<rparr>, s)
      else (server_error_response, s))"
proof -
  have "body_strs [py ''username'', py ''password''] (Some (JObj [(py ''password'', JStr p)]))
        = Inl [Missing [py ''body'', py ''username''] (JObj [(py ''password'', JStr p)])]"
    by (simp add: last_value_def py_def)
  then show ?thesis unfolding asgi_app_post_json inner_app_register
    by (simp add: validation_response_def json_response_eq verr_entry_def
                  last_value_def py_def is_surrogate_def split: sum.split)
qed

text \<open>
  C31: on a well-formed file, \<open>GET /users\<close> gets the 200 reply whose body is the JSON list
  of the stored usernames, each exactly once, in the engine's order, and changes nothing.
\<close>

theorem http_get_users:
  assumes "wf_db (dbfile s)" "engine_ok eng"
  shows "\<exists>us xs. users_tbl (dbfile s) = Some us \<and> mset xs = mset (map username us)
    \<and> asgi_app eng now (get_req (py ''/users'') q) s =
       (\<lparr>status = 200, resp_headers = [], rbody = JsonBody (JList (map JStr xs))\<rparr>, s)"
proof -
  obtain us xs where us: "users_tbl (dbfile s) = Some us" "get_users eng s = (Inr xs, s)"
    "mset xs = mset (map username us)" "list_all encodable xs"
    using get_users_wf [OF assms] by blast
  have "json_response 200 (JList (map JStr xs)) =
          Inr \<lparr>status = 200, resp_headers = [], rbody = JsonBody (JList (map JStr xs))\<rparr>"
    using us(4) by (simp add: json_response_Inr list_all_iff)
  then have "asgi_app eng now (get_req (py ''/users'') q) s =
       (\<lparr>status = 200, resp_headers = [], rbody = JsonBody (JList (map JStr xs))\<rparr>, s)"
    using us(2) by (simp add: asgi_app_get_req inner_app_users to_response_def)
  with us(1,3) show ?thesis by blast
qed

theorem http_get_users_witness:
  "\<exists>us xs. users_tbl (dbfile initial_server) = Some us \<and> mset xs = mset (map username us)
    \<and> asgi_app sqlite_engine (py ''t'') (get_req (py ''/users'') []) initial_server =
       (\<lparr>status = 200, resp_headers = [], rbody = JsonBody (JList (map JStr xs))\<rparr>, initial_server)"
  by (rule http_get_users [OF initial_server_wf sqlite_engine_ok])

text \<open>
  C32: \<open>GET /messages?user1=a&user2=b\<close> on a well-formed file gets the 200 reply whose body
  lists the messages between the two users in either direction, each as often as it is
  stored and ordered by timestamp, every one rendered as the object \<open>{"id", "sender",
  "receiver", "text", "timestamp"}\<close> with the row's values in that order; nothing changes.
\<close>

theorem http_get_messages:
  assumes "wf_db (dbfile s)" "engine_ok eng" "msgs_tbl (dbfile s) = Some ms"
    and "list_all (\<lambda>m. encodable (timestamp m)) ms" "encodable u1" "encodable u2"
  shows "\<exists>out. mset out = mset (filter (between u1 u2) ms) \<and> sorted (map timestamp out)
    \<and> asgi_app eng now (get_req (py ''/messages'') [(py ''user1'', u1), (py ''user2'', u2)]) s =
       (\<lparr>status = 200, resp_headers = [], rbody = JsonBody (JList (map (\<lambda>m. JObj
           [(py ''id'', JInt (msg_id m)), (py ''sender'', JStr (sender m)),
            (py ''receiver'', JStr (receiver m)), (py ''text'', JStr (msg_text m)),
            (py ''timestamp'', JStr (timestamp m))]) out))\<rparr>, s)"
proof -
  obtain out where out: "get_messages eng u1 u2 s = (Inr out, s)"
    "mset out = mset (filter (between u1 u2) ms)" "sorted (map timestamp out)"
    using get_messages_result [OF assms(2,3,5,6)] by blast
  have "set out \<subseteq> set ms" using out(2) by (metis filter_is_subset set_mset_mset)
  then have "list_all encodable (json_strs (JList (map message_json out)))"
    using message_list_encodable wf_db_msgs [OF assms(1,3)] assms(4) by blast
  then have r: "json_response 200 (JList (map message_json out)) =
          Inr \<lparr>status = 200, resp_headers = [], rbody = JsonBody (JList (map message_json out))\<rparr>"
    by (simp add: json_response_Inr list_all_iff)
  have q: "query_strs [py ''user1'', py ''user2''] [(py ''user1'', u1), (py ''user2'', u2)] = Inr [u1, u2]"
    by (rule query_strs_pair) (simp add: py_def)
  have "asgi_app eng now (get_req (py ''/messages'') [(py ''user1'', u1), (py ''user2'', u2)]) s =
       (\<lparr>status = 200, resp_headers = [], rbody = JsonBody (JList (map message_json out))\<rparr>, s)"
    using out(1) r q by (simp add: asgi_app_get_req inner_app_messages to_response_def)
  with out(2,3) have "mset out = mset (filter (between u1 u2) ms) \<and> sorted (map timestamp out)
    \<and> asgi_app eng now (get_req (py ''/messages'') [(py ''user1'', u1), (py ''user2'', u2)]) s =
       (\<lparr>status = 200, resp_headers = [], rbody = JsonBody (JList (map (\<lambda>m. JObj
           [(py ''id'', JInt (msg_id m)), (py ''sender'', JStr (sender m)),
            (py ''receiver'', JStr (receiver m)), (py ''text'', JStr (msg_text m)),
            (py ''timestamp'', JStr (timestamp m))]) out))\<rparr>, s)"
    unfolding message_json_def [abs_def] by simp
  then show ?thesis by (rule exI)
qed

theorem http_get_messages_witness:
  "\<exists>out. mset out = mset (filter (between (py ''alice'') (py ''bob''))
        [\<lparr>msg_id = 1, sender = py ''alice'', receiver = py ''bob'', msg_text = py ''hi'', timestamp = py ''1''\<rparr>])
     \<and> sorted (map timestamp out)
     \<and> asgi_app sqlite_engine (py ''t'') (get_req (py ''/messages'') [(py ''user1'', py ''alice''), (py ''user2'', py ''bob'')])
         \<lparr>dbfile = \<lparr>users_tbl = Some [], msgs_tbl = Some
           [\<lparr>msg_id = 1, sender = py ''alice'', receiver = py ''bob'', msg_text = py ''hi'', timestamp = py ''1''\<rparr>],
           msg_seq = 1\<rparr>, open_conns = 0\<rparr> =
       (\<lparr>status = 200, resp_headers = [], rbody = JsonBody (JList (map (\<lambda>m. JObj
           [(py ''id'', JInt (msg_id m)), (py ''sender'', JStr (sender m)),
            (py ''receiver'', JStr (receiver m)), (py ''text'', JStr (msg_text m)),
            (py ''timestamp'', JStr (timestamp m))]) out))\<rparr>,
        \<lparr>dbfile = \<lparr>users_tbl = Some [], msgs_tbl = Some
           [\<lparr>msg_id = 1, sender = py ''alice'', receiver = py ''bob'', msg_text = py ''hi'', timestamp = py ''1''\<rparr>],
           msg_seq = 1\<rparr>, open_conns = 0\<rparr>)"
  by (rule http_get_messages [OF _ sqlite_engine_ok])
     (simp_all add: wf_db_def wf_users_def wf_msgs_def max_rowid_def py_def encodable_iff is_surrogate_def)

end
