(* ===== verification/Concurrency.thy ===== *)
theory Concurrency
  imports Service
begin

text \<open>
  Requests served concurrently. FastAPI runs each synchronous endpoint in a worker
  thread, so requests overlap; but each handler executes a single SQL statement, and
  SQLite runs the statements on the file one at a time (each \<open>INSERT\<close> in its own
  transaction, committed before the connection is closed). A run of the service is
  therefore a sequence of whole requests served in the order their statements reach the
  file, chosen freely among the requests in flight. \<open>sys\<close> is the process with its queue
  of pending requests and the log of replies sent; \<open>sys_step\<close> lets a request arrive, or
  serves any pending one at any clock value; \<open>reachable\<close> are the states a run from
  start-up reaches. The lemmas show what one step does to the two tables; the claims are
  invariants of the reachable states by rule induction (the users table against the log
  of successful registrations, names and password digests), the spec's promise about
  concurrent registrations, that a registered user can log in with the password it
  registered, and that stored rows persist.
\<close>

section \<open>Which requests reach which handler\<close>

text \<open>
  A CORS preflight is answered by the middleware; any other request reaches the endpoint
  its route matches, if any. \<open>registered_by\<close> reads off the log which name a reply
  registered: a 200 to a \<open>POST /register\<close> whose body names the user;
  \<open>registered_cred\<close> reads the name with the password the body sent.
\<close>

definition is_preflight :: "http_request \<Rightarrow> bool" where
  "is_preflight req \<longleftrightarrow> header (py ''origin'') (req_headers req) \<noteq> None \<and> req_method req = py ''OPTIONS''
     \<and> header (py ''access-control-request-method'') (req_headers req) \<noteq> None"

definition served_by :: "http_request \<Rightarrow> endpoint option" where
  "served_by req =
     (if is_preflight req then None
      else case match_route (req_method req) (req_path req) of Full e \<Rightarrow> Some e | _ \<Rightarrow> None)"

definition registered_by :: "http_request \<Rightarrow> http_response \<Rightarrow> pystr option" where
  "registered_by req r =
     (if served_by req = Some Register \<and> status r = 200
      then (case body_strs [py ''username'', py ''password''] (req_body req) of
              Inr vs \<Rightarrow> Some (vs ! 0) | Inl _ \<Rightarrow> None)
      else None)"

definition registered_cred :: "http_request \<Rightarrow> http_response \<Rightarrow> (pystr \<times> pystr) option" where
  "registered_cred req r =
     (if served_by req = Some Register \<and> status r = 200
      then (case body_strs [py ''username'', py ''password''] (req_body req) of
              Inr vs \<Rightarrow> Some (vs ! 0, vs ! 1) | Inl _ \<Rightarrow> None)
      else None)"

section \<open>The system of requests in flight\<close>

text \<open>The clock \<open>CURRENT_TIMESTAMP\<close> reads: SQLite's text \<open>YYYY-MM-DD HH:MM:SS\<close>, ASCII.\<close>

definition clock_ok :: "pystr \<Rightarrow> bool" where
  "clock_ok now \<longleftrightarrow> list_all (\<lambda>c. c < 0x80) now"

record sys =
  srv :: server
  pending :: "(nat \<times> http_request) list"
  replies :: "(nat \<times> http_request \<times> http_response) list"

inductive sys_step :: "engine \<Rightarrow> sys \<Rightarrow> sys \<Rightarrow> bool" for eng where
  arrive: "sys_step eng st (st\<lparr>pending := pending st @ [(k, req)]\<rparr>)"
| serve: "pending st = xs @ (k, req) # ys \<Longrightarrow> clock_ok now \<Longrightarrow>
          asgi_app eng now req (srv st) = (r, s') \<Longrightarrow>
          sys_step eng st \<lparr>srv = s', pending = xs @ ys, replies = replies st @ [(k, req, r)]\<rparr>"

definition sys0 :: sys where
  "sys0 = \<lparr>srv = initial_server, pending = [], replies = []\<rparr>"

inductive reachable :: "engine \<Rightarrow> sys \<Rightarrow> bool" for eng where
  start: "reachable eng sys0"
| step: "reachable eng st \<Longrightarrow> sys_step eng st st' \<Longrightarrow> reachable eng st'"

text \<open>The request a client sends to register \<open>u\<close> with password \<open>p\<close>.\<close>

definition register_request :: "pystr \<Rightarrow> pystr \<Rightarrow> http_request" where
  "register_request u p = post_json (py ''/register'') [(py ''username'', JStr u), (py ''password'', JStr p)]"

text \<open>
  The names the log records as registered, in order; the invariant \<open>sys_inv\<close> ties them
  to the users table, and \<open>reg_replies_ok\<close> says every registration with encodable
  strings was answered 200 or 400.
\<close>

definition registrations :: "(nat \<times> http_request \<times> http_response) list \<Rightarrow> pystr list" where
  "registrations log =
     concat (map (\<lambda>(k, req, r). case registered_by req r of None \<Rightarrow> [] | Some u \<Rightarrow> [u]) log)"

definition reg_creds :: "(nat \<times> http_request \<times> http_response) list \<Rightarrow> (pystr \<times> pystr) list" where
  "reg_creds log =
     concat (map (\<lambda>(k, req, r). case registered_cred req r of None \<Rightarrow> [] | Some c \<Rightarrow> [c]) log)"

definition stores_cred :: "user_row \<Rightarrow> pystr \<times> pystr \<Rightarrow> bool" where
  "stores_cred row c \<longleftrightarrow> username row = fst c \<and> hash_password (snd c) = Inr (password_hash row)"

definition creds_inv :: "sys \<Rightarrow> bool" where
  "creds_inv st \<longleftrightarrow>
     (\<exists>us. users_tbl (dbfile (srv st)) = Some us \<and> list_all2 stores_cred us (reg_creds (replies st)))"

definition sys_inv :: "sys \<Rightarrow> bool" where
  "sys_inv st \<longleftrightarrow> wf_db (dbfile (srv st))
     \<and> (\<exists>us ms. users_tbl (dbfile (srv st)) = Some us \<and> msgs_tbl (dbfile (srv st)) = Some ms
          \<and> map username us = registrations (replies st) \<and> list_all (\<lambda>m. clock_ok (timestamp m)) ms)"

definition reg_replies_ok :: "sys \<Rightarrow> bool" where
  "reg_replies_ok st \<longleftrightarrow>
     list_all (\<lambda>(k, req, r). \<forall>u p. req = register_request u p \<and> encodable u \<and> encodable p
                                   \<longrightarrow> status r \<in> {200, 400}) (replies st)"

text \<open>Two clients register the name \<open>alice\<close> at the same time, with different passwords.\<close>

definition two_registrations :: sys where
  "two_registrations =
     \<lparr>srv = initial_server,
      pending = [(1, register_request (py ''alice'') (py ''pw1'')), (2, register_request (py ''alice'') (py ''pw2''))],
      replies = []\<rparr>"

text \<open>Serving the \<open>i\<close>-th pending request at clock \<open>now\<close>, as a function.\<close>

definition serve_at :: "engine \<Rightarrow> pystr \<Rightarrow> nat \<Rightarrow> sys \<Rightarrow> sys" where
  "serve_at eng now i st =
     (let (k, req) = pending st ! i; (r, s') = asgi_app eng now req (srv st)
      in \<lparr>srv = s', pending = take i (pending st) @ drop (Suc i) (pending st),
          replies = replies st @ [(k, req, r)]\<rparr>)"

section \<open>One request: what it does to the tables\<close>

lemma cors_middleware_state:
  "snd (cors_middleware c app req s) = (if is_preflight req then s else snd (app req s))"
  by (auto simp: cors_middleware_def is_preflight_def simple_response_def split: option.splits sum.splits prod.splits)

lemma cors_middleware_result:
  "\<not> is_preflight req \<Longrightarrow>
   map_sum id status (fst (cors_middleware c app req s)) = map_sum id status (fst (app req s))"
  by (auto simp: cors_middleware_def is_preflight_def simple_response_def split: option.splits sum.splits prod.splits)

lemma asgi_app_unserved: "served_by req = None \<Longrightarrow> snd (asgi_app eng now req s) = s"
  by (auto simp: served_by_def asgi_app_def cors_middleware_state inner_app_def
           split: if_splits route_match.splits prod.splits sum.splits
           dest: arg_cong [where f = snd])

lemma asgi_app_state:
  "snd (asgi_app eng now req s) = (case served_by req of None \<Rightarrow> s | Some e \<Rightarrow> snd (call_endpoint eng now e req s))"
  by (auto simp: served_by_def asgi_app_def cors_middleware_state inner_app_def
           split: if_splits route_match.splits prod.splits sum.splits option.splits
           dest: arg_cong [where f = snd])

lemma asgi_app_served_status:
  "served_by req = Some e \<Longrightarrow>
   status (fst (asgi_app eng now req s)) =
     (case fst (call_endpoint eng now e req s) of Inr r \<Rightarrow> status r | Inl _ \<Rightarrow> 500)"
  using cors_middleware_result [of req app_cors "inner_app eng now" s]
  by (auto simp: served_by_def asgi_app_def inner_app_def server_error_response_def
           split: if_splits route_match.splits prod.splits sum.splits)

lemma send_message_users: "users_tbl (dbfile (snd (send_message now m s))) = users_tbl (dbfile s)"
  by (auto simp: send_message_def insert_message_def ebind_def Let_def split: sum.splits)

lemma register_Inl_file: "fst (register u s) = Inl e \<Longrightarrow> dbfile (snd (register u s)) = dbfile s"
  by (auto simp: register_def Let_def split: sum.splits)

lemma call_endpoint_users:
  "users_tbl (dbfile (snd (call_endpoint eng now e req s))) =
     (if e = Register then (case body_strs [py ''username'', py ''password''] (req_body req) of
                              Inl _ \<Rightarrow> users_tbl (dbfile s)
                            | Inr vs \<Rightarrow> users_tbl (dbfile (snd (register \<lparr>uc_username = vs ! 0, uc_password = vs ! 1\<rparr> s))))
      else users_tbl (dbfile s))"
  using read_handlers_keep_file
  by (cases e) (auto simp: call_endpoint_def case_prod_beta send_message_users split: sum.splits)

lemma register_call_Inl:
  assumes "body_strs [py ''username'', py ''password''] (req_body req) = Inr vs"
    and "fst (register \<lparr>uc_username = vs ! 0, uc_password = vs ! 1\<rparr> s) = Inl e"
  shows "dbfile (snd (call_endpoint eng now Register req s)) = dbfile s
         \<and> (\<forall>r. fst (call_endpoint eng now Register req s) = Inr r \<longrightarrow> status r \<noteq> 200)"
  using assms register_Inl_file [OF assms(2)] register_http_exc [of "\<lparr>uc_username = vs ! 0, uc_password = vs ! 1\<rparr>" s]
  by (auto simp: call_endpoint_def case_prod_beta to_response_def http_error_def json_response_Inr
           split: exc.splits)

lemma register_call_Inr:
  assumes "body_strs [py ''username'', py ''password''] (req_body req) = Inr vs"
    and "fst (register \<lparr>uc_username = vs ! 0, uc_password = vs ! 1\<rparr> s) = Inr x"
  shows "\<exists>us h. users_tbl (dbfile s) = Some us \<and> hash_password (vs ! 1) = Inr h
           \<and> users_tbl (dbfile (snd (call_endpoint eng now Register req s)))
               = Some (us @ [\<lparr>username = vs ! 0, password_hash = h\<rparr>])
           \<and> (\<exists>r. fst (call_endpoint eng now Register req s) = Inr r \<and> status r = 200)"
proof -
  obtain s' where r: "register \<lparr>uc_username = vs ! 0, uc_password = vs ! 1\<rparr> s = (Inr x, s')"
    using assms(2) by (metis prod.collapse)
  then obtain us h where us: "users_tbl (dbfile s) = Some us" and h: "hash_password (vs ! 1) = Inr h"
    and s': "s' = s\<lparr>dbfile := (dbfile s)\<lparr>users_tbl := Some (us @ [\<lparr>username = vs ! 0, password_hash = h\<rparr>])\<rparr>\<rparr>"
    using register_Inr by fastforce
  have "x = reply_message (py ''User registered'')"
    using r by (auto simp: register_def Let_def split: sum.splits)
  with assms(1) r us h s' show ?thesis
    by (simp add: call_endpoint_def to_response_def reply_json_def reply_message_def json_response_ascii py_def)
qed

lemma registered_by_cred: "registered_by req r = map_option fst (registered_cred req r)"
  by (simp add: registered_by_def registered_cred_def split: sum.split)

lemma asgi_app_registers_cred:
  assumes "users_tbl (dbfile s) = Some us" "asgi_app eng now req s = (r, s')"
  shows "\<exists>new. users_tbl (dbfile s') = Some (us @ new)
           \<and> list_all2 stores_cred new (case registered_cred req r of None \<Rightarrow> [] | Some c \<Rightarrow> [c])"
proof (cases "served_by req")
  case None
  then have "s' = s" using asgi_app_unserved [OF None, of eng now s] assms(2) by simp
  with None assms(1) show ?thesis by (simp add: registered_cred_def)
next
  case (Some e)
  have st: "s' = snd (call_endpoint eng now e req s)"
    using asgi_app_state [of eng now req s] Some assms(2) by simp
  have stat: "status r = (case fst (call_endpoint eng now e req s) of Inr r \<Rightarrow> status r | Inl _ \<Rightarrow> 500)"
    using asgi_app_served_status [OF Some, of eng now s] assms(2) by simp
  show ?thesis
  proof (cases "e = Register")
    case False
    with st Some assms(1) show ?thesis by (simp add: call_endpoint_users registered_cred_def)
  next
    case True
    show ?thesis
    proof (cases "body_strs [py ''username'', py ''password''] (req_body req)")
      case (Inl es)
      with st True assms(1) show ?thesis by (simp add: call_endpoint_users registered_cred_def)
    next
      case (Inr vs)
      show ?thesis
      proof (cases "fst (register \<lparr>uc_username = vs ! 0, uc_password = vs ! 1\<rparr> s)")
        case (Inl e')
        from register_call_Inl [OF Inr Inl, of eng now] st stat True assms(1)
        have "dbfile s' = dbfile s" "status r \<noteq> 200"
          by (auto split: sum.splits)
        with assms(1) show ?thesis by (simp add: registered_cred_def)
      next
        case (Inr x)
        from register_call_Inr [OF \<open>body_strs _ _ = Inr vs\<close> Inr, of eng now] st stat True assms(1) Some
          \<open>body_strs _ _ = Inr vs\<close>
        show ?thesis by (auto simp: registered_cred_def stores_cred_def)
      qed
    qed
  qed
qed

lemma asgi_app_registers:
  assumes "users_tbl (dbfile s) = Some us" "asgi_app eng now req s = (r, s')"
  shows "\<exists>new. users_tbl (dbfile s') = Some (us @ new)
           \<and> map username new = (case registered_by req r of None \<Rightarrow> [] | Some u \<Rightarrow> [u])"
proof -
  obtain new where n: "users_tbl (dbfile s') = Some (us @ new)"
    "list_all2 stores_cred new (case registered_cred req r of None \<Rightarrow> [] | Some c \<Rightarrow> [c])"
    using asgi_app_registers_cred [OF assms] by blast
  have "map username new = map fst (case registered_cred req r of None \<Rightarrow> [] | Some c \<Rightarrow> [c])"
    using n(2) by (induction rule: list_all2_induct) (simp_all add: stores_cred_def)
  with n(1) show ?thesis by (auto simp: registered_by_cred split: option.split)
qed

lemma send_message_msgs:
  assumes "msgs_tbl (dbfile s) = Some ms"
  shows "\<exists>new. msgs_tbl (dbfile (snd (send_message now m s))) = Some (ms @ new)
           \<and> list_all (\<lambda>r. timestamp r = now) new"
proof (cases "insert_message now (mc_sender m) (mc_receiver m) (mc_text m) (dbfile s)")
  case (Inl e)
  with assms show ?thesis by (simp add: send_message_def)
next
  case (Inr d)
  with assms show ?thesis
    by (auto simp: send_message_def insert_message_def Let_def split: if_splits)
qed

lemma call_endpoint_msgs:
  assumes "msgs_tbl (dbfile s) = Some ms"
  shows "\<exists>new. msgs_tbl (dbfile (snd (call_endpoint eng now e req s))) = Some (ms @ new)
           \<and> list_all (\<lambda>r. timestamp r = now) new"
proof -
  have reg: "msgs_tbl (dbfile (snd (register u s))) = msgs_tbl (dbfile s)" for u
    by (auto simp: register_def Let_def insert_user_def ebind_def split: sum.splits if_splits)
  show ?thesis
    using assms read_handlers_keep_file send_message_msgs [OF assms]
    by (cases e) (auto simp: call_endpoint_def case_prod_beta reg split: sum.splits)
qed

lemma call_endpoint_wf: "wf_db (dbfile s) \<Longrightarrow> wf_db (dbfile (snd (call_endpoint eng now e req s)))"
  using read_handlers_keep_file
  by (cases e) (auto simp: call_endpoint_def case_prod_beta register_wf send_message_wf split: sum.splits)

lemma asgi_app_wf: "wf_db (dbfile s) \<Longrightarrow> wf_db (dbfile (snd (asgi_app eng now req s)))"
  by (simp add: asgi_app_state call_endpoint_wf split: option.split)

lemma asgi_app_msgs:
  assumes "msgs_tbl (dbfile s) = Some ms"
  shows "\<exists>new. msgs_tbl (dbfile (snd (asgi_app eng now req s))) = Some (ms @ new)
           \<and> list_all (\<lambda>r. timestamp r = now) new"
  using call_endpoint_msgs [OF assms] assms by (auto simp: asgi_app_state split: option.split)

section \<open>Invariants of the reachable states\<close>

lemma registrations_append [simp]:
  "registrations (log @ [(k, req, r)]) =
     registrations log @ (case registered_by req r of None \<Rightarrow> [] | Some u \<Rightarrow> [u])"
  by (simp add: registrations_def)

lemma sys_inv_sys0: "sys_inv sys0"
  using initial_server_wf by (simp add: sys_inv_def sys0_def initial_server_eq registrations_def)

lemma sys_step_inv: "sys_step eng st st' \<Longrightarrow> sys_inv st \<Longrightarrow> sys_inv st'"
proof (induction rule: sys_step.induct)
  case (arrive st k req)
  then show ?case by (simp add: sys_inv_def)
next
  case (serve st xs k req ys now r s')
  from serve.prems obtain us ms where us: "users_tbl (dbfile (srv st)) = Some us"
      and ms: "msgs_tbl (dbfile (srv st)) = Some ms"
      and reg: "map username us = registrations (replies st)"
      and ts: "list_all (\<lambda>m. clock_ok (timestamp m)) ms" and wf: "wf_db (dbfile (srv st))"
    by (auto simp: sys_inv_def)
  obtain newu where us': "users_tbl (dbfile s') = Some (us @ newu)"
      "map username newu = (case registered_by req r of None \<Rightarrow> [] | Some u \<Rightarrow> [u])"
    using asgi_app_registers [OF us serve.hyps(3)] by blast
  obtain new where new: "msgs_tbl (dbfile s') = Some (ms @ new)" "list_all (\<lambda>m. timestamp m = now) new"
    using asgi_app_msgs [OF ms, of eng now req] serve.hyps(3) by auto
  have "wf_db (dbfile s')" using asgi_app_wf [OF wf, of eng now req] serve.hyps(3) by simp
  with us' new reg ts serve.hyps(2) show ?case
    by (auto simp: sys_inv_def list_all_iff)
qed

lemma reachable_inv: "reachable eng st \<Longrightarrow> sys_inv st"
  by (induction rule: reachable.induct) (auto intro: sys_inv_sys0 sys_step_inv)

lemma reg_creds_append [simp]:
  "reg_creds (log @ [(k, req, r)]) =
     reg_creds log @ (case registered_cred req r of None \<Rightarrow> [] | Some c \<Rightarrow> [c])"
  by (simp add: reg_creds_def)

lemma creds_inv_sys0: "creds_inv sys0"
  by (simp add: creds_inv_def sys0_def initial_server_eq reg_creds_def)

lemma sys_step_creds_inv: "sys_step eng st st' \<Longrightarrow> creds_inv st \<Longrightarrow> creds_inv st'"
proof (induction rule: sys_step.induct)
  case (arrive st k req)
  then show ?case by (simp add: creds_inv_def)
next
  case (serve st xs k req ys now r s')
  from serve.prems obtain us where us: "users_tbl (dbfile (srv st)) = Some us"
      and c: "list_all2 stores_cred us (reg_creds (replies st))"
    by (auto simp: creds_inv_def)
  obtain new where "users_tbl (dbfile s') = Some (us @ new)"
      "list_all2 stores_cred new (case registered_cred req r of None \<Rightarrow> [] | Some c \<Rightarrow> [c])"
    using asgi_app_registers_cred [OF us serve.hyps(3)] by blast
  with c show ?case by (simp add: creds_inv_def list_all2_appendI)
qed

lemma reachable_creds_inv: "reachable eng st \<Longrightarrow> creds_inv st"
  by (induction rule: reachable.induct) (auto intro: creds_inv_sys0 sys_step_creds_inv)

section \<open>Runs\<close>

lemma serve_at_step:
  assumes "i < length (pending st)" "clock_ok now"
  shows "sys_step eng st (serve_at eng now i st)"
proof -
  obtain k req where kr: "pending st ! i = (k, req)" by fastforce
  have "pending st = take i (pending st) @ (k, req) # drop (Suc i) (pending st)"
    using id_take_nth_drop [OF assms(1)] kr by simp
  from sys_step.serve [OF this assms(2), of eng "fst (asgi_app eng now req (srv st))"
                        "snd (asgi_app eng now req (srv st))"]
  show ?thesis by (simp add: serve_at_def kr case_prod_beta)
qed

lemma serve_at_fields:
  "pending (serve_at eng now i st) = take i (pending st) @ drop (Suc i) (pending st)"
  "replies (serve_at eng now i st) = replies st @
     [(fst (pending st ! i), snd (pending st ! i), fst (asgi_app eng now (snd (pending st ! i)) (srv st)))]"
  by (simp_all add: serve_at_def case_prod_beta)

lemma reachable_run: "(sys_step eng)\<^sup>*\<^sup>* st st' \<Longrightarrow> reachable eng st \<Longrightarrow> reachable eng st'"
  by (induction rule: rtranclp_induct) (auto intro: reachable.step)

lemma sys_inv_distinct: "sys_inv st \<Longrightarrow> distinct (registrations (replies st))"
proof -
  assume "sys_inv st"
  then obtain us where "users_tbl (dbfile (srv st)) = Some us"
      "map username us = registrations (replies st)" "wf_db (dbfile (srv st))"
    by (auto simp: sys_inv_def)
  then show ?thesis using wf_db_users by (metis wf_users_def)
qed

section \<open>Registrations\<close>

lemma served_by_register_request: "served_by (register_request u p) = Some Register"
  by (simp add: served_by_def is_preflight_def register_request_def post_json_def header_def
                match_route_def routes_def py_def)

lemma body_register_request:
  "body_strs [py ''username'', py ''password''] (req_body (register_request u p)) = Inr [u, p]"
  by (simp add: register_request_def post_json_def last_value_def py_def)

lemma register_request_status:
  assumes "users_tbl (dbfile s) = Some us" "encodable u" "encodable p"
  shows "status (fst (asgi_app eng now (register_request u p) s))
           = (if u \<in> set (map username us) then 400 else 200)"
proof -
  obtain h where h: "hash_password p = Inr h"
    using hash_password_ok assms(3) by (auto simp: encodable_iff)
  show ?thesis
  proof (cases "u \<in> set (map username us)")
    case True
    then have "register \<lparr>uc_username = u, uc_password = p\<rparr> s = (Inl conflict, s)"
      using register_dup [of s us "\<lparr>uc_username = u, uc_password = p\<rparr>" h] assms(1,2) h by simp
    with True show ?thesis unfolding register_request_def asgi_app_register
      by (simp add: to_response_def conflict_def http_error_def json_response_ascii py_def)
  next
    case False
    then obtain s' where "register \<lparr>uc_username = u, uc_password = p\<rparr> s =
        (Inr (reply_message (py ''User registered'')), s')"
      using register_new [of s us "\<lparr>uc_username = u, uc_password = p\<rparr>" h] assms(1,2) h by simp
    with False show ?thesis unfolding register_request_def asgi_app_register
      by (simp add: to_response_def reply_json_def reply_message_def json_response_ascii py_def)
  qed
qed

lemma registered_cred_register_request:
  "registered_cred (register_request u p) r = (if status r = 200 then Some (u, p) else None)"
  by (simp add: registered_cred_def served_by_register_request body_register_request)

lemma registered_by_register_request:
  "registered_by (register_request u p) r = (if status r = 200 then Some u else None)"
  by (simp add: registered_by_def served_by_register_request body_register_request)

lemma sys_step_reg_replies: "sys_step eng st st' \<Longrightarrow> sys_inv st \<Longrightarrow> reg_replies_ok st \<Longrightarrow> reg_replies_ok st'"
proof (induction rule: sys_step.induct)
  case (arrive st k req)
  then show ?case by (simp add: reg_replies_ok_def)
next
  case (serve st xs k req ys now r s')
  obtain us where "users_tbl (dbfile (srv st)) = Some us" using serve.prems(1) by (auto simp: sys_inv_def)
  then have "status r \<in> {200, 400}" if "req = register_request u p" "encodable u" "encodable p" for u p
    using register_request_status [of "srv st" us u p eng now] serve.hyps(3) that by simp
  with serve.prems(2) show ?case by (auto simp: reg_replies_ok_def)
qed

lemma reachable_reg_replies: "reachable eng st \<Longrightarrow> reg_replies_ok st"
proof (induction rule: reachable.induct)
  case start
  then show ?case by (simp add: reg_replies_ok_def sys0_def)
next
  case (step st st')
  then show ?case using sys_step_reg_replies reachable_inv by blast
qed

lemma pending_registration_served:
  assumes "sys_step eng st st'" "sys_inv st" "encodable u" "encodable p"
    and "(k, register_request u p) \<in> set (pending st) \<or> u \<in> set (registrations (replies st))"
  shows "(k, register_request u p) \<in> set (pending st') \<or> u \<in> set (registrations (replies st'))"
  using assms
proof (induction rule: sys_step.induct)
  case (arrive st k' req)
  then show ?case by auto
next
  case (serve st xs k' req ys now r s')
  show ?case
  proof (cases "(k, register_request u p) \<in> set (xs @ ys) \<or> u \<in> set (registrations (replies st))")
    case True
    then show ?thesis by auto
  next
    case False
    with serve.prems(4) serve.hyps(1) have req: "(k', req) = (k, register_request u p)" by auto
    obtain us where us: "users_tbl (dbfile (srv st)) = Some us" "map username us = registrations (replies st)"
      using serve.prems(1) by (auto simp: sys_inv_def)
    with False have "u \<notin> set (map username us)" by simp
    then have "status r = 200"
      using register_request_status [OF us(1) serve.prems(2,3), of eng now] serve.hyps(3) req by simp
    then show ?thesis using req by (simp add: registered_by_register_request)
  qed
qed

section \<open>Claims about concurrent requests\<close>

lemma reachable_two_registrations: "reachable eng two_registrations"
proof -
  have "reachable eng (sys0\<lparr>pending := pending sys0 @ [(1, register_request (py ''alice'') (py ''pw1''))]\<rparr>)"
    by (rule reachable.step [OF reachable.start sys_step.arrive])
  then have "reachable eng ((sys0\<lparr>pending := pending sys0 @ [(1, register_request (py ''alice'') (py ''pw1''))]\<rparr>)
               \<lparr>pending := pending (sys0\<lparr>pending := pending sys0 @ [(1, register_request (py ''alice'') (py ''pw1''))]\<rparr>)
                  @ [(2, register_request (py ''alice'') (py ''pw2''))]\<rparr>)"
    by (rule reachable.step [OF _ sys_step.arrive])
  then show ?thesis by (simp add: two_registrations_def sys0_def)
qed

lemma serve_first_twice:
  assumes "clock_ok now" "length (pending st) = 2"
  shows "(sys_step eng)\<^sup>*\<^sup>* st (serve_at eng now 0 (serve_at eng now 0 st))
         \<and> pending (serve_at eng now 0 (serve_at eng now 0 st)) = []"
proof -
  have "sys_step eng st (serve_at eng now 0 st)" using serve_at_step [of 0 st now eng] assms by simp
  moreover have "sys_step eng (serve_at eng now 0 st) (serve_at eng now 0 (serve_at eng now 0 st))"
    using serve_at_step [of 0 "serve_at eng now 0 st" now eng] assms by (simp add: serve_at_fields)
  ultimately show ?thesis using assms(2) by (simp add: serve_at_fields)
qed

lemma login_registered:
  assumes "sys_inv st" "creds_inv st" "engine_ok eng" "(u, p) \<in> set (reg_creds (replies st))"
  shows "login eng \<lparr>ul_username = u, ul_password = p\<rparr> (srv st)
           = (Inr (reply_message (py ''Login successful'')), srv st)"
proof -
  obtain us where us: "users_tbl (dbfile (srv st)) = Some us" and c: "list_all2 stores_cred us (reg_creds (replies st))"
    using assms(2) by (auto simp: creds_inv_def)
  have wf: "wf_db (dbfile (srv st))" using assms(1) by (simp add: sys_inv_def)
  obtain i where i: "i < length (reg_creds (replies st))" "reg_creds (replies st) ! i = (u, p)"
    using assms(4) by (metis in_set_conv_nth)
  have ii: "i < length us" and si: "stores_cred (us ! i) (u, p)"
    using list_all2_nthD2 [OF c i(1)] list_all2_lengthD [OF c] i by simp_all
  have "us ! i = \<lparr>username = u, password_hash = password_hash (us ! i)\<rparr>"
    using si by (cases "us ! i") (simp add: stores_cred_def)
  then have row: "\<lparr>username = u, password_hash = password_hash (us ! i)\<rparr> \<in> set us"
    using nth_mem [OF ii] by metis
  have h: "hash_password p = Inr (password_hash (us ! i))" using si by (simp add: stores_cred_def)
  have "encodable u" using wf_db_users [OF wf us] row by (auto simp: wf_users_def list_all_iff)
  from login_row [OF wf us assms(3), of "\<lparr>ul_username = u, ul_password = p\<rparr>"] row h this
  show ?thesis by simp
qed

lemma serve_first:
  assumes "clock_ok now" "pending st \<noteq> []"
  shows "(sys_step eng)\<^sup>*\<^sup>* st (serve_at eng now 0 st)"
  using serve_at_step [of 0 st now eng] assms by simp

lemma clock_ok_example: "clock_ok (py ''2024-01-01 10:00:00'')"
  by (simp add: clock_ok_def py_def)

text \<open>
  C27: in every state reachable from start-up by any interleaving of requests, the file
  is well formed, and the users table holds, in order, exactly the names of the
  registrations the log records as successful (200 to \<open>POST /register\<close>).
\<close>

theorem reachable_state_invariant:
  assumes "reachable eng st"
  shows "wf_db (dbfile (srv st))
    \<and> (\<exists>us. users_tbl (dbfile (srv st)) = Some us \<and> map username us = registrations (replies st))"
  using reachable_inv [OF assms] by (auto simp: sys_inv_def)

theorem reachable_state_invariant_witness:
  "wf_db (dbfile (srv (serve_at sqlite_engine (py ''2024-01-01 10:00:00'') 0
            (serve_at sqlite_engine (py ''2024-01-01 10:00:00'') 0 two_registrations))))
   \<and> (\<exists>us. users_tbl (dbfile (srv (serve_at sqlite_engine (py ''2024-01-01 10:00:00'') 0
            (serve_at sqlite_engine (py ''2024-01-01 10:00:00'') 0 two_registrations)))) = Some us
        \<and> map username us = registrations (replies (serve_at sqlite_engine (py ''2024-01-01 10:00:00'') 0
            (serve_at sqlite_engine (py ''2024-01-01 10:00:00'') 0 two_registrations))))"
proof -
  have "(sys_step sqlite_engine)\<^sup>*\<^sup>* two_registrations
          (serve_at sqlite_engine (py ''2024-01-01 10:00:00'') 0
            (serve_at sqlite_engine (py ''2024-01-01 10:00:00'') 0 two_registrations))"
    using serve_first_twice [OF clock_ok_example] by (simp add: two_registrations_def)
  then show ?thesis
    using reachable_state_invariant [OF reachable_run [OF _ reachable_two_registrations]] by blast
qed

text \<open>
  C28: concurrent registrations of one name. If a registration of \<open>u\<close> with an encodable
  password is pending, then once the queue has drained, whatever the interleaving with
  any other requests, the log holds exactly one successful registration of \<open>u\<close>, and every
  registration of \<open>u\<close> with an encodable password was answered 200 or 400: the losers see
  the conflict, not a crash.
\<close>

theorem concurrent_registration_one_winner:
  assumes "reachable eng st" "(sys_step eng)\<^sup>*\<^sup>* st st'" "pending st' = []"
    and "(k, register_request u p) \<in> set (pending st)" "encodable u" "encodable p"
  shows "count_list (registrations (replies st')) u = 1
    \<and> list_all (\<lambda>(k, req, r). \<forall>p'. req = register_request u p' \<and> encodable p' \<longrightarrow> status r \<in> {200, 400})
               (replies st')"
proof -
  have "reachable eng st' \<and> ((k, register_request u p) \<in> set (pending st') \<or> u \<in> set (registrations (replies st')))"
    using assms(2)
  proof (induction rule: rtranclp_induct)
    case base
    then show ?case using assms(1,4) by simp
  next
    case (step st1 st2)
    then show ?case
      using pending_registration_served [OF step.hyps(2) reachable_inv assms(5,6)] reachable.step by blast
  qed
  with assms(3) have r: "reachable eng st'" and u: "u \<in> set (registrations (replies st'))" by auto
  have "distinct (registrations (replies st'))" using sys_inv_distinct [OF reachable_inv [OF r]] .
  with u have "count_list (registrations (replies st')) u = 1"
    by (metis count_mset distinct_count_atmost_1)
  moreover have "reg_replies_ok st'" using reachable_reg_replies [OF r] .
  ultimately show ?thesis using assms(5) by (auto simp: reg_replies_ok_def list_all_iff)
qed

theorem concurrent_registration_one_winner_witness:
  "count_list (registrations (replies (serve_at sqlite_engine (py ''2024-01-01 10:00:00'') 0
            (serve_at sqlite_engine (py ''2024-01-01 10:00:00'') 0 two_registrations)))) (py ''alice'') = 1
   \<and> list_all (\<lambda>(k, req, r). \<forall>p'. req = register_request (py ''alice'') p' \<and> encodable p'
                                    \<longrightarrow> status r \<in> {200, 400})
       (replies (serve_at sqlite_engine (py ''2024-01-01 10:00:00'') 0
            (serve_at sqlite_engine (py ''2024-01-01 10:00:00'') 0 two_registrations)))"
proof -
  have run: "(sys_step sqlite_engine)\<^sup>*\<^sup>* two_registrations
          (serve_at sqlite_engine (py ''2024-01-01 10:00:00'') 0
            (serve_at sqlite_engine (py ''2024-01-01 10:00:00'') 0 two_registrations))"
    and fin: "pending (serve_at sqlite_engine (py ''2024-01-01 10:00:00'') 0
            (serve_at sqlite_engine (py ''2024-01-01 10:00:00'') 0 two_registrations)) = []"
    using serve_first_twice [OF clock_ok_example] by (simp_all add: two_registrations_def)
  have "(1, register_request (py ''alice'') (py ''pw1'')) \<in> set (pending two_registrations)"
    by (simp add: two_registrations_def)
  from concurrent_registration_one_winner [OF reachable_two_registrations run fin this]
  show ?thesis by (simp add: py_def is_surrogate_def)
qed

lemma sys_step_tables:
  assumes "sys_step eng st st'" "sys_inv st"
  shows "\<exists>us ms nu nm. users_tbl (dbfile (srv st)) = Some us \<and> msgs_tbl (dbfile (srv st)) = Some ms
           \<and> users_tbl (dbfile (srv st')) = Some (us @ nu) \<and> msgs_tbl (dbfile (srv st')) = Some (ms @ nm)"
  using assms
proof (induction rule: sys_step.induct)
  case (arrive st k req)
  then show ?case by (fastforce simp: sys_inv_def)
next
  case (serve st xs k req ys now r s')
  obtain us ms where us: "users_tbl (dbfile (srv st)) = Some us" and ms: "msgs_tbl (dbfile (srv st)) = Some ms"
    using serve.prems by (auto simp: sys_inv_def)
  obtain nu where "users_tbl (dbfile s') = Some (us @ nu)"
    using asgi_app_registers [OF us serve.hyps(3)] by blast
  moreover obtain nm where "msgs_tbl (dbfile s') = Some (ms @ nm)"
    using asgi_app_msgs [OF ms, of eng now req] serve.hyps(3) by auto
  ultimately show ?case using us ms by auto
qed

text \<open>
  C29: stored rows are never changed or removed: along any run from a reachable state,
  the users table and the messages table only grow at their end (section 3 of the spec:
  users are never updated or deleted, messages are immutable).
\<close>

theorem stored_rows_persist:
  assumes "reachable eng st" "(sys_step eng)\<^sup>*\<^sup>* st st'"
  shows "\<exists>us ms nu nm. users_tbl (dbfile (srv st)) = Some us \<and> msgs_tbl (dbfile (srv st)) = Some ms
           \<and> users_tbl (dbfile (srv st')) = Some (us @ nu) \<and> msgs_tbl (dbfile (srv st')) = Some (ms @ nm)"
  using assms(2)
proof (induction rule: rtranclp_induct)
  case base
  then show ?case using reachable_inv [OF assms(1)] by (fastforce simp: sys_inv_def)
next
  case (step st1 st2)
  have "reachable eng st1" using reachable_run [OF step.hyps(1) assms(1)] .
  from sys_step_tables [OF step.hyps(2) reachable_inv [OF this]] step.IH show ?case by fastforce
qed

theorem stored_rows_persist_witness:
  "\<exists>us ms nu nm. users_tbl (dbfile (srv two_registrations)) = Some us
      \<and> msgs_tbl (dbfile (srv two_registrations)) = Some ms
      \<and> users_tbl (dbfile (srv (serve_at sqlite_engine (py ''2024-01-01 10:00:00'') 0
            (serve_at sqlite_engine (py ''2024-01-01 10:00:00'') 0 two_registrations)))) = Some (us @ nu)
      \<and> msgs_tbl (dbfile (srv (serve_at sqlite_engine (py ''2024-01-01 10:00:00'') 0
            (serve_at sqlite_engine (py ''2024-01-01 10:00:00'') 0 two_registrations)))) = Some (ms @ nm)"
proof -
  have "(sys_step sqlite_engine)\<^sup>*\<^sup>* two_registrations
          (serve_at sqlite_engine (py ''2024-01-01 10:00:00'') 0
            (serve_at sqlite_engine (py ''2024-01-01 10:00:00'') 0 two_registrations))"
    using serve_first_twice [OF clock_ok_example] by (simp add: two_registrations_def)
  then show ?thesis using stored_rows_persist [OF reachable_two_registrations] by blast
qed

text \<open>
  C33: in every reachable state, the users table holds one row per successful
  registration in the log, in order, and each row stores the name the registration sent
  with the SHA-256 hex digest of the password it sent (line 75: never the password).
\<close>

theorem stored_hash_invariant:
  assumes "reachable eng st"
  shows "\<exists>us. users_tbl (dbfile (srv st)) = Some us
    \<and> list_all2 (\<lambda>row (u, p). username row = u \<and> hash_password p = Inr (password_hash row))
                us (reg_creds (replies st))"
proof -
  obtain us where "users_tbl (dbfile (srv st)) = Some us" "list_all2 stores_cred us (reg_creds (replies st))"
    using reachable_creds_inv [OF assms] by (auto simp: creds_inv_def)
  then show ?thesis by (auto simp: stores_cred_def case_prod_beta elim!: list_all2_mono)
qed

theorem stored_hash_invariant_witness:
  "\<exists>us. users_tbl (dbfile (srv (serve_at sqlite_engine (py ''2024-01-01 10:00:00'') 0 two_registrations))) = Some us
    \<and> list_all2 (\<lambda>row (u, p). username row = u \<and> hash_password p = Inr (password_hash row))
        us (reg_creds (replies (serve_at sqlite_engine (py ''2024-01-01 10:00:00'') 0 two_registrations)))"
proof -
  have "(sys_step sqlite_engine)\<^sup>*\<^sup>* two_registrations
          (serve_at sqlite_engine (py ''2024-01-01 10:00:00'') 0 two_registrations)"
    using serve_first [OF clock_ok_example] by (simp add: two_registrations_def)
  then show ?thesis
    using stored_hash_invariant [OF reachable_run [OF _ reachable_two_registrations]] by blast
qed

text \<open>
  C34: whatever has happened before, a user whose registration the log records as
  successful can log in with the password it registered: \<open>POST /login\<close> with those
  credentials gets the 200 reply \<open>{"message": "Login successful"}\<close> and changes nothing.
\<close>

theorem login_after_registration:
  assumes "reachable eng st" "engine_ok eng" "(u, p) \<in> set (reg_creds (replies st))"
  shows "asgi_app eng now (post_json (py ''/login'') [(py ''username'', JStr u), (py ''password'', JStr p)]) (srv st)
     = (\<lparr>status = 200, resp_headers = [],
         rbody = JsonBody (JObj [(py ''message'', JStr (py ''Login successful''))])\<rparr>, srv st)"
proof -
  have "login eng \<lparr>ul_username = u, ul_password = p\<rparr> (srv st)
          = (Inr (reply_message (py ''Login successful'')), srv st)"
    using login_registered [OF reachable_inv [OF assms(1)] reachable_creds_inv [OF assms(1)] assms(2,3)] .
  then show ?thesis unfolding asgi_app_login
    by (simp add: to_response_def reply_json_def reply_message_def json_response_ascii py_def)
qed

theorem login_after_registration_witness:
  "asgi_app sqlite_engine (py ''2024-01-01 10:00:01'')
      (post_json (py ''/login'') [(py ''username'', JStr (py ''alice'')), (py ''password'', JStr (py ''pw1''))])
      (srv (serve_at sqlite_engine (py ''2024-01-01 10:00:00'') 0 two_registrations))
   = (\<lparr>status = 200, resp_headers = [],
       rbody = JsonBody (JObj [(py ''message'', JStr (py ''Login successful''))])\<rparr>,
      srv (serve_at sqlite_engine (py ''2024-01-01 10:00:00'') 0 two_registrations))"
proof -
  let ?st = "serve_at sqlite_engine (py ''2024-01-01 10:00:00'') 0 two_registrations"
  have run: "(sys_step sqlite_engine)\<^sup>*\<^sup>* two_registrations ?st"
    using serve_first [OF clock_ok_example] by (simp add: two_registrations_def)
  have "status (fst (asgi_app sqlite_engine (py ''2024-01-01 10:00:00'')
          (register_request (py ''alice'') (py ''pw1'')) initial_server)) = 200"
    using register_request_status [of initial_server "[]" "py ''alice''" "py ''pw1''"]
    by (simp add: initial_server_eq py_def is_surrogate_def)
  then have "(py ''alice'', py ''pw1'') \<in> set (reg_creds (replies ?st))"
    by (simp add: serve_at_fields two_registrations_def reg_creds_def registered_cred_register_request)
  from login_after_registration [OF reachable_run [OF run reachable_two_registrations] sqlite_engine_ok this]
  show ?thesis .
qed

end
