(* ===== verification/JsonParse.thy ===== *)
theory JsonParse
  imports Http
begin

text \<open>
  The request body as FastAPI reads it: \<open>json.loads(body)\<close> on the raw bytes (Starlette's
  \<open>Request.json\<close>). The bytes are decoded with the encoding \<open>json.detect_encoding\<close> picks
  and the \<open>surrogatepass\<close> error handler; the text is scanned by CPython's C scanner
  (\<open>Modules/_json.c\<close>: \<open>scan_once_unicode\<close>, \<open>scanstring_unicode\<close>, \<open>_parse_object_unicode\<close>,
  \<open>_parse_array_unicode\<close>, \<open>_match_number_unicode\<close>), on indices into the text, so that
  every \<open>JSONDecodeError\<close> carries the message and position CPython reports. The scanner's
  recursion runs on fuel: \<open>2 * length s + 2\<close> is enough (\<open>scan_fuel\<close>, \<open>json_decode_total\<close>).
  The messages are those of CPython up to 3.12; 3.13 reports a trailing comma in an array
  or object as \<open>Illegal trailing comma before end of array\<close> (or \<open>object\<close>) where this
  scanner reports \<open>Expecting value\<close> (or \<open>Expecting property name enclosed in double
  quotes\<close>).
\<close>

section \<open>Scanner results\<close>

text \<open>\<open>Done v i\<close>: a value and the index after it; \<open>Stop i\<close>: \<open>StopIteration(i)\<close>, no value
  starts at \<open>i\<close>; \<open>Fail msg i\<close>: \<open>JSONDecodeError(msg, s, i)\<close>; \<open>IntLimit\<close>: the
  \<open>ValueError\<close> of \<open>int()\<close> on more than 4300 digits; \<open>NoFuel\<close>: the fuel ran out.\<close>

datatype 'a scan = Done 'a nat | Stop nat | Fail pystr nat | IntLimit | NoFuel

definition scan_then :: "'a scan \<Rightarrow> ('a \<Rightarrow> nat \<Rightarrow> 'b scan) \<Rightarrow> 'b scan" where
  "scan_then r f =
     (case r of Done v i \<Rightarrow> f v i | Stop i \<Rightarrow> Stop i | Fail m i \<Rightarrow> Fail m i
      | IntLimit \<Rightarrow> IntLimit | NoFuel \<Rightarrow> NoFuel)"

section \<open>Messages\<close>

definition msg_value :: pystr where "msg_value = py ''Expecting value''"
definition msg_name :: pystr where
  "msg_name = py ''Expecting property name enclosed in double quotes''"
definition msg_colon :: pystr where "msg_colon = py ''Expecting '' @ [39, 58, 39] @ py '' delimiter''"
definition msg_comma :: pystr where "msg_comma = py ''Expecting '' @ [39, 44, 39] @ py '' delimiter''"
definition msg_extra :: pystr where "msg_extra = py ''Extra data''"
definition msg_control :: pystr where "msg_control = py ''Invalid control character at''"
definition msg_unterminated :: pystr where "msg_unterminated = py ''Unterminated string starting at''"
definition msg_escape :: pystr where "msg_escape = py ''Invalid '' @ [92] @ py ''escape''"
definition msg_uescape :: pystr where "msg_uescape = py ''Invalid '' @ [92] @ py ''uXXXX escape''"

section \<open>Characters\<close>

definition is_ws :: "codepoint \<Rightarrow> bool" where
  "is_ws c \<longleftrightarrow> c = 32 \<or> c = 9 \<or> c = 10 \<or> c = 13"

text \<open>\<open>while (idx <= end_idx && IS_WHITESPACE(str[idx])) idx++;\<close>\<close>

definition skip_ws :: "pystr \<Rightarrow> nat \<Rightarrow> nat" where
  "skip_ws s i = i + length (takeWhile is_ws (drop i s))"

definition hex_val :: "codepoint \<Rightarrow> nat option" where
  "hex_val c = (if 48 \<le> c \<and> c \<le> 57 then Some (c - 48)
                else if 97 \<le> c \<and> c \<le> 102 then Some (c - 87)
                else if 65 \<le> c \<and> c \<le> 70 then Some (c - 55) else None)"

text \<open>The four hex digits of a \<open>\u\<close> escape at \<open>p\<close>.\<close>

definition unhex4 :: "pystr \<Rightarrow> nat \<Rightarrow> nat option" where
  "unhex4 s p =
     foldl (\<lambda>acc c. case (acc, hex_val c) of (Some a, Some d) \<Rightarrow> Some (16 * a + d) | _ \<Rightarrow> None)
       (Some 0) (take 4 (drop p s))"

definition simple_escape :: "codepoint \<Rightarrow> codepoint option" where
  "simple_escape c =
     (if c = 34 \<or> c = 92 \<or> c = 47 then Some c else if c = 98 then Some 8 else if c = 102 then Some 12
      else if c = 110 then Some 10 else if c = 114 then Some 13 else if c = 116 then Some 9 else None)"

definition is_high :: "codepoint \<Rightarrow> bool" where "is_high c \<longleftrightarrow> 0xD800 \<le> c \<and> c \<le> 0xDBFF"
definition is_low :: "codepoint \<Rightarrow> bool" where "is_low c \<longleftrightarrow> 0xDC00 \<le> c \<and> c \<le> 0xDFFF"

definition join_surrogates :: "codepoint \<Rightarrow> codepoint \<Rightarrow> codepoint" where
  "join_surrogates h l = 0x10000 + (h - 0xD800) * 0x400 + (l - 0xDC00)"

section \<open>Strings: \<open>scanstring_unicode\<close>\<close>

text \<open>\<open>scanstr s b i acc\<close>: the quote opened at \<open>b\<close>, scanning at \<open>i\<close>, \<open>acc\<close> decoded so
  far (strict mode: a raw control character is an error).\<close>

function scanstr :: "pystr \<Rightarrow> nat \<Rightarrow> nat \<Rightarrow> pystr \<Rightarrow> pystr scan" where
  "scanstr s b i acc =
     (if length s \<le> i then Fail msg_unterminated b
      else if s ! i = 34 then Done acc (Suc i)
      else if s ! i = 92 then
        (if Suc i = length s then Fail msg_unterminated b
         else if s ! Suc i \<noteq> 117 then
           (case simple_escape (s ! Suc i) of
              None \<Rightarrow> Fail msg_escape i
            | Some c \<Rightarrow> scanstr s b (i + 2) (acc @ [c]))
         else if length s \<le> i + 6 then Fail msg_uescape (Suc i)
         else (case unhex4 s (i + 2) of
                 None \<Rightarrow> Fail msg_uescape (Suc i)
               | Some c \<Rightarrow>
                   if is_high c \<and> i + 12 < length s \<and> s ! (i + 6) = 92 \<and> s ! (i + 7) = 117 then
                     (case unhex4 s (i + 8) of
                        None \<Rightarrow> Fail msg_uescape (i + 7)
                      | Some c2 \<Rightarrow>
                          if is_low c2 then scanstr s b (i + 12) (acc @ [join_surrogates c c2])
                          else scanstr s b (i + 6) (acc @ [c]))
                   else scanstr s b (i + 6) (acc @ [c])))
      else if s ! i \<le> 0x1F then Fail msg_control i
      else scanstr s b (Suc i) (acc @ [s ! i]))"
  by pat_completeness auto
termination
  by (relation "measure (\<lambda>(s, b, i, acc). length s - i)") auto

declare scanstr.simps [simp del]

section \<open>Numbers: \<open>_match_number_unicode\<close>\<close>

definition run_digits :: "pystr \<Rightarrow> nat \<Rightarrow> nat" where
  "run_digits s j = length (takeWhile is_digit (drop j s))"

text \<open>After the integer part, ending at \<open>j1\<close>: an optional fraction, an optional exponent
  (backtracked when it has no digit). The end of the number and whether it is a float.\<close>

definition number_end :: "pystr \<Rightarrow> nat \<Rightarrow> nat \<times> bool" where
  "number_end s j1 =
     (let fr = (Suc j1 < length s \<and> s ! j1 = 46 \<and> is_digit (s ! Suc j1));
          j2 = (if fr then j1 + 2 + run_digits s (j1 + 2) else j1);
          ex = (Suc j2 < length s \<and> (s ! j2 = 101 \<or> s ! j2 = 69));
          k = (if Suc (Suc j2) < length s \<and> (s ! Suc j2 = 45 \<or> s ! Suc j2 = 43) then j2 + 2 else Suc j2);
          k' = k + run_digits s k;
          exok = (ex \<and> is_digit (s ! (k' - 1)))
      in (if exok then k' else j2, fr \<or> exok))"

text \<open>Then \<open>float()\<close> or \<open>int()\<close> of the matched text \<open>s[i:j3]\<close>.\<close>

definition number_tail :: "pystr \<Rightarrow> nat \<Rightarrow> nat \<Rightarrow> json scan" where
  "number_tail s i j1 =
     (case number_end s j1 of (j3, fl) \<Rightarrow>
        let lit = take (j3 - i) (drop i s); ds = dropWhile (\<lambda>c. c = 45) lit
        in if fl then Done (JFloat (float_of_literal lit)) j3
           else if 4300 < length ds then IntLimit
           else Done (JInt ((if s ! i = 45 then -1 else 1) * int (digits_val ds))) j3)"

definition match_number :: "pystr \<Rightarrow> nat \<Rightarrow> json scan" where
  "match_number s i =
     (let j0 = (if s ! i = 45 then Suc i else i) in
      if length s \<le> j0 then Stop i
      else if 49 \<le> s ! j0 \<and> s ! j0 \<le> 57 then number_tail s i (Suc j0 + run_digits s (Suc j0))
      else if s ! j0 = 48 then number_tail s i (Suc j0)
      else Stop i)"

section \<open>Values, arrays and objects\<close>

text \<open>A \<open>dict\<close> built from the pairs in order: a repeated key keeps its first place and takes
  the last value.\<close>

fun dict_insert :: "pystr \<Rightarrow> json \<Rightarrow> (pystr \<times> json) list \<Rightarrow> (pystr \<times> json) list" where
  "dict_insert k v [] = [(k, v)]"
| "dict_insert k v ((k', v') # kvs) =
     (if k = k' then (k, v) # kvs else (k', v') # dict_insert k v kvs)"

definition py_dict :: "(pystr \<times> json) list \<Rightarrow> (pystr \<times> json) list" where
  "py_dict kvs = foldl (\<lambda>d kv. dict_insert (fst kv) (snd kv) d) [] kvs"

fun scan_once :: "nat \<Rightarrow> pystr \<Rightarrow> nat \<Rightarrow> json scan"
and parse_array :: "nat \<Rightarrow> pystr \<Rightarrow> nat \<Rightarrow> json list \<Rightarrow> json scan"
and parse_object :: "nat \<Rightarrow> pystr \<Rightarrow> nat \<Rightarrow> (pystr \<times> json) list \<Rightarrow> json scan" where
  "scan_once 0 s i = NoFuel"
| "scan_once (Suc f) s i =
     (if length s \<le> i then Stop i
      else if s ! i = 34 then scan_then (scanstr s i (Suc i) []) (\<lambda>v j. Done (JStr v) j)
      else if s ! i = 123 then
        (let j = skip_ws s (Suc i) in
         if j < length s \<and> s ! j = 125 then Done (JObj []) (Suc j) else parse_object f s j [])
      else if s ! i = 91 then
        (let j = skip_ws s (Suc i) in
         if j < length s \<and> s ! j = 93 then Done (JList []) (Suc j) else parse_array f s j [])
      else if take 4 (drop i s) = py ''null'' then Done JNull (i + 4)
      else if take 4 (drop i s) = py ''true'' then Done (JBool True) (i + 4)
      else if take 5 (drop i s) = py ''false'' then Done (JBool False) (i + 5)
      else if take 3 (drop i s) = py ''NaN'' then Done (JFloat FNaN) (i + 3)
      else if take 8 (drop i s) = py ''Infinity'' then Done (JFloat (FInf False)) (i + 8)
      else if take 9 (drop i s) = py ''-Infinity'' then Done (JFloat (FInf True)) (i + 9)
      else match_number s i)"
| "parse_array 0 s i acc = NoFuel"
| "parse_array (Suc f) s i acc =
     scan_then (scan_once f s i) (\<lambda>v j.
       let k = skip_ws s j in
       if k < length s \<and> s ! k = 93 then Done (JList (acc @ [v])) (Suc k)
       else if length s \<le> k \<or> s ! k \<noteq> 44 then Fail msg_comma k
       else parse_array f s (skip_ws s (Suc k)) (acc @ [v]))"
| "parse_object 0 s i acc = NoFuel"
| "parse_object (Suc f) s i acc =
     (if length s \<le> i \<or> s ! i \<noteq> 34 then Fail msg_name i
      else scan_then (scanstr s i (Suc i) []) (\<lambda>key j.
        let k = skip_ws s j in
        if length s \<le> k \<or> s ! k \<noteq> 58 then Fail msg_colon k
        else scan_then (scan_once f s (skip_ws s (Suc k))) (\<lambda>v m.
          let n = skip_ws s m in
          if n < length s \<and> s ! n = 125 then Done (JObj (py_dict (acc @ [(key, v)]))) (Suc n)
          else if length s \<le> n \<or> s ! n \<noteq> 44 then Fail msg_comma n
          else parse_object f s (skip_ws s (Suc n)) (acc @ [(key, v)]))))"

text \<open>\<open>JSONDecoder.decode\<close>: skip blanks, one value, skip blanks, nothing after it.\<close>

definition json_decode :: "pystr \<Rightarrow> json scan" where
  "json_decode s =
     (case scan_once (2 * length s + 2) s (skip_ws s 0) of
        Done v j \<Rightarrow> (let k = skip_ws s j in if k = length s then Done v k else Fail msg_extra k)
      | Stop n \<Rightarrow> Fail msg_value n
      | r \<Rightarrow> r)"

section \<open>Bytes: \<open>json.detect_encoding\<close> and the codecs\<close>

datatype encoding = UTF8 | UTF8_SIG | UTF16 | UTF16_BE | UTF16_LE | UTF32 | UTF32_BE | UTF32_LE

text \<open>Bytes as numbers: the codecs compare and combine them arithmetically.\<close>

definition detect_encoding :: "nat list \<Rightarrow> encoding" where
  "detect_encoding b =
     (if take 4 b = [0, 0, 0xFE, 0xFF] \<or> take 4 b = [0xFF, 0xFE, 0, 0] then UTF32
      else if take 2 b = [0xFE, 0xFF] \<or> take 2 b = [0xFF, 0xFE] then UTF16
      else if take 3 b = [0xEF, 0xBB, 0xBF] then UTF8_SIG
      else if 4 \<le> length b then
        (if b ! 0 = 0 then (if b ! 1 \<noteq> 0 then UTF16_BE else UTF32_BE)
         else if b ! 1 = 0 then (if b ! 2 \<noteq> 0 \<or> b ! 3 \<noteq> 0 then UTF16_LE else UTF32_LE)
         else UTF8)
      else if length b = 2 then
        (if b ! 0 = 0 then UTF16_BE else if b ! 1 = 0 then UTF16_LE else UTF8)
      else UTF8)"

definition is_cont :: "nat \<Rightarrow> bool" where
  "is_cont b \<longleftrightarrow> 0x80 \<le> b \<and> b \<le> 0xBF"

text \<open>UTF-8 as CPython decodes it: no overlong form, nothing above U+10FFFF; an encoded
  surrogate (\<open>ED A0..BF 80..BF\<close>) is an error unless \<open>sp\<close> (\<open>surrogatepass\<close>).\<close>

fun utf8_dec :: "bool \<Rightarrow> nat list \<Rightarrow> pystr option" where
  "utf8_dec sp [] = Some []"
| "utf8_dec sp (b # bs) =
     (if b < 0x80 then map_option (Cons b) (utf8_dec sp bs)
      else if 0xC2 \<le> b \<and> b \<le> 0xDF then
        (case bs of b1 # r \<Rightarrow>
           if is_cont b1 then map_option (Cons ((b - 0xC0) * 0x40 + (b1 - 0x80))) (utf8_dec sp r) else None
         | [] \<Rightarrow> None)
      else if 0xE0 \<le> b \<and> b \<le> 0xEF then
        (case bs of b1 # b2 # r \<Rightarrow>
           if (if b = 0xE0 then 0xA0 \<le> b1 \<and> b1 \<le> 0xBF
               else if b = 0xED \<and> \<not> sp then 0x80 \<le> b1 \<and> b1 \<le> 0x9F else is_cont b1) \<and> is_cont b2
           then map_option (Cons ((b - 0xE0) * 0x1000 + (b1 - 0x80) * 0x40 + (b2 - 0x80))) (utf8_dec sp r)
           else None
         | _ \<Rightarrow> None)
      else if 0xF0 \<le> b \<and> b \<le> 0xF4 then
        (case bs of b1 # b2 # b3 # r \<Rightarrow>
           if (if b = 0xF0 then 0x90 \<le> b1 \<and> b1 \<le> 0xBF
               else if b = 0xF4 then 0x80 \<le> b1 \<and> b1 \<le> 0x8F else is_cont b1)
              \<and> is_cont b2 \<and> is_cont b3
           then map_option (Cons ((b - 0xF0) * 0x40000 + (b1 - 0x80) * 0x1000 + (b2 - 0x80) * 0x40
                                  + (b3 - 0x80))) (utf8_dec sp r)
           else None
         | _ \<Rightarrow> None)
      else None)"

text \<open>UTF-16 code units (big- or little-endian pairs; an odd byte is truncated data), then
  a high surrogate followed by a low one joins, and any other unit passes
  (\<open>surrogatepass\<close>).\<close>

fun units16 :: "bool \<Rightarrow> nat list \<Rightarrow> nat list option" where
  "units16 be [] = Some []"
| "units16 be [b] = None"
| "units16 be (b0 # b1 # r) = map_option (Cons (if be then b0 * 256 + b1 else b1 * 256 + b0)) (units16 be r)"

fun join16 :: "nat list \<Rightarrow> pystr" where
  "join16 (h # l # r) =
     (if is_high h \<and> is_low l then join_surrogates h l # join16 r else h # join16 (l # r))"
| "join16 us = us"

text \<open>UTF-32 code units: four bytes each, at most U+10FFFF (surrogates pass).\<close>

fun units32 :: "bool \<Rightarrow> nat list \<Rightarrow> nat list option" where
  "units32 be (b0 # b1 # b2 # b3 # r) =
     (let u = (if be then ((b0 * 256 + b1) * 256 + b2) * 256 + b3 else ((b3 * 256 + b2) * 256 + b1) * 256 + b0)
      in if 0x10FFFF < u then None else map_option (Cons u) (units32 be r))"
| "units32 be [] = Some []"
| "units32 be _ = None"

text \<open>\<open>b.decode(detect_encoding(b), 'surrogatepass')\<close>; the \<open>utf-8-sig\<close>, \<open>utf-16\<close> and
  \<open>utf-32\<close> codecs consume the byte order mark the detection saw.\<close>

definition decode_body :: "nat list \<Rightarrow> pystr option" where
  "decode_body b =
     (case detect_encoding b of
        UTF8 \<Rightarrow> utf8_dec True b
      | UTF8_SIG \<Rightarrow> utf8_dec True (drop 3 b)
      | UTF16 \<Rightarrow> map_option join16 (units16 (b ! 0 = 0xFE) (drop 2 b))
      | UTF16_BE \<Rightarrow> map_option join16 (units16 True b)
      | UTF16_LE \<Rightarrow> map_option join16 (units16 False b)
      | UTF32 \<Rightarrow> units32 (b ! 0 = 0) (drop 4 b)
      | UTF32_BE \<Rightarrow> units32 True b
      | UTF32_LE \<Rightarrow> units32 False b)"

text \<open>\<open>json.loads(body)\<close>: \<open>None\<close> when decoding raises \<open>UnicodeDecodeError\<close>.\<close>

definition json_loads :: "byte list \<Rightarrow> json scan option" where
  "json_loads body = map_option json_decode (decode_body (map unat body))"

section \<open>Properties of the scanner\<close>

lemma scan_then_Done [simp]:
  "scan_then r f = Done v j \<longleftrightarrow> (\<exists>v' j'. r = Done v' j' \<and> f v' j' = Done v j)"
  by (cases r) (auto simp: scan_then_def)

lemma scanstr_progress: "scanstr s b i acc = Done v j \<Longrightarrow> i < j"
proof (induction "length s - i" arbitrary: i acc rule: less_induct)
  case less
  have IH: "i' < j" if "i < i'" "i < length s" "scanstr s b i' acc' = Done v j" for i' acc'
  proof -
    have "length s - i' < length s - i" using that(1,2) by arith
    then have "i' < j" using less.hyps that(3) by blast
    then show ?thesis .
  qed
  show ?case
    using less.prems
    by (subst (asm) scanstr.simps)
       (auto split: if_splits option.splits dest!: IH [rotated 2])
qed
lemma skip_ws_ge: "i \<le> skip_ws s i"
  by (simp add: skip_ws_def)

lemma number_end_ge: "j1 \<le> fst (number_end s j1)"
  by (simp add: number_end_def Let_def)

lemma number_tail_progress: "number_tail s i j1 = Done v j \<Longrightarrow> j1 \<le> j"
  using number_end_ge [of j1 s]
  by (cases "number_end s j1") (auto simp: number_tail_def Let_def split: if_splits)

lemma match_number_progress: "match_number s i = Done v j \<Longrightarrow> i < j"
  by (auto simp: match_number_def Let_def split: if_splits dest!: number_tail_progress)

lemma scan_progress_fuel:
  "(\<forall>i v j. scan_once f s i = Done v j \<longrightarrow> i < j)
   \<and> (\<forall>i acc v j. parse_array f s i acc = Done v j \<longrightarrow> i < j)
   \<and> (\<forall>i acc v j. parse_object f s i acc = Done v j \<longrightarrow> i < j)"
proof (induction f)
  case 0
  then show ?case by simp
next
  case (Suc f)
  then have so: "\<And>i v j. scan_once f s i = Done v j \<Longrightarrow> i < j"
    and pa: "\<And>i acc v j. parse_array f s i acc = Done v j \<Longrightarrow> i < j"
    and po: "\<And>i acc v j. parse_object f s i acc = Done v j \<Longrightarrow> i < j" by blast+
  have A: "i < j" if d: "scan_once (Suc f) s i = Done v j" for i v j
  proof -
    have w: "Suc i \<le> skip_ws s (Suc i)" by (rule skip_ws_ge)
    consider "length s \<le> i" | "i < length s" "s ! i = 34" | "i < length s" "s ! i = 123"
      | "i < length s" "s ! i = 91" | "i < length s" "s ! i \<noteq> 34" "s ! i \<noteq> 123" "s ! i \<noteq> 91"
      by force
    then show ?thesis
    proof cases
      case 1
      with d show ?thesis by simp
    next
      case 2
      with d show ?thesis by (auto dest!: scanstr_progress)
    next
      case 3
      with d w show ?thesis by (auto simp: Let_def split: if_splits dest!: po)
    next
      case 4
      with d w show ?thesis by (auto simp: Let_def split: if_splits dest!: pa)
    next
      case 5
      with d show ?thesis by (auto simp: Let_def split: if_splits dest!: match_number_progress)
    qed
  qed
  have B: "i < j" if d: "parse_array (Suc f) s i acc = Done v j" for i acc v j
  proof -
    from d obtain v' j' where sc: "scan_once f s i = Done v' j'" and
      r: "(let k = skip_ws s j' in
           if k < length s \<and> s ! k = 93 then Done (JList (acc @ [v'])) (Suc k)
           else if length s \<le> k \<or> s ! k \<noteq> 44 then Fail msg_comma k
           else parse_array f s (skip_ws s (Suc k)) (acc @ [v'])) = Done v j"
      by auto
    have "i < j'" using so [OF sc] .
    moreover have "j' \<le> skip_ws s j'" "Suc (skip_ws s j') \<le> skip_ws s (Suc (skip_ws s j'))"
      by (rule skip_ws_ge)+
    ultimately show ?thesis using r by (auto simp: Let_def split: if_splits dest!: pa)
  qed
  have C: "i < j" if d: "parse_object (Suc f) s i acc = Done v j" for i acc v j
  proof -
    have c0: "\<not> (length s \<le> i \<or> s ! i \<noteq> 34)"
    proof
      assume "length s \<le> i \<or> s ! i \<noteq> 34"
      with d show False by simp
    qed
    from d c0 obtain key j' where st: "scanstr s i (Suc i) [] = Done key j'"
      and d1: "(let k = skip_ws s j' in
                if length s \<le> k \<or> s ! k \<noteq> 58 then Fail msg_colon k
                else scan_then (scan_once f s (skip_ws s (Suc k))) (\<lambda>v m.
                  let n = skip_ws s m in
                  if n < length s \<and> s ! n = 125 then Done (JObj (py_dict (acc @ [(key, v)]))) (Suc n)
                  else if length s \<le> n \<or> s ! n \<noteq> 44 then Fail msg_comma n
                  else parse_object f s (skip_ws s (Suc n)) (acc @ [(key, v)]))) = Done v j"
      by (simp only: parse_object.simps if_False scan_then_Done) blast
    have ij: "i < j'" using scanstr_progress [OF st] by simp
    have c1: "\<not> (length s \<le> skip_ws s j' \<or> s ! skip_ws s j' \<noteq> 58)"
    proof
      assume "length s \<le> skip_ws s j' \<or> s ! skip_ws s j' \<noteq> 58"
      with d1 show False by (simp add: Let_def)
    qed
    from d1 c1 obtain v' m where sc: "scan_once f s (skip_ws s (Suc (skip_ws s j'))) = Done v' m"
      and rest: "(let n = skip_ws s m in
                  if n < length s \<and> s ! n = 125 then Done (JObj (py_dict (acc @ [(key, v')]))) (Suc n)
                  else if length s \<le> n \<or> s ! n \<noteq> 44 then Fail msg_comma n
                  else parse_object f s (skip_ws s (Suc n)) (acc @ [(key, v')])) = Done v j"
      by (simp only: Let_def if_False scan_then_Done) blast
    have "skip_ws s (Suc (skip_ws s j')) < m" using so [OF sc] .
    then have im: "i < m" using ij skip_ws_ge [of j' s] skip_ws_ge [of "Suc (skip_ws s j')" s] by arith
    then show ?thesis using rest skip_ws_ge [of m s] skip_ws_ge [of "Suc (skip_ws s m)" s]
      by (auto simp: Let_def split: if_splits dest!: po)
  qed
  show ?case using A B C by blast
qed

lemma scan_progress:
  "scan_once f s i = Done v j \<Longrightarrow> i < j"
  "parse_array f s i acc = Done v j \<Longrightarrow> i < j"
  "parse_object f s i acc' = Done v j \<Longrightarrow> i < j"
  using scan_progress_fuel [of f s] by blast+

lemma match_number_result: "match_number s i \<noteq> NoFuel"
proof -
  have "number_tail s i j \<noteq> NoFuel" for j
    by (cases "number_end s j") (simp add: number_tail_def Let_def)
  then show ?thesis by (simp add: match_number_def Let_def)
qed
lemma scanstr_result:
  "case scanstr s b i acc of Done _ _ \<Rightarrow> True | Fail _ _ \<Rightarrow> True | _ \<Rightarrow> False"
proof (induction "length s - i" arbitrary: i acc rule: less_induct)
  case less
  have IH: "case scanstr s b i' acc' of Done _ _ \<Rightarrow> True | Fail _ _ \<Rightarrow> True | _ \<Rightarrow> False"
    if "i < i'" "i < length s" for i' acc'
  proof -
    have "length s - i' < length s - i" using that by arith
    then show ?thesis using less.hyps by blast
  qed
  show ?case
    by (subst scanstr.simps) (simp add: IH split: option.split)
qed
lemma scan_then_str_NoFuel:
  "scan_then (scanstr s b i acc) g = NoFuel \<longleftrightarrow> (\<exists>v j. scanstr s b i acc = Done v j \<and> g v j = NoFuel)"
  using scanstr_result [of s b i acc] by (cases "scanstr s b i acc") (auto simp: scan_then_def)

lemma scan_fuel:
  "(\<forall>i. 2 * (length s - i) + 2 \<le> f \<longrightarrow> scan_once f s i \<noteq> NoFuel)
   \<and> (\<forall>i acc. 2 * (length s - i) + 3 \<le> f \<longrightarrow> parse_array f s i acc \<noteq> NoFuel)
   \<and> (\<forall>i acc. 2 * (length s - i) + 3 \<le> f \<longrightarrow> parse_object f s i acc \<noteq> NoFuel)"
proof (induction f)
  case 0
  then show ?case by simp
next
  case (Suc f)
  then have so: "\<And>i. 2 * (length s - i) + 2 \<le> f \<Longrightarrow> scan_once f s i \<noteq> NoFuel"
    and pa: "\<And>i acc. 2 * (length s - i) + 3 \<le> f \<Longrightarrow> parse_array f s i acc \<noteq> NoFuel"
    and po: "\<And>i acc. 2 * (length s - i) + 3 \<le> f \<Longrightarrow> parse_object f s i acc \<noteq> NoFuel"
    by blast+
  have A: "scan_once (Suc f) s i \<noteq> NoFuel" if b: "2 * (length s - i) + 2 \<le> Suc f" for i
  proof -
    have w: "Suc i \<le> skip_ws s (Suc i)" by (rule skip_ws_ge)
    consider "length s \<le> i" | "i < length s" "s ! i = 34" | "i < length s" "s ! i = 123"
      | "i < length s" "s ! i = 91" | "i < length s" "s ! i \<noteq> 34" "s ! i \<noteq> 123" "s ! i \<noteq> 91"
      by force
    then show ?thesis
    proof cases
      case 1
      then show ?thesis by simp
    next
      case 2
      then show ?thesis by (simp add: scan_then_str_NoFuel)
    next
      case 3
      then have "2 * (length s - skip_ws s (Suc i)) + 3 \<le> f" using b w by arith
      with 3 show ?thesis by (simp add: Let_def po)
    next
      case 4
      then have "2 * (length s - skip_ws s (Suc i)) + 3 \<le> f" using b w by arith
      with 4 show ?thesis by (simp add: Let_def pa)
    next
      case 5
      then show ?thesis by (simp add: match_number_result)
    qed
  qed
  have B: "parse_array (Suc f) s i acc \<noteq> NoFuel" if b: "2 * (length s - i) + 3 \<le> Suc f" for i acc
  proof (cases "scan_once f s i")
    case (Done v j)
    have "i < j" using scan_progress(1) [OF Done] .
    moreover have "j \<le> skip_ws s j" "Suc (skip_ws s j) \<le> skip_ws s (Suc (skip_ws s j))"
      by (rule skip_ws_ge)+
    ultimately have "2 * (length s - skip_ws s (Suc (skip_ws s j))) + 3 \<le> f"
      if "skip_ws s j < length s" using b that by arith
    then show ?thesis using Done by (auto simp: Let_def scan_then_def dest: pa)
  next
    case NoFuel
    then show ?thesis using so b by simp
  qed (simp_all add: scan_then_def)
  have C: "parse_object (Suc f) s i acc \<noteq> NoFuel" if b: "2 * (length s - i) + 3 \<le> Suc f" for i acc
  proof (cases "length s \<le> i \<or> s ! i \<noteq> 34")
    case True
    then show ?thesis by simp
  next
    case False
    show ?thesis
    proof (cases "scanstr s i (Suc i) []")
      case (Done key j)
      have "Suc i < j" using scanstr_progress [OF Done] .
      moreover have "j \<le> skip_ws s j" "Suc (skip_ws s j) \<le> skip_ws s (Suc (skip_ws s j))"
        by (rule skip_ws_ge)+
      ultimately have k: "2 * (length s - skip_ws s (Suc (skip_ws s j))) + 2 \<le> f"
        if "skip_ws s j < length s" using b that False by arith
      have inner: "parse_object f s (skip_ws s (Suc (skip_ws s m))) (acc @ [(key, v)]) \<noteq> NoFuel"
        if "scan_once f s (skip_ws s (Suc (skip_ws s j))) = Done v m" "skip_ws s j < length s"
           "skip_ws s m < length s" for v m
      proof -
        have "skip_ws s (Suc (skip_ws s j)) < m" using scan_progress(1) [OF that(1)] .
        moreover have "m \<le> skip_ws s m" "Suc (skip_ws s m) \<le> skip_ws s (Suc (skip_ws s m))"
          by (rule skip_ws_ge)+
        ultimately have "2 * (length s - skip_ws s (Suc (skip_ws s m))) + 3 \<le> f"
          using k [OF that(2)] that(3) by arith
        then show ?thesis by (rule po)
      qed
      show ?thesis
      proof (cases "length s \<le> skip_ws s j \<or> s ! skip_ws s j \<noteq> 58")
        case True
        then show ?thesis using False Done by (simp add: Let_def scan_then_def)
      next
        case c2: False
        then have nf: "scan_once f s (skip_ws s (Suc (skip_ws s j))) \<noteq> NoFuel" using k so by simp
        show ?thesis
        proof (cases "scan_once f s (skip_ws s (Suc (skip_ws s j)))")
          case (Done v m)
          then show ?thesis using False c2 \<open>scanstr s i (Suc i) [] = Done key j\<close> inner [OF Done]
            by (simp add: Let_def scan_then_def)
        qed (use nf False c2 \<open>scanstr s i (Suc i) [] = Done key j\<close> in \<open>simp_all add: Let_def scan_then_def\<close>)
      qed
    qed (use False scanstr_result [of s i "Suc i" "[]"] in \<open>simp_all add: scan_then_def\<close>)
  qed
  show ?case using A B C by blast
qed

text \<open>The fuel \<open>json_decode\<close> gives the scanner is enough: it never runs out, and a missing
  value at the top is the \<open>Expecting value\<close> error, never a bare \<open>StopIteration\<close>.\<close>

lemma json_decode_total: "json_decode s \<noteq> NoFuel \<and> json_decode s \<noteq> Stop n"
proof -
  define F where "F = 2 * length s + 2"
  have eq: "json_decode s =
          (case scan_once F s (skip_ws s 0) of
             Done v j \<Rightarrow> (let k = skip_ws s j in if k = length s then Done v k else Fail msg_extra k)
           | Stop n \<Rightarrow> Fail msg_value n
           | r \<Rightarrow> r)"
    by (simp only: json_decode_def F_def)
  have "2 * (length s - skip_ws s 0) + 2 \<le> F" by (simp add: F_def)
  then have "scan_once F s (skip_ws s 0) \<noteq> NoFuel" using scan_fuel [of s F] by blast
  then show ?thesis unfolding eq by (auto simp: Let_def split: scan.splits)
qed

text \<open>Every \<open>JSONDecodeError\<close> carries one of CPython's messages.\<close>

lemma scan_then_Fail [simp]:
  "scan_then r g = Fail m p \<longleftrightarrow> r = Fail m p \<or> (\<exists>v j. r = Done v j \<and> g v j = Fail m p)"
  by (cases r) (auto simp: scan_then_def)

lemma scanstr_fail_msg:
  "scanstr s b i acc = Fail m p \<Longrightarrow> m \<in> {msg_unterminated, msg_escape, msg_uescape, msg_control}"
proof (induction "length s - i" arbitrary: i acc rule: less_induct)
  case less
  have IH: "m \<in> {msg_unterminated, msg_escape, msg_uescape, msg_control}"
    if "i < i'" "i < length s" "scanstr s b i' acc' = Fail m p" for i' acc'
  proof -
    have "length s - i' < length s - i" using that(1,2) by arith
    then show ?thesis using less.hyps that(3) by blast
  qed
  show ?case
    using less.prems
    by (subst (asm) scanstr.simps)
       (auto split: if_splits option.splits dest!: IH [rotated 2])
qed

lemma match_number_no_fail: "match_number s i \<noteq> Fail m p"
proof -
  have "number_tail s i j \<noteq> Fail m p" for j
    by (cases "number_end s j") (simp add: number_tail_def Let_def)
  then show ?thesis by (simp add: match_number_def Let_def)
qed

lemma scan_fail_msg_fuel:
  "(\<forall>i m p. scan_once f s i = Fail m p \<longrightarrow> m \<in> {msg_name, msg_colon, msg_comma, msg_unterminated, msg_escape, msg_uescape, msg_control})
   \<and> (\<forall>i acc m p. parse_array f s i acc = Fail m p \<longrightarrow> m \<in> {msg_name, msg_colon, msg_comma, msg_unterminated, msg_escape, msg_uescape, msg_control})
   \<and> (\<forall>i acc m p. parse_object f s i acc = Fail m p \<longrightarrow> m \<in> {msg_name, msg_colon, msg_comma, msg_unterminated, msg_escape, msg_uescape, msg_control})"
proof (induction f)
  case 0
  then show ?case by simp
next
  case (Suc f)
  let ?M = "{msg_name, msg_colon, msg_comma, msg_unterminated, msg_escape, msg_uescape, msg_control}"
  from Suc have so: "\<And>i m p. scan_once f s i = Fail m p \<Longrightarrow> m \<in> ?M"
    and pa: "\<And>i acc m p. parse_array f s i acc = Fail m p \<Longrightarrow> m \<in> ?M"
    and po: "\<And>i acc m p. parse_object f s i acc = Fail m p \<Longrightarrow> m \<in> ?M" by blast+
  have A: "m \<in> ?M" if d: "scan_once (Suc f) s i = Fail m p" for i m p
    using d match_number_no_fail [of s i m p]
    by (auto simp: Let_def split: if_splits dest!: scanstr_fail_msg pa po)
  have B: "m \<in> ?M" if d: "parse_array (Suc f) s i acc = Fail m p" for i acc m p
    using d by (auto simp: Let_def split: if_splits dest!: so pa)
  have C: "m \<in> ?M" if d: "parse_object (Suc f) s i acc = Fail m p" for i acc m p
    using d by (auto simp: Let_def split: if_splits dest!: scanstr_fail_msg so po)
  show ?case using A B C by blast
qed

lemma json_decode_fail_msg:
  assumes "json_decode s = Fail m p"
  shows "m \<in> {msg_value, msg_extra, msg_name, msg_colon, msg_comma, msg_unterminated, msg_escape, msg_uescape, msg_control}"
proof -
  define F where "F = 2 * length s + 2"
  have "json_decode s =
          (case scan_once F s (skip_ws s 0) of
             Done v j \<Rightarrow> (let k = skip_ws s j in if k = length s then Done v k else Fail msg_extra k)
           | Stop n \<Rightarrow> Fail msg_value n
           | r \<Rightarrow> r)"
    by (simp only: json_decode_def F_def)
  then show ?thesis
    using assms conjunct1 [OF scan_fail_msg_fuel [of F s]]
    by (auto simp: Let_def split: scan.splits if_splits)
qed

end
