(* ===== verification/JsonClient.thy ===== *)
theory JsonClient
  imports JsonParse
begin

text \<open>
  What a Python client sends, and that the server's body parser gives it back: the client
  writes a value with \<open>json.dumps\<close> (ASCII escapes, compact separators) and encodes the
  text as bytes; \<open>json_loads\<close> of theory \<open>JsonParse\<close> decodes those bytes and scans the
  text back to the same value, ending at the end of the body. The values covered are the
  \<open>json_plain\<close> ones: no float, integers within \<open>int()\<close>'s 4300-digit limit, strings of
  code points without a joinable surrogate pair, objects without a repeated key.
\<close>

section \<open>The client's encoding\<close>

text \<open>What a Python client sends for a value, in compact form:
  \<open>json.dumps(obj, separators=(",", ":"))\<close> with its default \<open>ensure_ascii=True\<close> (the
  default separators only add blanks after \<open>,\<close> and \<open>:\<close>, which the scanner skips). It is
  the server's rendering with every code point from U+007F up written as a \<open>\uXXXX\<close>
  escape, an astral one as a surrogate pair.\<close>

definition ascii_escape :: "codepoint \<Rightarrow> pystr" where
  "ascii_escape c =
     (if c < 0x7F then [c]
      else if c < 0x10000 then [92, 117] @ hex4 c
      else [92, 117] @ hex4 (0xD800 + (c - 0x10000) div 0x400)
           @ [92, 117] @ hex4 (0xDC00 + (c - 0x10000) mod 0x400))"

definition client_text :: "json \<Rightarrow> pystr" where
  "client_text j = concat (map ascii_escape (render j))"

definition client_body :: "json \<Rightarrow> byte list" where
  "client_body j = map of_nat (client_text j)"

text \<open>The strings the round trip covers: no high surrogate right before a low one (the
  client writes both as \<open>\u\<close> escapes, which the scanner joins into one code point).\<close>

fun no_pair :: "pystr \<Rightarrow> bool" where
  "no_pair (a # b # r) = (\<not> (is_high a \<and> is_low b) \<and> no_pair (b # r))"
| "no_pair _ = True"

text \<open>The values the round trip covers: no float (its text is \<open>repr\<close>, not the value), at
  most 4300 digits in an integer (\<open>int()\<close> refuses more), strings of code points with no
  joinable surrogate pair, and no key twice in an object (a \<open>dict\<close> keeps one).\<close>

fun json_plain :: "json \<Rightarrow> bool" where
  "json_plain (JInt i) = (length (digits10 (nat \<bar>i\<bar>)) \<le> 4300)"
| "json_plain (JFloat x) = False"
| "json_plain (JStr s) = (valid_pystr s \<and> no_pair s)"
| "json_plain (JList xs) = list_all json_plain xs"
| "json_plain (JObj kvs) =
     (distinct (map fst kvs) \<and> list_all (\<lambda>kv. valid_pystr (fst kv) \<and> no_pair (fst kv) \<and> json_plain (snd kv)) kvs)"
| "json_plain _ = True"

text \<open>The client's text of one code point of a string, and the condition under which the
  scanner reads an escape at the start of what follows without joining it to the code point
  before: no \<open>\u\<close> escape of a low surrogate comes next.\<close>

abbreviation cesc :: "codepoint \<Rightarrow> pystr" where
  "cesc c \<equiv> concat (map ascii_escape (escape_char c))"

definition next_ok :: "pystr \<Rightarrow> bool" where
  "next_ok r \<longleftrightarrow> (take 2 r = [92, 117] \<longrightarrow> (case unhex4 r 2 of Some l \<Rightarrow> \<not> is_low l | None \<Rightarrow> False))"

text \<open>What may follow a number in the client's text: nothing, or a delimiter.\<close>

definition after_ok :: "pystr \<Rightarrow> bool" where
  "after_ok post \<longleftrightarrow> post = [] \<or> hd post \<in> {44, 58, 93, 125}"

section \<open>Hexadecimal escapes\<close>

lemma hex_digit_val: "d < 16 \<Longrightarrow> hex_val (if d < 10 then 48 + d else 87 + d) = Some d"
  by (simp add: hex_val_def)

lemma digit_split: "(x::nat) div (b * k) * k + x div b mod k = x div b"
  by (simp add: div_mult2_eq)

lemma hex4_digits: "(x::nat) < 0x10000 \<Longrightarrow>
  ((x div 4096 mod 16 * 16 + x div 256 mod 16) * 16 + x div 16 mod 16) * 16 + x mod 16 = x"
proof -
  assume x: "x < 0x10000"
  have a: "x div 4096 mod 16 = x div 4096" using x by simp
  have "x div 4096 * 16 + x div 256 mod 16 = x div 256" using digit_split [of x 256 16] by simp
  moreover have "x div 256 * 16 + x div 16 mod 16 = x div 16" using digit_split [of x 16 16] by simp
  moreover have "x div 16 * 16 + x mod 16 = x" by simp
  ultimately show ?thesis unfolding a by simp
qed

lemma length_hex4 [simp]: "length (hex4 x) = 4"
  by (simp add: hex4_def)

lemma hex_val_hex_digit:
  "hex_val (let d = n div 16 ^ k mod 16 in if d < 10 then 48 + d else 87 + d) = Some (n div 16 ^ k mod 16)"
proof -
  define d where "d = n div 16 ^ k mod 16"
  have "d < 16" unfolding d_def by simp
  then show ?thesis unfolding d_def [symmetric] by (simp add: Let_def hex_val_def)
qed

lemma map_hex_val_hex4:
  "map hex_val (hex4 x) = [Some (x div 4096 mod 16), Some (x div 256 mod 16), Some (x div 16 mod 16), Some (x mod 16)]"
proof -
  have "map hex_val (hex4 x) = map (\<lambda>k. Some (x div 16 ^ k mod 16)) [3, 2, 1, 0]"
    unfolding hex4_def by (simp only: map_map comp_def hex_val_hex_digit)
  then show ?thesis by simp
qed

lemma unhex4_alt:
  "unhex4 s p = foldl (\<lambda>acc d. case (acc, d) of (Some a, Some d) \<Rightarrow> Some (16 * a + d) | _ \<Rightarrow> None)
                  (Some 0) (map hex_val (take 4 (drop p s)))"
  by (simp add: unhex4_def foldl_map)

lemma unhex4_hex4:
  assumes "x < 0x10000"
  shows "unhex4 (pre @ hex4 x @ post) (length pre) = Some x"
proof -
  have t: "take 4 (drop (length pre) (pre @ hex4 x @ post)) = hex4 x" by simp
  show ?thesis
    unfolding unhex4_alt t map_hex_val_hex4
    using hex4_digits [OF assms] assms by (simp add: algebra_simps)
qed

section \<open>Strings\<close>

lemma ascii_escape_ascii: "c < 0x7F \<Longrightarrow> ascii_escape c = [c]"
  by (simp add: ascii_escape_def)

lemma concat_ascii_escape_ascii: "\<forall>c\<in>set xs. c < 0x7F \<Longrightarrow> concat (map ascii_escape xs) = xs"
  by (induction xs) (auto simp: ascii_escape_ascii)

lemma hex4_ascii: "c \<in> set (hex4 x) \<Longrightarrow> c < 0x7F"
  by (auto simp: hex4_def Let_def)

lemma cesc_simple:
  "c = 34 \<or> c = 92 \<Longrightarrow> cesc c = [92, c]"
  "cesc 8 = [92, 98]" "cesc 12 = [92, 102]" "cesc 10 = [92, 110]" "cesc 13 = [92, 114]" "cesc 9 = [92, 116]"
  by (auto simp: escape_char_def ascii_escape_def)

lemma cesc_control:
  "c < 32 \<Longrightarrow> c \<notin> {8, 9, 10, 12, 13} \<Longrightarrow> cesc c = [92, 117] @ hex4 c"
  using hex4_ascii [of _ c] by (auto simp: escape_char_def concat_ascii_escape_ascii ascii_escape_def)

lemma cesc_plain: "32 \<le> c \<Longrightarrow> c < 0x7F \<Longrightarrow> c \<noteq> 34 \<Longrightarrow> c \<noteq> 92 \<Longrightarrow> cesc c = [c]"
  by (simp add: escape_char_def ascii_escape_def)

lemma cesc_bmp: "0x7F \<le> c \<Longrightarrow> c < 0x10000 \<Longrightarrow> cesc c = [92, 117] @ hex4 c"
  by (simp add: escape_char_def ascii_escape_def)

lemma cesc_astral: "0x10000 \<le> c \<Longrightarrow>
  cesc c = [92, 117] @ hex4 (0xD800 + (c - 0x10000) div 0x400) @ [92, 117] @ hex4 (0xDC00 + (c - 0x10000) mod 0x400)"
  by (simp add: escape_char_def ascii_escape_def)

lemma unhex4_append: "unhex4 (xs @ ys) (length xs + k) = unhex4 ys k"
  by (simp add: unhex4_def)

lemma astral_split:
  assumes "0x10000 \<le> c" "c < 0x110000"
  shows "is_high (0xD800 + (c - 0x10000) div 0x400)" "is_low (0xDC00 + (c - 0x10000) mod 0x400)"
    "join_surrogates (0xD800 + (c - 0x10000) div 0x400) (0xDC00 + (c - 0x10000) mod 0x400) = c"
  using assms by (auto simp: is_high_def is_low_def join_surrogates_def)

lemma scanstr_step:
  assumes v: "c < 0x110000" and r: "rest \<noteq> []" and n: "is_high c \<Longrightarrow> next_ok rest"
    and s: "s = pre @ cesc c @ rest"
  shows "scanstr s b (length pre) acc = scanstr s b (length pre + length (cesc c)) (acc @ [c])"
proof -
  consider "c = 34 \<or> c = 92" | "c \<in> {8, 9, 10, 12, 13}" | "c < 32" "c \<notin> {8, 9, 10, 12, 13}"
    | "32 \<le> c" "c < 0x7F" "c \<noteq> 34" "c \<noteq> 92" | "0x7F \<le> c" "c < 0x10000" | "0x10000 \<le> c"
    by force
  then show ?thesis
  proof cases
    case 1
    then have "cesc c = [92, c]" "c \<noteq> 117" "simple_escape c = Some c"
      by (auto simp: cesc_simple simple_escape_def)
    then show ?thesis using r s by (subst scanstr.simps) (simp add: nth_append)
  next
    case 2
    then obtain e where e: "cesc c = [92, e]" "e \<noteq> 117" "simple_escape e = Some c"
      by (auto simp: cesc_simple simple_escape_def)
    then show ?thesis using r s by (subst scanstr.simps) (simp add: nth_append)
  next
    case 3
    have u: "unhex4 s (length pre + 2) = Some c"
      using unhex4_hex4 [of c "pre @ [92, 117]" rest] 3 s by (simp add: cesc_control)
    have "\<not> is_high c" using 3 by (simp add: is_high_def)
    then show ?thesis using 3 r s u by (subst scanstr.simps) (auto simp: cesc_control nth_append)
  next
    case 4
    then show ?thesis using r s by (subst scanstr.simps) (auto simp: cesc_plain nth_append)
  next
    case 5
    have u: "unhex4 s (length pre + 2) = Some c"
      using unhex4_hex4 [of c "pre @ [92, 117]" rest] 5 s by (simp add: cesc_bmp)
    have "scanstr s b (length pre) acc = scanstr s b (length pre + 6) (acc @ [c])"
    proof (cases "is_high c \<and> length pre + 12 < length s \<and> s ! (length pre + 6) = 92 \<and> s ! (length pre + 7) = 117")
      case True
      then have "take 2 rest = [92, 117]" using s 5
        by (cases rest; cases "tl rest") (auto simp: cesc_bmp nth_append)
      then obtain l where l: "unhex4 rest 2 = Some l" "\<not> is_low l" using n True
        by (auto simp: next_ok_def split: option.splits)
      have "unhex4 s (length pre + 8) = Some l"
        using unhex4_append [of "pre @ cesc c" rest 2] s l 5 by (simp add: cesc_bmp add.commute)
      then show ?thesis using True r s u l 5 by (subst scanstr.simps) (simp add: cesc_bmp nth_append)
    next
      case False
      then show ?thesis using r s u 5 by (subst scanstr.simps) (auto simp: cesc_bmp nth_append)
    qed
    then show ?thesis using 5 by (simp add: cesc_bmp)
  next
    case 6
    let ?h = "0xD800 + (c - 0x10000) div 0x400" and ?l = "0xDC00 + (c - 0x10000) mod 0x400"
    have hl: "?h < 0x10000" "?l < 0x10000" using 6 v by auto
    have u1: "unhex4 s (length pre + 2) = Some ?h"
      using unhex4_hex4 [OF hl(1), of "pre @ [92, 117]" "[92, 117] @ hex4 ?l @ rest"] 6 s
      by (simp add: cesc_astral)
    have u2: "unhex4 s (length pre + 8) = Some ?l"
      using unhex4_hex4 [OF hl(2), of "pre @ [92, 117] @ hex4 ?h @ [92, 117]" rest] 6 s
      by (simp add: cesc_astral)
    show ?thesis using 6 r s u1 u2 astral_split [OF 6 v]
      by (subst scanstr.simps) (simp add: cesc_astral nth_append)
  qed
qed

lemma next_ok_quote: "next_ok (34 # r)"
  by (simp add: next_ok_def)

lemma next_ok_cesc:
  assumes "c < 0x110000" "\<not> is_low c"
  shows "next_ok (cesc c @ r)"
proof -
  consider "c = 34 \<or> c = 92" | "c \<in> {8, 9, 10, 12, 13}" | "c < 32" "c \<notin> {8, 9, 10, 12, 13}"
    | "32 \<le> c" "c < 0x7F" "c \<noteq> 34" "c \<noteq> 92" | "0x7F \<le> c" "c < 0x10000" | "0x10000 \<le> c"
    by force
  then show ?thesis
  proof cases
    case 1
    then show ?thesis by (auto simp: cesc_simple next_ok_def)
  next
    case 2
    then show ?thesis by (auto simp: cesc_simple next_ok_def)
  next
    case 3
    then have "unhex4 (cesc c @ r) 2 = Some c" using unhex4_hex4 [of c "[92, 117]" r] by (simp add: cesc_control numeral_2_eq_2)
    then show ?thesis using 3 by (simp add: next_ok_def is_low_def)
  next
    case 4
    then show ?thesis by (simp add: cesc_plain next_ok_def)
  next
    case 5
    then have "unhex4 (cesc c @ r) 2 = Some c" using unhex4_hex4 [of c "[92, 117]" r] by (simp add: cesc_bmp numeral_2_eq_2)
    then show ?thesis using assms(2) by (simp add: next_ok_def)
  next
    case 6
    let ?h = "0xD800 + (c - 0x10000) div 0x400"
    have "?h < 0x10000" using 6 assms(1) by auto
    then have "unhex4 (cesc c @ r) 2 = Some ?h"
      using 6 unhex4_hex4 [of ?h "[92, 117]"] by (simp add: cesc_astral numeral_2_eq_2)
    moreover have "(c - 0x10000) div 0x400 < 0x400" using assms(1) by auto
    ultimately show ?thesis by (simp add: next_ok_def is_low_def)
  qed
qed

lemma scanstr_client:
  assumes "list_all valid_codepoint cs" "no_pair cs"
  shows "scanstr (pre @ concat (map cesc cs) @ 34 # post) b (length pre) acc
           = Done (acc @ cs) (length pre + length (concat (map cesc cs)) + 1)"
  using assms
proof (induction cs arbitrary: pre acc)
  case Nil
  then show ?case by (subst scanstr.simps) simp
next
  case (Cons c cs)
  let ?rest = "concat (map cesc cs) @ 34 # post"
  have v: "c < 0x110000" using Cons.prems(1) by (simp add: valid_codepoint_def)
  have n: "next_ok ?rest" if "is_high c"
  proof (cases cs)
    case Nil
    then show ?thesis by (simp add: next_ok_quote)
  next
    case (Cons c' cs')
    with \<open>no_pair (c # cs)\<close> that have "\<not> is_low c'" by simp
    moreover have "c' < 0x110000" using Cons \<open>list_all valid_codepoint (c # cs)\<close>
      by (simp add: valid_codepoint_def)
    ultimately show ?thesis using next_ok_cesc [of c' "concat (map cesc cs') @ 34 # post"] Cons
      by simp
  qed
  have np: "no_pair cs" using Cons.prems(2) by (cases cs) auto
  have "scanstr (pre @ cesc c @ ?rest) b (length pre) acc
          = scanstr (pre @ cesc c @ ?rest) b (length pre + length (cesc c)) (acc @ [c])"
    by (rule scanstr_step [OF v _ n]) simp_all
  also have "\<dots> = Done ((acc @ [c]) @ cs) (length (pre @ cesc c) + length (concat (map cesc cs)) + 1)"
    using Cons.IH [of "pre @ cesc c" "acc @ [c]"] Cons.prems np by simp
  finally show ?case by simp
qed

section \<open>The client's text and numbers\<close>

lemma concat_map_concat: "concat (map g (concat xss)) = concat (map (\<lambda>xs. concat (map g xs)) xss)"
  by (induction xss) auto

lemma concat_map_join_with:
  "(\<forall>c\<in>set sep. c < 0x7F) \<Longrightarrow>
   concat (map ascii_escape (join_with sep xss)) = join_with sep (map (\<lambda>xs. concat (map ascii_escape xs)) xss)"
  by (induction sep xss rule: join_with.induct) (auto simp: concat_ascii_escape_ascii)

lemma client_text_simps:
  "client_text JNull = py ''null''"
  "client_text (JBool b) = (if b then py ''true'' else py ''false'')"
  "client_text (JInt i) = int_str i"
  "client_text (JStr s) = 34 # concat (map cesc s) @ [34]"
  "client_text (JList xs) = 91 # join_with [44] (map client_text xs) @ [93]"
  "client_text (JObj kvs) =
     123 # join_with [44] (map (\<lambda>kv. (34 # concat (map cesc (fst kv)) @ [34]) @ 58 # client_text (snd kv)) kvs) @ [125]"
proof -
  have d: "c \<in> set (digits10 n) \<Longrightarrow> c < 0x7F" for c n using digits10_digits by fastforce
  show "client_text JNull = py ''null''" "client_text (JBool b) = (if b then py ''true'' else py ''false'')"
    by (simp_all add: client_text_def py_def ascii_escape_def)
  show "client_text (JInt i) = int_str i"
  proof -
    have "concat (map ascii_escape (digits10 n)) = digits10 n" for n
      by (rule concat_ascii_escape_ascii) (auto dest: d)
    then show ?thesis by (simp add: client_text_def int_str_def ascii_escape_def)
  qed
  show "client_text (JStr s) = 34 # concat (map cesc s) @ [34]"
    by (simp add: client_text_def quote_str_def ascii_escape_def concat_map_concat comp_def)
  show "client_text (JList xs) = 91 # join_with [44] (map client_text xs) @ [93]"
    unfolding client_text_def [of "JList xs"]
    by (simp add: ascii_escape_def concat_map_join_with comp_def client_text_def [symmetric])
  show "client_text (JObj kvs) =
     123 # join_with [44] (map (\<lambda>kv. (34 # concat (map cesc (fst kv)) @ [34]) @ 58 # client_text (snd kv)) kvs) @ [125]"
    unfolding client_text_def [of "JObj kvs"]
    by (simp add: ascii_escape_def concat_map_join_with comp_def quote_str_def
                  concat_map_concat split_beta client_text_def [symmetric])
qed

lemma digits10_ne [simp]: "digits10 n \<noteq> []"
  by (subst digits10.simps) simp

lemma digits10_is_digit: "c \<in> set (digits10 n) \<Longrightarrow> is_digit c"
  using digits10_digits [of c n] by (simp add: is_digit_def)

lemma digits10_hd: "0 < n \<Longrightarrow> hd (digits10 n) \<noteq> 48"
proof (induction n rule: digits10.induct)
  case (1 n)
  show ?case
  proof (cases "n < 10")
    case True
    then show ?thesis using "1.prems" by (subst digits10.simps) simp
  next
    case False
    then have "0 < n div 10" by simp
    with "1.IH" False show ?thesis by (subst digits10.simps) simp
  qed
qed

lemma digits10_zero: "hd (digits10 n) = 48 \<Longrightarrow> digits10 n = [48]"
  using digits10_hd [of n] by (cases "n = 0") (simp_all add: digits10.simps)

lemma digits_val_append: "digits_val (xs @ ys) = digits_val xs * 10 ^ length ys + digits_val ys"
proof (induction ys rule: rev_induct)
  case Nil
  then show ?case by (simp add: digits_val_def)
next
  case (snoc y ys)
  then show ?case by (simp add: digits_val_def algebra_simps)
qed

lemma digits_val_digits10 [simp]: "digits_val (digits10 n) = n"
proof (induction n rule: digits10.induct)
  case (1 n)
  then show ?case by (subst digits10.simps) (simp add: digits_val_append digits_val_def)
qed

lemma takeWhile_digits_after:
  "\<forall>c\<in>set ds. is_digit c \<Longrightarrow> after_ok post \<Longrightarrow> takeWhile is_digit (ds @ post) = ds"
  by (cases post) (auto simp: after_ok_def is_digit_def takeWhile_append2)

lemma number_end_after:
  assumes "after_ok (drop j s)"
  shows "number_end s j = (j, False)"
proof -
  have "length s \<le> j \<or> (s ! j \<in> {44, 58, 93, 125})"
    using assms by (cases "drop j s") (auto simp: after_ok_def dest: nth_via_drop)
  then show ?thesis by (auto simp: number_end_def Let_def)
qed

lemma int_str_abs: "int_str i = (if i < 0 then [45] else []) @ digits10 (nat \<bar>i\<bar>)"
  by (simp add: int_str_def)

lemma match_number_int:
  assumes b: "length (digits10 (nat \<bar>i\<bar>)) \<le> 4300" and a: "after_ok post"
    and s: "s = pre @ int_str i @ post"
  shows "match_number s (length pre) = Done (JInt i) (length pre + length (int_str i))"
proof -
  let ?ds = "digits10 (nat \<bar>i\<bar>)" and ?p = "length pre"
  let ?j0 = "?p + (if i < 0 then 1 else 0)"
  have dig: "\<forall>c\<in>set ?ds. is_digit c" using digits10_is_digit by blast
  have hd45: "hd ?ds \<noteq> 45" using dig by (cases ?ds) (auto simp: is_digit_def)
  have sp: "s ! ?p = 45 \<longleftrightarrow> i < 0"
    using hd45 s by (cases ?ds) (auto simp: int_str_abs nth_append)
  have dj0: "drop ?j0 s = ?ds @ post" using s by (simp add: int_str_abs)
  have j0s: "?j0 < length s" using dj0 by (metis Cons_nth_drop_Suc append_is_Nil_conv digits10_ne drop_all leI list.simps(3))
  have sj0: "s ! ?j0 = hd ?ds" using dj0 j0s by (metis digits10_ne hd_append2 hd_drop_conv_nth)
  have j1: "(if 49 \<le> s ! ?j0 \<and> s ! ?j0 \<le> 57 then Suc ?j0 + run_digits s (Suc ?j0)
             else Suc ?j0) = ?p + length (int_str i)"
  proof (cases "hd ?ds = 48")
    case True
    then show ?thesis using digits10_zero [OF True] sj0 by (simp add: int_str_abs)
  next
    case False
    have "drop (Suc ?j0) s = tl ?ds @ post" using dj0 by (metis digits10_ne drop_Suc tl_append2 tl_drop)
    moreover have "\<forall>c\<in>set (tl ?ds). is_digit c" using dig by (simp add: list.set_sel(2))
    ultimately have "run_digits s (Suc ?j0) = length ?ds - 1"
      using takeWhile_digits_after [OF _ a] by (simp add: run_digits_def)
    moreover have "49 \<le> s ! ?j0 \<and> s ! ?j0 \<le> 57"
      using False sj0 dig by (cases ?ds) (auto simp: is_digit_def)
    ultimately show ?thesis by (simp add: int_str_abs)
  qed
  have ne: "number_end s (?p + length (int_str i)) = (?p + length (int_str i), False)"
    by (rule number_end_after) (simp add: s a)
  have lit: "take (length (int_str i)) (drop ?p s) = int_str i" using s by simp
  have dw: "dropWhile (\<lambda>c. c = 45) (int_str i) = ?ds"
    using hd45 by (cases ?ds) (auto simp: int_str_abs)
  have d0: "s ! ?j0 = 48 \<or> (49 \<le> s ! ?j0 \<and> s ! ?j0 \<le> 57)"
    using sj0 dig by (cases ?ds) (auto simp: is_digit_def)
  have j0eq: "(if s ! ?p = 45 then Suc ?p else ?p) = ?j0" using sp by simp
  have "match_number s ?p = number_tail s ?p
          (if 49 \<le> s ! ?j0 \<and> s ! ?j0 \<le> 57 then Suc ?j0 + run_digits s (Suc ?j0) else Suc ?j0)"
    using d0 j0s unfolding match_number_def Let_def j0eq by auto
  also have "\<dots> = number_tail s ?p (?p + length (int_str i))" by (simp only: j1)
  also have "\<dots> = Done (JInt ((if s ! ?p = 45 then -1 else 1) * int (digits_val ?ds))) (?p + length (int_str i))"
    using b by (simp add: number_tail_def ne lit dw Let_def)
  also have "\<dots> = Done (JInt i) (?p + length (int_str i))" using sp by simp
  finally show ?thesis .
qed

section \<open>Arrays and objects\<close>

lemma skip_ws_stop: "(k < length s \<Longrightarrow> \<not> is_ws (s ! k)) \<Longrightarrow> skip_ws s k = k"
  by (cases "k < length s") (simp_all add: skip_ws_def Cons_nth_drop_Suc [symmetric])

lemma scan_then_Done_eq [simp]: "scan_then (Done v j) g = g v j"
  by (simp add: scan_then_def)

lemma scan_then_NoFuel_eq [simp]: "scan_then NoFuel g = NoFuel"
  by (simp add: scan_then_def)

lemma client_text_start:
  "json_plain j \<Longrightarrow> client_text j \<noteq> [] \<and> hd (client_text j) \<in> {34, 45, 91, 102, 110, 116, 123} \<union> {48..57}"
proof (cases j)
  case (JInt i)
  then show ?thesis
    using digits10_digits [of "hd (digits10 (nat \<bar>i\<bar>))" "nat \<bar>i\<bar>"]
    by (auto simp: client_text_simps int_str_abs)
qed (auto simp: client_text_simps py_def)

lemma client_text_start_ws:
  "json_plain j \<Longrightarrow> client_text j \<noteq> [] \<and> \<not> is_ws (hd (client_text j)) \<and> hd (client_text j) \<notin> {93, 125}"
  using client_text_start [of j] by (auto simp: is_ws_def)

lemma join_with_Cons_hd: "y \<noteq> [] \<Longrightarrow> join_with sep (y # ys) \<noteq> [] \<and> join_with sep (y # ys) ! 0 = hd y"
  by (cases ys) (auto simp: hd_conv_nth nth_append)

lemma parse_array_client:
  assumes "\<And>x pre post f. x \<in> set xs \<Longrightarrow> after_ok post \<Longrightarrow>
             scan_once f (pre @ client_text x @ post) (length pre) \<noteq> NoFuel \<Longrightarrow>
             scan_once f (pre @ client_text x @ post) (length pre) = Done x (length pre + length (client_text x))"
    and "list_all json_plain xs" "xs \<noteq> []"
    and "parse_array f (pre @ join_with [44] (map client_text xs) @ 93 # post) (length pre) acc \<noteq> NoFuel"
  shows "parse_array f (pre @ join_with [44] (map client_text xs) @ 93 # post) (length pre) acc
           = Done (JList (acc @ xs)) (length pre + length (join_with [44] (map client_text xs)) + 1)"
  using assms
proof (induction xs arbitrary: pre acc f)
  case Nil
  then show ?case by simp
next
  case (Cons x xs)
  obtain f' where f: "f = Suc f'" using Cons.prems(4) by (cases f) auto
  define rest where "rest = (if xs = [] then 93 # post else 44 # join_with [44] (map client_text xs) @ 93 # post)"
  have eq: "join_with [44] (map client_text (x # xs)) @ 93 # post = client_text x @ rest"
    by (cases xs) (simp_all add: rest_def)
  let ?s = "pre @ client_text x @ rest" and ?k = "length pre + length (client_text x)"
  have p4: "parse_array f ?s (length pre) acc \<noteq> NoFuel" using Cons.prems(4) [unfolded eq] .
  have nf: "scan_once f' ?s (length pre) \<noteq> NoFuel"
  proof
    assume "scan_once f' ?s (length pre) = NoFuel"
    with p4 show False by (simp add: f)
  qed
  have sx: "scan_once f' ?s (length pre) = Done x ?k"
    using Cons.prems(1) [where pre = pre and post = rest and f = f'] nf by (simp add: rest_def after_ok_def)
  have k: "skip_ws ?s ?k = ?k" by (rule skip_ws_stop) (simp add: rest_def nth_append is_ws_def)
  show ?case
  proof (cases "xs = []")
    case True
    then show ?thesis using sx k by (simp add: f rest_def nth_append Let_def)
  next
    case False
    have pl: "json_plain (hd xs)" using False Cons.prems(2) by (cases xs) auto
    have k2: "skip_ws ?s (Suc ?k) = Suc ?k"
      using False client_text_start_ws [OF pl] join_with_Cons_hd [of "client_text (hd xs)" "[44]" "map client_text (tl xs)"]
      by (intro skip_ws_stop) (cases xs; simp add: rest_def nth_append)
    have step: "parse_array f ?s (length pre) acc = parse_array f' ?s (Suc ?k) (acc @ [x])"
      using sx k k2 False by (simp add: f rest_def nth_append Let_def)
    have s2: "?s = (pre @ client_text x @ [44]) @ join_with [44] (map client_text xs) @ 93 # post"
      using False by (simp add: rest_def)
    have "parse_array f' ?s (Suc ?k) (acc @ [x])
            = Done (JList ((acc @ [x]) @ xs)) (Suc ?k + length (join_with [44] (map client_text xs)) + 1)"
    proof -
      have "parse_array f' ?s (Suc ?k) (acc @ [x]) \<noteq> NoFuel" using p4 step by simp
      then have "parse_array f' ((pre @ client_text x @ [44]) @ join_with [44] (map client_text xs) @ 93 # post)
                   (length (pre @ client_text x @ [44])) (acc @ [x]) \<noteq> NoFuel"
        using s2 by simp
      then show ?thesis
        using Cons.IH [where pre = "pre @ client_text x @ [44]" and f = f' and acc = "acc @ [x]"] Cons.prems(1,2) False s2
        by simp
    qed
    then show ?thesis using step eq False by (simp add: rest_def)
  qed
qed

lemma dict_insert_new: "k \<notin> fst ` set d \<Longrightarrow> dict_insert k v d = d @ [(k, v)]"
  by (induction d) auto

lemma py_dict_foldl_distinct:
  "distinct (map fst (d @ kvs)) \<Longrightarrow> foldl (\<lambda>d kv. dict_insert (fst kv) (snd kv) d) d kvs = d @ kvs"
  by (induction kvs arbitrary: d) (auto simp: dict_insert_new)

lemma py_dict_distinct: "distinct (map fst kvs) \<Longrightarrow> py_dict kvs = kvs"
  using py_dict_foldl_distinct [of "[]" kvs] by (simp add: py_dict_def)

lemma parse_object_client:
  assumes "\<And>kv pre post f. kv \<in> set kvs \<Longrightarrow> after_ok post \<Longrightarrow>
             scan_once f (pre @ client_text (snd kv) @ post) (length pre) \<noteq> NoFuel \<Longrightarrow>
             scan_once f (pre @ client_text (snd kv) @ post) (length pre) = Done (snd kv) (length pre + length (client_text (snd kv)))"
    and "list_all (\<lambda>kv. valid_pystr (fst kv) \<and> no_pair (fst kv) \<and> json_plain (snd kv)) kvs" "kvs \<noteq> []"
    and "parse_object f (pre @ join_with [44] (map (\<lambda>kv. (34 # concat (map cesc (fst kv)) @ [34]) @ 58 # client_text (snd kv)) kvs) @ 125 # post) (length pre) acc \<noteq> NoFuel"
  shows "parse_object f (pre @ join_with [44] (map (\<lambda>kv. (34 # concat (map cesc (fst kv)) @ [34]) @ 58 # client_text (snd kv)) kvs) @ 125 # post) (length pre) acc
           = Done (JObj (py_dict (acc @ kvs))) (length pre + length (join_with [44] (map (\<lambda>kv. (34 # concat (map cesc (fst kv)) @ [34]) @ 58 # client_text (snd kv)) kvs)) + 1)"
  using assms
proof (induction kvs arbitrary: pre acc f)
  case Nil
  then show ?case by simp
next
  case (Cons kv kvs)
  let ?pt = "\<lambda>kv. (34 # concat (map cesc (fst kv)) @ [34]) @ 58 # client_text (snd kv)"
  obtain k v where kv: "kv = (k, v)" by (cases kv)
  obtain f' where f: "f = Suc f'" using Cons.prems(4) by (cases f) auto
  let ?ks = "concat (map cesc k)"
  have kok: "list_all valid_codepoint k" "no_pair k" and pl: "json_plain v"
    using Cons.prems(2) by (simp_all add: kv valid_pystr_def)
  define rest where "rest = (if kvs = [] then 125 # post else 44 # join_with [44] (map ?pt kvs) @ 125 # post)"
  have eq: "join_with [44] (map ?pt (kv # kvs)) @ 125 # post = 34 # ?ks @ 34 # 58 # client_text v @ rest"
    by (cases kvs) (simp_all add: rest_def kv)
  let ?s = "pre @ 34 # ?ks @ 34 # 58 # client_text v @ rest"
  let ?p = "length pre"
  let ?q = "length pre + length ?ks + 2"
  let ?e = "Suc ?q + length (client_text v)"
  have p4: "parse_object f ?s ?p acc \<noteq> NoFuel" using Cons.prems(4) [unfolded eq] .
  have str: "scanstr ?s ?p (Suc ?p) [] = Done k ?q"
    using scanstr_client [OF kok, of "pre @ [34]" "58 # client_text v @ rest" ?p "[]"] by simp
  have colon: "skip_ws ?s ?q = ?q" "?s ! ?q = 58" "?q < length ?s"
    by (auto intro: skip_ws_stop simp: nth_append is_ws_def)
  have vstart: "skip_ws ?s (Suc ?q) = Suc ?q"
    using client_text_start_ws [OF pl] by (intro skip_ws_stop) (auto simp: nth_append hd_conv_nth)
  have nf: "scan_once f' ?s (Suc ?q) \<noteq> NoFuel"
  proof
    assume "scan_once f' ?s (Suc ?q) = NoFuel"
    with p4 str colon vstart show False by (simp add: f Let_def nth_append)
  qed
  have ra: "after_ok rest" by (simp add: rest_def after_ok_def)
  have val: "scan_once f' ?s (Suc ?q) = Done v ?e"
    using Cons.prems(1) [where kv = kv and pre = "pre @ 34 # ?ks @ [34, 58]" and post = rest and f = f'] nf ra
    by (simp add: kv)
  have e: "skip_ws ?s ?e = ?e"
    by (rule skip_ws_stop) (simp add: rest_def nth_append is_ws_def)
  have hp: "?p < length ?s" "?s ! ?p = 34" by simp_all
  have step: "parse_object f ?s ?p acc
      = (let n = ?e in
         if n < length ?s \<and> ?s ! n = 125 then Done (JObj (py_dict (acc @ [(k, v)]))) (Suc n)
         else if length ?s \<le> n \<or> ?s ! n \<noteq> 44 then Fail msg_comma n
         else parse_object f' ?s (skip_ws ?s (Suc n)) (acc @ [(k, v)]))"
    using hp str colon vstart val e by (simp add: f)
  show ?case
  proof (cases "kvs = []")
    case True
    then show ?thesis using step eq by (simp add: kv rest_def nth_append Let_def)
  next
    case False
    have e2: "skip_ws ?s (Suc ?e) = Suc ?e"
      using False join_with_Cons_hd [of "?pt (hd kvs)" "[44]" "map ?pt (tl kvs)"]
      by (intro skip_ws_stop) (cases kvs; simp add: rest_def nth_append is_ws_def)
    have step2: "parse_object f ?s ?p acc = parse_object f' ?s (Suc ?e) (acc @ [(k, v)])"
      using step e2 False by (simp add: rest_def nth_append Let_def)
    have s2: "?s = (pre @ ?pt kv @ [44]) @ join_with [44] (map ?pt kvs) @ 125 # post"
      using False by (simp add: rest_def kv)
    have "parse_object f' ?s (Suc ?e) (acc @ [kv])
            = Done (JObj (py_dict ((acc @ [kv]) @ kvs))) (Suc ?e + length (join_with [44] (map ?pt kvs)) + 1)"
    proof -
      have "parse_object f' ?s (Suc ?e) (acc @ [kv]) \<noteq> NoFuel" using p4 step2 kv by simp
      then have "parse_object f' ((pre @ ?pt kv @ [44]) @ join_with [44] (map ?pt kvs) @ 125 # post)
                   (length (pre @ ?pt kv @ [44])) (acc @ [kv]) \<noteq> NoFuel"
        using s2 kv by (simp add: add.assoc)
      then show ?thesis
        using Cons.IH [where pre = "pre @ ?pt kv @ [44]" and f = f' and acc = "acc @ [kv]"] Cons.prems(1,2) False s2 kv
        by (simp add: add.assoc)
    qed
    then show ?thesis using step2 eq False kv by (simp add: rest_def add.assoc)
  qed
qed

section \<open>Values, text and bytes\<close>

lemma take_drop_nth: "take k (drop i s) = lit \<Longrightarrow> j < length lit \<Longrightarrow> s ! (i + j) = lit ! j"
  by (auto simp: nth_drop)

lemma scan_once_number:
  assumes "i < length s" "is_digit (s ! i) \<or> (s ! i = 45 \<and> Suc i < length s \<and> is_digit (s ! Suc i))"
  shows "scan_once (Suc f) s i = match_number s i"
proof -
  have h0: "\<And>k lit. take k (drop i s) = lit \<Longrightarrow> lit \<noteq> [] \<Longrightarrow> lit ! 0 = s ! i"
    using take_drop_nth [of _ i s _ 0] by auto
  have h1: "\<And>k lit. take k (drop i s) = lit \<Longrightarrow> 1 < length lit \<Longrightarrow> lit ! 1 = s ! Suc i"
    using take_drop_nth [of _ i s _ 1] by auto
  have c: "s ! i \<noteq> 34" "s ! i \<noteq> 123" "s ! i \<noteq> 91" using assms(2) by (auto simp: is_digit_def)
  have l1: "take 4 (drop i s) \<noteq> py ''null''" using h0 [of 4] assms(2) by (force simp: py_def is_digit_def)
  have l2: "take 4 (drop i s) \<noteq> py ''true''" using h0 [of 4] assms(2) by (force simp: py_def is_digit_def)
  have l3: "take 5 (drop i s) \<noteq> py ''false''" using h0 [of 5] assms(2) by (force simp: py_def is_digit_def)
  have l4: "take 3 (drop i s) \<noteq> py ''NaN''" using h0 [of 3] assms(2) by (force simp: py_def is_digit_def)
  have l5: "take 8 (drop i s) \<noteq> py ''Infinity''" using h0 [of 8] assms(2) by (force simp: py_def is_digit_def)
  have l6: "take 9 (drop i s) \<noteq> py ''-Infinity''" using h0 [of 9] h1 [of 9] assms(2) by (force simp: py_def is_digit_def)
  show ?thesis using assms(1) c l1 l2 l3 l4 l5 l6 by simp
qed


lemma scan_once_client:
  "json_plain j \<Longrightarrow> after_ok post \<Longrightarrow>
   scan_once f (pre @ client_text j @ post) (length pre) \<noteq> NoFuel \<Longrightarrow>
   scan_once f (pre @ client_text j @ post) (length pre) = Done j (length pre + length (client_text j))"
proof (induction j arbitrary: pre post f)
  case JNull
  then obtain f' where "f = Suc f'" by (cases f) auto
  then show ?case by (simp add: client_text_simps py_def)
next
  case (JBool b)
  then obtain f' where "f = Suc f'" by (cases f) auto
  then show ?case by (cases b) (simp_all add: client_text_simps py_def)
next
  case (JInt i)
  then obtain f' where f: "f = Suc f'" by (cases f) auto
  obtain d ds where dd: "digits10 (nat \<bar>i\<bar>) = d # ds" by (cases "digits10 (nat \<bar>i\<bar>)") auto
  have d: "is_digit d" using digits10_is_digit [of d "nat \<bar>i\<bar>"] dd by simp
  have istr: "int_str i = (if i < 0 then [45] else []) @ d # ds" by (simp only: int_str_abs dd)
  let ?s = "pre @ int_str i @ post"
  have "is_digit (?s ! length pre) \<or> (?s ! length pre = 45 \<and> Suc (length pre) < length ?s \<and> is_digit (?s ! Suc (length pre)))"
    using d by (cases "i < 0") (simp_all add: istr nth_append is_digit_def)
  moreover have "length pre < length ?s" by (simp add: istr)
  ultimately have "scan_once f ?s (length pre) = match_number ?s (length pre)"
    unfolding f by (intro scan_once_number)
  also have "\<dots> = Done (JInt i) (length pre + length (int_str i))"
    using JInt.prems(1,2) by (intro match_number_int) simp_all
  finally show ?case by (simp add: client_text_simps)
next
  case (JFloat x)
  then show ?case by simp
next
  case (JStr cs)
  then obtain f' where f: "f = Suc f'" by (cases f) auto
  have "list_all valid_codepoint cs" "no_pair cs" using JStr.prems(1) by (simp_all add: valid_pystr_def)
  from scanstr_client [OF this, of "pre @ [34]" post "length pre" "[]"]
  show ?case by (simp add: f client_text_simps)
next
  case (JList xs)
  then obtain f' where f: "f = Suc f'" by (cases f) auto
  show ?case
  proof (cases xs)
    case Nil
    then show ?thesis by (simp add: f client_text_simps skip_ws_def is_ws_def nth_append)
  next
    case (Cons y ys)
    let ?J = "join_with [44] (map client_text xs)"
    let ?s = "pre @ client_text (JList xs) @ post"
    have py: "json_plain y" using JList.prems(1) Cons by simp
    have hdj: "?J \<noteq> [] \<and> ?J ! 0 = hd (client_text y)"
      using join_with_Cons_hd [of "client_text y" "[44]" "map client_text ys"] client_text_start_ws [OF py] Cons
      by simp
    have ws: "skip_ws ?s (Suc (length pre)) = Suc (length pre)"
      using hdj client_text_start_ws [OF py]
      by (intro skip_ws_stop) (simp add: client_text_simps nth_append)
    have sx: "?s = (pre @ [91]) @ ?J @ 93 # post" by (simp add: client_text_simps)
    have step: "scan_once f ?s (length pre) = parse_array f' ?s (Suc (length pre)) []"
      using ws hdj client_text_start_ws [OF py] by (simp add: f client_text_simps nth_append Let_def)
    have H: "\<And>x pre post f. x \<in> set xs \<Longrightarrow> after_ok post \<Longrightarrow>
               scan_once f (pre @ client_text x @ post) (length pre) \<noteq> NoFuel \<Longrightarrow>
               scan_once f (pre @ client_text x @ post) (length pre) = Done x (length pre + length (client_text x))"
      using JList.IH JList.prems(1) by (simp add: list_all_iff)
    have "parse_array f' ((pre @ [91]) @ ?J @ 93 # post) (length (pre @ [91])) [] \<noteq> NoFuel"
      using JList.prems(3) step sx by simp
    from parse_array_client [OF H _ _ this] JList.prems(1) Cons
    have "parse_array f' ?s (Suc (length pre)) [] = Done (JList xs) (length pre + length ?J + 2)"
      using sx by simp
    then show ?thesis using step by (simp add: client_text_simps)
  qed
next
  case (JObj kvs)
  then obtain f' where f: "f = Suc f'" by (cases f) auto
  let ?pt = "\<lambda>kv. (34 # concat (map cesc (fst kv)) @ [34]) @ 58 # client_text (snd kv)"
  show ?case
  proof (cases kvs)
    case Nil
    then show ?thesis by (simp add: f client_text_simps skip_ws_def is_ws_def nth_append)
  next
    case (Cons kv kvs')
    let ?J = "join_with [44] (map ?pt kvs)"
    let ?s = "pre @ client_text (JObj kvs) @ post"
    have hdj: "?J \<noteq> [] \<and> ?J ! 0 = 34"
      using join_with_Cons_hd [of "?pt kv" "[44]" "map ?pt kvs'"] Cons by simp
    have ws: "skip_ws ?s (Suc (length pre)) = Suc (length pre)"
      using hdj by (intro skip_ws_stop) (simp add: client_text_simps nth_append is_ws_def)
    have sx: "?s = (pre @ [123]) @ ?J @ 125 # post" by (simp add: client_text_simps)
    have step: "scan_once f ?s (length pre) = parse_object f' ?s (Suc (length pre)) []"
      using ws hdj by (simp add: f client_text_simps nth_append Let_def)
    have H: "\<And>kv pre post f. kv \<in> set kvs \<Longrightarrow> after_ok post \<Longrightarrow>
               scan_once f (pre @ client_text (snd kv) @ post) (length pre) \<noteq> NoFuel \<Longrightarrow>
               scan_once f (pre @ client_text (snd kv) @ post) (length pre) = Done (snd kv) (length pre + length (client_text (snd kv)))"
    proof -
      fix kv pre post f
      assume "kv \<in> set kvs" "after_ok post" "scan_once f (pre @ client_text (snd kv) @ post) (length pre) \<noteq> NoFuel"
      moreover have "snd kv \<in> Basic_BNFs.snds kv" by (cases kv) simp
      moreover have "json_plain (snd kv)" using JObj.prems(1) \<open>kv \<in> set kvs\<close> by (simp add: list_all_iff)
      ultimately show "scan_once f (pre @ client_text (snd kv) @ post) (length pre) = Done (snd kv) (length pre + length (client_text (snd kv)))"
        using JObj.IH by blast
    qed
    have "parse_object f' ((pre @ [123]) @ ?J @ 125 # post) (length (pre @ [123])) [] \<noteq> NoFuel"
      using JObj.prems(3) step sx by simp
    from parse_object_client [OF H _ _ this] JObj.prems(1) Cons
    have "parse_object f' ?s (Suc (length pre)) [] = Done (JObj (py_dict kvs)) (length pre + length ?J + 2)"
      using sx by simp
    then show ?thesis using step JObj.prems(1) by (simp add: client_text_simps py_dict_distinct)
  qed
qed

lemma json_decode_client:
  assumes "json_plain j"
  shows "json_decode (client_text j) = Done j (length (client_text j))"
proof -
  let ?s = "client_text j"
  have z: "skip_ws ?s 0 = 0"
    using client_text_start_ws [OF assms] by (intro skip_ws_stop) (auto simp: hd_conv_nth)
  define F where "F = 2 * length ?s + 2"
  have "2 * (length ?s - 0) + 2 \<le> F" by (simp add: F_def)
  then have nf: "scan_once F ?s 0 \<noteq> NoFuel" using scan_fuel [of ?s F] by blast
  have d: "scan_once F ?s 0 = Done j (length ?s)"
    using scan_once_client [OF assms, where pre = "[]" and post = "[]" and f = F] nf by (simp add: after_ok_def)
  show ?thesis unfolding json_decode_def F_def [symmetric] z using d by (simp add: skip_ws_def)
qed

lemma hex4_printable: "c \<in> set (hex4 x) \<Longrightarrow> 48 \<le> c \<and> c < 0x7F"
  by (auto simp: hex4_def Let_def)

lemma cesc_printable: "x \<in> set (cesc c) \<Longrightarrow> 32 \<le> x \<and> x < 0x7F"
proof -
  assume x: "x \<in> set (cesc c)"
  consider "c = 34 \<or> c = 92" | "c \<in> {8, 9, 10, 12, 13}" | "c < 32" "c \<notin> {8, 9, 10, 12, 13}"
    | "32 \<le> c" "c < 0x7F" "c \<noteq> 34" "c \<noteq> 92" | "0x7F \<le> c" "c < 0x10000" | "0x10000 \<le> c"
    by linarith
  then show ?thesis
  proof cases
    case 1
    then show ?thesis using x cesc_simple(1) [OF 1] by auto
  next
    case 2
    then show ?thesis using x by (auto simp: escape_char_def ascii_escape_def)
  next
    case 3
    then show ?thesis using x cesc_control [OF 3] by (auto dest: hex4_printable)
  next
    case 4
    then show ?thesis using x cesc_plain [OF 4] by auto
  next
    case 5
    then show ?thesis using x cesc_bmp [OF 5] by (auto dest: hex4_printable)
  next
    case 6
    then show ?thesis using x cesc_astral [OF 6] by (auto dest: hex4_printable)
  qed
qed

lemma set_join_with: "c \<in> set (join_with sep xs) \<Longrightarrow> c \<in> set sep \<or> (\<exists>x\<in>set xs. c \<in> set x)"
  by (induction sep xs rule: join_with.induct) auto

lemma client_text_printable: "json_plain j \<Longrightarrow> c \<in> set (client_text j) \<Longrightarrow> 32 \<le> c \<and> c < 0x7F"
proof (induction j arbitrary: c)
  case JNull
  then show ?case by (auto simp: client_text_simps py_def)
next
  case (JBool b)
  then show ?case by (cases b) (auto simp: client_text_simps py_def)
next
  case (JInt i)
  then have "c = 45 \<or> c \<in> set (digits10 (nat \<bar>i\<bar>))"
    unfolding client_text_simps int_str_abs by (auto split: if_splits)
  then show ?case using digits10_is_digit [of c "nat \<bar>i\<bar>"] by (auto simp: is_digit_def)
next
  case (JFloat x)
  then show ?case by simp
next
  case (JStr s)
  then show ?case using cesc_printable by (auto simp: client_text_simps)
next
  case (JList xs)
  then show ?case using set_join_with [of c "[44]" "map client_text xs"]
    by (auto simp: client_text_simps list_all_iff)
next
  case (JObj kvs)
  let ?pt = "\<lambda>kv. (34 # concat (map cesc (fst kv)) @ [34]) @ 58 # client_text (snd kv)"
  have "c \<in> {123, 125, 44} \<or> (\<exists>kv\<in>set kvs. c \<in> set (?pt kv))"
    using JObj.prems(2) set_join_with [of c "[44]" "map ?pt kvs"] by (auto simp: client_text_simps)
  moreover have "32 \<le> c \<and> c < 0x7F" if kv: "kv \<in> set kvs" and c: "c \<in> set (?pt kv)" for kv
  proof -
    have "snd kv \<in> Basic_BNFs.snds kv" by (cases kv) simp
    moreover have "json_plain (snd kv)" using JObj.prems(1) kv by (simp add: list_all_iff)
    ultimately have v: "c \<in> set (client_text (snd kv)) \<Longrightarrow> 32 \<le> c \<and> c < 0x7F" using JObj.IH kv by blast
    from c have "c \<in> {34, 58} \<or> (\<exists>x\<in>set (fst kv). c \<in> set (cesc x)) \<or> c \<in> set (client_text (snd kv))"
      by auto
    then show ?thesis using v cesc_printable by auto
  qed
  ultimately show ?case by auto
qed

lemma detect_encoding_ascii: "\<forall>c\<in>set b. 0 < c \<and> c < 0x80 \<Longrightarrow> detect_encoding b = UTF8"
  by (cases b; cases "tl b") (auto simp: detect_encoding_def)

lemma utf8_dec_ascii: "\<forall>c\<in>set b. c < 0x80 \<Longrightarrow> utf8_dec sp b = Some b"
  by (induction b) auto

lemma client_body_unat: "json_plain j \<Longrightarrow> map unat (client_body j) = client_text j"
proof -
  assume "json_plain j"
  then have "\<forall>c\<in>set (client_text j). unat (of_nat c :: byte) = c"
    using client_text_printable [of j] by (fastforce simp: unat_of_nat)
  then show ?thesis by (simp add: client_body_def map_idI)
qed

lemma client_body_roundtrip:
  "json_plain j \<Longrightarrow> json_loads (client_body j) = Some (Done j (length (client_body j)))"
proof -
  assume p: "json_plain j"
  have a: "\<forall>c\<in>set (client_text j). 0 < c \<and> c < 0x80" using client_text_printable [OF p] by fastforce
  have "decode_body (client_text j) = Some (client_text j)"
    using a by (simp add: decode_body_def detect_encoding_ascii utf8_dec_ascii)
  then show ?thesis
    using json_decode_client [OF p] unfolding json_loads_def client_body_unat [OF p]
    by (simp add: client_body_def)
qed

end
