(* ===== verification/RawRequest.thy ===== *)
theory RawRequest
  imports Service JsonClient
begin

text \<open>
  The service on the bytes a client sends. FastAPI's request handler
  (\<open>fastapi/routing.py\<close>, \<open>get_request_handler\<close>) reads the body of an endpoint that
  declares a body model before validating it: an empty body is no body; with no
  \<open>Content-Type\<close>, an empty one or a JSON media type the bytes go through \<open>json.loads\<close>
  (theory \<open>JsonParse\<close>), whose \<open>JSONDecodeError\<close> is a 422 \<open>json_invalid\<close> reply and any
  other exception a 400 \<open>HTTPException\<close>; with another media type the bytes themselves are
  the body, which the model refuses (\<open>model_attributes_type\<close>) and whose 422 reply echoes
  them decoded as UTF-8. The endpoints without a body never read it.
\<close>

section \<open>The media type\<close>

text \<open>\<open>email.message.Message.get_content_type\<close>: the part before the first \<open>;\<close>, stripped and
  lower-cased, or \<open>text/plain\<close> unless it holds exactly one \<open>/\<close>. The body is JSON when
  the main type is \<open>application\<close> and the subtype \<open>json\<close> or ends in \<open>+json\<close>.\<close>

definition content_type :: "pystr \<Rightarrow> pystr" where
  "content_type v =
     (let ct = lower (strip (takeWhile (\<lambda>c. c \<noteq> 59) v))
      in if length (filter (\<lambda>c. c = 47) ct) = 1 then ct else py ''text/plain'')"

definition json_media :: "pystr \<Rightarrow> bool" where
  "json_media v =
     (let ct = content_type v;
          main = takeWhile (\<lambda>c. c \<noteq> 47) ct;
          sub = drop 1 (dropWhile (\<lambda>c. c \<noteq> 47) ct)
      in main = py ''application'' \<and> (sub = py ''json'' \<or> take 5 (rev sub) = rev (py ''+json'')))"

definition body_json :: "(pystr \<times> pystr) list \<Rightarrow> bool" where
  "body_json hs =
     (case header (py ''content-type'') hs of None \<Rightarrow> True | Some v \<Rightarrow> v = [] \<or> json_media v)"

section \<open>Reading the body\<close>

text \<open>The error FastAPI builds from a \<open>JSONDecodeError\<close>: its position and message.\<close>

definition json_invalid :: "pystr \<Rightarrow> nat \<Rightarrow> json" where
  "json_invalid m p =
     JObj [(py ''type'', JStr (py ''json_invalid'')), (py ''loc'', JList [JStr (py ''body''), JInt (int p)]),
           (py ''msg'', JStr (py ''JSON decode error'')), (py ''input'', JObj []),
           (py ''ctx'', JObj [(py ''error'', JStr m)])]"

datatype body_read = BodyReply "http_response result" | BodyValue "json option" | BodyBytes "byte list"

definition read_body :: "(pystr \<times> pystr) list \<Rightarrow> byte list \<Rightarrow> body_read" where
  "read_body hs b =
     (if b = [] then BodyValue None
      else if body_json hs then
        (case json_loads b of
           Some (Done v _) \<Rightarrow> BodyValue (Some v)
         | Some (Fail m p) \<Rightarrow> BodyReply (json_response 422 (JObj [(py ''detail'', JList [json_invalid m p])]))
         | _ \<Rightarrow> BodyReply (http_error 400 (py ''There was an error parsing the body'') []))
      else BodyBytes b)"

text \<open>A body of bytes fails the model; the 422 reply's \<open>jsonable_encoder\<close> decodes it with
  \<open>bytes.decode()\<close>, whose \<open>UnicodeDecodeError\<close> escapes the exception handler.\<close>

definition bytes_reply :: "byte list \<Rightarrow> http_response result" where
  "bytes_reply b =
     (case utf8_dec False (map unat b) of
        None \<Rightarrow> Inl UnicodeDecodeError
      | Some t \<Rightarrow> validation_response [ModelAttributesType [py ''body''] (JStr t)])"

definition takes_body :: "endpoint \<Rightarrow> bool" where
  "takes_body e \<longleftrightarrow> e = Register \<or> e = Login \<or> e = Send"

section \<open>The application on raw requests\<close>

text \<open>A raw request is the request record, whose \<open>req_body\<close> the reading fills in, and the
  body's bytes.\<close>

definition call_raw ::
  "engine \<Rightarrow> pystr \<Rightarrow> endpoint \<Rightarrow> byte list \<Rightarrow> http_request \<Rightarrow> server \<Rightarrow> http_response result \<times> server" where
  "call_raw eng now e b req s =
     (if takes_body e then
        (case read_body (req_headers req) b of
           BodyReply r \<Rightarrow> (r, s)
         | BodyValue v \<Rightarrow> call_endpoint eng now e (req\<lparr>req_body := v\<rparr>) s
         | BodyBytes bs \<Rightarrow> (bytes_reply bs, s))
      else call_endpoint eng now e req s)"

definition inner_raw ::
  "engine \<Rightarrow> pystr \<Rightarrow> byte list \<Rightarrow> http_request \<Rightarrow> server \<Rightarrow> http_response result \<times> server" where
  "inner_raw eng now b req s =
     (case match_route (req_method req) (req_path req) of
        Full e \<Rightarrow> call_raw eng now e b req s
      | _ \<Rightarrow> inner_app eng now req s)"

definition asgi_raw :: "engine \<Rightarrow> pystr \<Rightarrow> byte list \<Rightarrow> http_request \<Rightarrow> server \<Rightarrow> http_response \<times> server" where
  "asgi_raw eng now b req s =
     (case cors_middleware app_cors (inner_raw eng now b) req s of
        (Inr r, s') \<Rightarrow> (r, s')
      | (Inl e, s') \<Rightarrow> (server_error_response, s'))"

section \<open>Properties\<close>

lemma cors_middleware_cong:
  assumes "app1 req s = app2 req' s" "req_headers req = req_headers req'" "req_method req = req_method req'"
  shows "cors_middleware c app1 req s = cors_middleware c app2 req' s"
  unfolding cors_middleware_def simple_response_def assms(1,2,3) ..

lemma call_endpoint_no_body:
  "\<not> takes_body e \<Longrightarrow> call_endpoint eng now e (req\<lparr>req_body := x\<rparr>) s = call_endpoint eng now e req s"
  by (cases e) (simp_all add: takes_body_def call_endpoint_def)

lemma client_body_ne: "json_plain j \<Longrightarrow> client_body j \<noteq> []"
  using client_text_start_ws [of j] by (simp add: client_body_def)

lemma read_body_client:
  "json_plain j \<Longrightarrow> body_json hs \<Longrightarrow> read_body hs (client_body j) = BodyValue (Some j)"
  by (simp add: read_body_def client_body_ne client_body_roundtrip)

lemma inner_raw_client:
  assumes "json_plain j" "body_json (req_headers req)"
  shows "inner_raw eng now (client_body j) req s = inner_app eng now (req\<lparr>req_body := Some j\<rparr>) s"
proof (cases "match_route (req_method req) (req_path req)")
  case (Full e)
  then show ?thesis
    using assms read_body_client [OF assms] call_endpoint_no_body [where e = e and req = req and x = "Some j"]
    by (simp add: inner_raw_def inner_app_def call_raw_def)
qed (simp_all add: inner_raw_def inner_app_def)

text \<open>For a body a Python client writes with \<open>json.dumps\<close>, sent with a JSON content type
  (or none), the application on the raw bytes replies and changes the store exactly as the
  application on the parsed body does: the properties of the service stated on
  \<open>asgi_app\<close> hold for the bytes on the wire.\<close>

lemma asgi_raw_client_body:
  "json_plain j \<Longrightarrow> body_json (req_headers req) \<Longrightarrow>
   asgi_raw eng now (client_body j) req s = asgi_app eng now (req\<lparr>req_body := Some j\<rparr>) s"
proof -
  assume "json_plain j" "body_json (req_headers req)"
  then have "inner_raw eng now (client_body j) req s = inner_app eng now (req\<lparr>req_body := Some j\<rparr>) s"
    by (rule inner_raw_client)
  then have "cors_middleware app_cors (inner_raw eng now (client_body j)) req s
               = cors_middleware app_cors (inner_app eng now) (req\<lparr>req_body := Some j\<rparr>) s"
    by (rule cors_middleware_cong) simp_all
  then show ?thesis by (simp only: asgi_raw_def asgi_app_def)
qed

lemma utf8_dec_strict_encodable: "utf8_dec False bs = Some t \<Longrightarrow> encodable t"
proof (induction False bs arbitrary: t rule: utf8_dec.induct)
  case 1
  then show ?case by (simp add: encodable_iff)
next
  case (2 b bs)
  show ?case
    using "2.prems" "2.hyps"
    by (auto simp: encodable_iff is_surrogate_def is_cont_def split: if_splits list.splits)
qed

lemma model_attributes_reply:
  "encodable t \<Longrightarrow>
   validation_response [ModelAttributesType [py ''body''] (JStr t)] =
     Inr \<lparr>status = 422, resp_headers = [],
          rbody = JsonBody (JObj [(py ''detail'', JList [verr_json (ModelAttributesType [py ''body''] (JStr t))])])\<rparr>"
  by (simp add: validation_response_def json_response_Inr verr_entry_def encodable_iff py_def is_surrogate_def)

lemma inner_raw_read:
  assumes "match_route (req_method req) (req_path req) = Full e" "takes_body e"
    and "read_body (req_headers req) b = BodyReply r"
  shows "inner_raw eng now b req s = (r, s)"
  using assms by (simp add: inner_raw_def call_raw_def)

lemma json_invalid_reply:
  assumes "json_decode t = Fail m p"
  shows "json_response 422 (JObj [(py ''detail'', JList [json_invalid m p])])
           = Inr \<lparr>status = 422, resp_headers = [], rbody = JsonBody (JObj [(py ''detail'', JList [json_invalid m p])])\<rparr>"
proof -
  have "encodable m" using json_decode_fail_msg [OF assms]
    by (auto simp: msg_value_def msg_extra_def msg_name_def msg_colon_def msg_comma_def
        msg_unterminated_def msg_escape_def msg_uescape_def msg_control_def py_def is_surrogate_def)
  then show ?thesis by (simp add: json_response_eq json_invalid_def py_def is_surrogate_def)
qed

text \<open>C30: a non-empty body that is not valid JSON, sent to an endpoint with a body model
  with a JSON content type (or none) and no \<open>Origin\<close>, is answered 422 with FastAPI's
  \<open>json_invalid\<close> error carrying the scanner's message and position, and the store is
  left as it was: malformed input is a client error, not a server error.\<close>

theorem asgi_raw_malformed_body:
  assumes "match_route (req_method req) (req_path req) = Full e" "takes_body e"
    and "body_json (req_headers req)" "header (py ''origin'') (req_headers req) = None"
    and "b \<noteq> []" "json_loads b = Some (Fail m p)"
  shows "asgi_raw eng now b req s =
           (\<lparr>status = 422, resp_headers = [],
             rbody = JsonBody (JObj [(py ''detail'', JList [json_invalid m p])])\<rparr>, s)"
proof -
  let ?R = "\<lparr>status = 422, resp_headers = [],
             rbody = JsonBody (JObj [(py ''detail'', JList [json_invalid m p])])\<rparr>"
  obtain t where "json_decode t = Fail m p" using assms(6) by (auto simp: json_loads_def)
  then have "read_body (req_headers req) b = BodyReply (Inr ?R)"
    using assms(3,5,6) json_invalid_reply by (simp add: read_body_def)
  then have "inner_raw eng now b req s = (Inr ?R, s)"
    using assms(1,2) by (simp add: inner_raw_def call_raw_def)
  then show ?thesis by (simp add: asgi_raw_def cors_middleware_def assms(4))
qed

theorem asgi_raw_malformed_body_witness:
  "json_loads (map of_nat ([123, 34] @ py ''username'' @ [34, 32, 34] @ py ''alice'' @ [34, 125])) = Some (Fail msg_colon 12)
   \<and> asgi_raw sqlite_engine (py ''t'') (map of_nat ([123, 34] @ py ''username'' @ [34, 32, 34] @ py ''alice'' @ [34, 125])) (\<lparr>req_method = py ''POST'', req_path = py ''/register'', req_query = [], req_headers = [(py ''content-type'', py ''application/json'')], req_body = None\<rparr>) initial_server
       = (\<lparr>status = 422, resp_headers = [],
           rbody = JsonBody (JObj [(py ''detail'', JList [json_invalid msg_colon 12])])\<rparr>, initial_server)"
proof -
  have l: "json_loads (map of_nat ([123, 34] @ py ''username'' @ [34, 32, 34] @ py ''alice'' @ [34, 125])) = Some (Fail msg_colon 12)"
    by code_simp
  have "asgi_raw sqlite_engine (py ''t'') (map of_nat ([123, 34] @ py ''username'' @ [34, 32, 34] @ py ''alice'' @ [34, 125])) (\<lparr>req_method = py ''POST'', req_path = py ''/register'', req_query = [], req_headers = [(py ''content-type'', py ''application/json'')], req_body = None\<rparr>) initial_server
       = (\<lparr>status = 422, resp_headers = [],
           rbody = JsonBody (JObj [(py ''detail'', JList [json_invalid msg_colon 12])])\<rparr>, initial_server)"
  proof (rule asgi_raw_malformed_body [where e = Register])
    show "match_route (req_method (\<lparr>req_method = py ''POST'', req_path = py ''/register'', req_query = [], req_headers = [(py ''content-type'', py ''application/json'')], req_body = None\<rparr>)) (req_path (\<lparr>req_method = py ''POST'', req_path = py ''/register'', req_query = [], req_headers = [(py ''content-type'', py ''application/json'')], req_body = None\<rparr>)) = Full Register"
      by (simp add: match_route_def routes_def py_def)
    show "body_json (req_headers (\<lparr>req_method = py ''POST'', req_path = py ''/register'', req_query = [], req_headers = [(py ''content-type'', py ''application/json'')], req_body = None\<rparr>))"
      by (simp add: body_json_def json_media_def content_type_def header_def py_def lower_def strip_def is_space_def)
  qed (rule l | simp add: takes_body_def header_def py_def)+
  with l show ?thesis by simp
qed

text \<open>C35: a non-empty body sent with a content type that is not JSON (\<open>text/plain\<close>, a form)
  to an endpoint with a body model, without \<open>Origin\<close>, never reaches the handler and
  changes nothing: it is answered 422 \<open>model_attributes_type\<close> echoing the body decoded as
  UTF-8, or 500 when the bytes are not UTF-8 (\<open>bytes.decode\<close> raises while the error is
  being encoded).\<close>

theorem asgi_raw_non_json_body:
  assumes "match_route (req_method req) (req_path req) = Full e" "takes_body e"
    and "\<not> body_json (req_headers req)" "header (py ''origin'') (req_headers req) = None" "b \<noteq> []"
  shows "asgi_raw eng now b req s =
    (case utf8_dec False (map unat b) of
       None \<Rightarrow> server_error_response
     | Some t \<Rightarrow> \<lparr>status = 422, resp_headers = [],
                 rbody = JsonBody (JObj [(py ''detail'', JList [verr_json (ModelAttributesType [py ''body''] (JStr t))])])\<rparr>,
     s)"
proof -
  have "inner_raw eng now b req s = (bytes_reply b, s)"
    using assms(1,2,3,5) by (simp add: inner_raw_def call_raw_def read_body_def)
  then show ?thesis
    using assms(4) model_attributes_reply [OF utf8_dec_strict_encodable]
    by (simp add: asgi_raw_def cors_middleware_def bytes_reply_def split: option.split)
qed

theorem asgi_raw_non_json_body_witness:
  "asgi_raw sqlite_engine (py ''t'') (map of_nat (py ''hi''))
     \<lparr>req_method = py ''POST'', req_path = py ''/login'', req_query = [],
      req_headers = [(py ''content-type'', py ''text/plain'')], req_body = None\<rparr> initial_server
   = (\<lparr>status = 422, resp_headers = [],
       rbody = JsonBody (JObj [(py ''detail'', JList [verr_json (ModelAttributesType [py ''body''] (JStr (py ''hi'')))])])\<rparr>,
      initial_server)"
proof -
  have "asgi_raw sqlite_engine (py ''t'') (map of_nat (py ''hi''))
     \<lparr>req_method = py ''POST'', req_path = py ''/login'', req_query = [],
      req_headers = [(py ''content-type'', py ''text/plain'')], req_body = None\<rparr> initial_server
   = (case utf8_dec False (map unat (map of_nat (py ''hi'') :: byte list)) of
       None \<Rightarrow> server_error_response
     | Some t \<Rightarrow> \<lparr>status = 422, resp_headers = [],
                 rbody = JsonBody (JObj [(py ''detail'', JList [verr_json (ModelAttributesType [py ''body''] (JStr t))])])\<rparr>,
     initial_server)"
  proof (rule asgi_raw_non_json_body [where e = Login])
    show "match_route (req_method \<lparr>req_method = py ''POST'', req_path = py ''/login'', req_query = [],
      req_headers = [(py ''content-type'', py ''text/plain'')], req_body = None\<rparr>)
      (req_path \<lparr>req_method = py ''POST'', req_path = py ''/login'', req_query = [],
      req_headers = [(py ''content-type'', py ''text/plain'')], req_body = None\<rparr>) = Full Login"
      by (simp add: match_route_def routes_def py_def)
    show "\<not> body_json (req_headers \<lparr>req_method = py ''POST'', req_path = py ''/login'', req_query = [],
      req_headers = [(py ''content-type'', py ''text/plain'')], req_body = None\<rparr>)"
      by (simp add: body_json_def json_media_def content_type_def header_def py_def lower_def strip_def is_space_def)
  qed (simp_all add: takes_body_def header_def py_def)
  then show ?thesis by (simp add: py_def)
qed

text \<open>C36: a non-empty body with a JSON content type (or none) that \<open>json.loads\<close> cannot
  decode (its bytes are not text in the detected encoding) or whose integer exceeds
  CPython's digit limit (\<open>ValueError\<close>), sent to an endpoint with a body model without
  \<open>Origin\<close>, is answered 400 \<open>{"detail": "There was an error parsing the body"}\<close> and the
  store is left as it was.\<close>

theorem asgi_raw_unparsable_body:
  assumes "match_route (req_method req) (req_path req) = Full e" "takes_body e"
    and "body_json (req_headers req)" "header (py ''origin'') (req_headers req) = None"
    and "b \<noteq> []" "json_loads b = None \<or> json_loads b = Some IntLimit"
  shows "asgi_raw eng now b req s =
           (\<lparr>status = 400, resp_headers = [],
             rbody = JsonBody (JObj [(py ''detail'', JStr (py ''There was an error parsing the body''))])\<rparr>, s)"
proof -
  have "http_error 400 (py ''There was an error parsing the body'') [] =
          Inr \<lparr>status = 400, resp_headers = [],
             rbody = JsonBody (JObj [(py ''detail'', JStr (py ''There was an error parsing the body''))])\<rparr>"
    by (simp add: http_error_def json_response_ascii py_def)
  moreover have "read_body (req_headers req) b = BodyReply (http_error 400 (py ''There was an error parsing the body'') [])"
    using assms(3,5,6) by (auto simp: read_body_def)
  ultimately have "inner_raw eng now b req s =
          (Inr \<lparr>status = 400, resp_headers = [],
             rbody = JsonBody (JObj [(py ''detail'', JStr (py ''There was an error parsing the body''))])\<rparr>, s)"
    using inner_raw_read [OF assms(1,2)] by simp
  then show ?thesis by (simp add: asgi_raw_def cors_middleware_def assms(4))
qed

theorem asgi_raw_unparsable_body_witness:
  "asgi_raw sqlite_engine (py ''t'') [0xFF]
     \<lparr>req_method = py ''POST'', req_path = py ''/register'', req_query = [],
      req_headers = [], req_body = None\<rparr> initial_server
   = (\<lparr>status = 400, resp_headers = [],
       rbody = JsonBody (JObj [(py ''detail'', JStr (py ''There was an error parsing the body''))])\<rparr>,
      initial_server)"
proof (rule asgi_raw_unparsable_body [where e = Register])
  show "match_route (req_method \<lparr>req_method = py ''POST'', req_path = py ''/register'', req_query = [],
      req_headers = [], req_body = None\<rparr>) (req_path \<lparr>req_method = py ''POST'', req_path = py ''/register'', req_query = [],
      req_headers = [], req_body = None\<rparr>) = Full Register"
    by (simp add: match_route_def routes_def py_def)
  show "json_loads [0xFF] = None \<or> json_loads [0xFF] = Some IntLimit"
    by (simp add: json_loads_def decode_body_def detect_encoding_def)
qed (simp_all add: takes_body_def header_def body_json_def)

end
