(* ===== verification/Spec2Isabelle.thy ===== *)
theory Spec2Isabelle
  imports Concurrency RawRequest
begin

text \<open>
  Verification development for the messaging backend \<open>src/server.py\<close> (FastAPI over one
  SQLite file). A client's request passes the server's middleware stack (the error
  middleware, the CORS middleware of lines 11--17, the router), FastAPI reads and validates
  its body or query, one of the five endpoints (lines 70--123) runs one SQL statement on
  the file, and the value it returns or the \<open>HTTPException\<close> it raises becomes a JSON
  reply. The store is the only state that outlives a request. One theory per component,
  leaves first:
  \<^item> \<open>Prelude\<close>: Python strings as code-point lists (\<open>pystr\<close>), bytes as \<open>8 word\<close>, the
    exceptions (\<open>exc\<close>), the error monad on \<open>exc + 'a\<close>, shared list lemmas.
  \<^item> \<open>Utf8\<close>: \<open>str.encode()\<close> (line 67 and the driver's binding of parameters), which
    raises exactly on strings holding a surrogate.
  \<^item> \<open>Sha256\<close>: \<open>hash_password\<close> (lines 66--67), SHA-256 after FIPS 180-4 on \<open>32 word\<close>
    values with the wrap-around of \<open>+\<close>, and the hex digest; the claims give the shape
    of the digest (64 lower-case hex digits) and when hashing raises. The digest's
    values are not compared with a reference implementation inside the development.
  \<^item> \<open>Store\<close>: \<open>get_db\<close>, \<open>init_db\<close> (lines 41--63), the tables, the four statements of the
    handlers with AUTOINCREMENT, and the row orders as contracts on the engine
    (\<open>scan_contract\<close>, \<open>order_by_contract\<close>) with the orders SQLite uses on this schema:
    the username index for line 99 (\<open>username_index_scan\<close>) and a stable sort for
    \<open>ORDER BY timestamp\<close>.
  \<^item> \<open>Handlers\<close>: \<open>register\<close>, \<open>login\<close>, \<open>get_users\<close>, \<open>send_message\<close>, \<open>get_messages\<close>
    statement by statement, with the connections each opens and closes; their results on
    every branch, the errors included, and the well-formedness of the file they preserve.
  \<^item> \<open>PyFloat\<close>: \<open>float()\<close> of a JSON number literal and \<open>repr\<close> of a double, on exact
    integer fractions, for the floats a request body can carry.
  \<^item> \<open>Http\<close>: JSON values, requests and replies, pydantic's validation errors, the
    rendering of \<open>JSONResponse\<close> and when it raises.
  \<^item> \<open>Cors\<close>: Starlette's \<open>CORSMiddleware\<close> with the configuration of lines 11--17.
  \<^item> \<open>Service\<close>: routing, parameter binding, replies and the middleware stack (\<open>asgi_app\<close>,
    one request served from one state), on a request whose body is already parsed; the
    claims give the exact reply of each endpoint over HTTP (status, headers, JSON body)
    and the store after it.
  \<^item> \<open>Concurrency\<close>: requests in flight as a step relation (\<open>sys_step\<close>) whose runs are
    any interleaving of whole requests, each served at any clock value; invariants of the
    reachable states by rule induction: the users table against the log of successful
    registrations (names, and the digest of each registered password), that a registered
    user can always log in, one winner among concurrent registrations of a name, and
    that stored rows persist.
  \<^item> \<open>JsonParse\<close>: \<open>json.loads\<close> on the body bytes: \<open>json.detect_encoding\<close>, the codecs, and
    CPython's C scanner (\<open>Modules/_json.c\<close>) with its messages and positions. The scanner's
    mutual recursion runs on fuel; \<open>2 * length s + 2\<close> suffices for any text \<open>s\<close>, because
    each nested call consumes a character (\<open>scan_progress\<close>) and each element of an array
    or object costs two units (\<open>scan_fuel\<close>), so \<open>json_decode\<close> never runs out
    (\<open>json_decode_total\<close>). Every error it reports carries one of CPython's messages
    (those of CPython up to 3.12).
  \<^item> \<open>JsonClient\<close>: what a Python client sends (\<open>json.dumps\<close> with ASCII escapes) and the
    round trip: the body parser reads back the value the client wrote.
  \<^item> \<open>RawRequest\<close>: the service on the raw body bytes: FastAPI's content-type test and
    body reading before validation. \<open>asgi_raw_client_body\<close> shows that on a body a client
    writes it behaves as \<open>asgi_app\<close> on the parsed value; the claims give its replies to
    malformed JSON (422 \<open>json_invalid\<close>), undecodable bytes (400) and a body of another
    media type (422, or 500 on bytes that are not UTF-8).
  This theory holds the claims that span components: the spec's scenario of section 8,
  registration followed by login, and the invariant of the handlers.

  Definitions are executable throughout; the claims with hypotheses have witnesses that
  evaluate them on concrete requests and states.

  Not modelled, and why: the transport (uvicorn's HTTP parsing, \<open>Content-Length\<close> and
  chunked framing) lies below the code; SQLite's \<open>SQLITE_BUSY\<close> after the driver's 5 s
  timeout and the thread pool's size depend on timing, not on the code's logic; the
  scanner's \<open>RecursionError\<close> on deeply nested JSON depends on the interpreter's stack
  depth at the call, not on the text alone; the absolute URL of a redirect's
  \<open>Location\<close> depends on the \<open>Host\<close> the transport reports; FastAPI's documentation
  routes (\<open>/openapi.json\<close>, \<open>/docs\<close>, \<open>/docs/oauth2-redirect\<close>, \<open>/redoc\<close>) serve
  generated content and are absent from the routes, so the model answers 404 there;
  the \<open>content-type\<close> and \<open>content-length\<close> headers of a JSON reply are left out;
  the finalisation of a connection a handler abandons after an exception happens at a
  time the garbage collector chooses, so such a connection stays counted as open.
\<close>

section \<open>Request sequences used by the claims\<close>

text \<open>Two runs of \<open>send_message\<close> from the start-up state: the conversation of section 8
  of the spec (alice and bob, interleaved with carol), and two messages sent in the same
  second.\<close>

definition msg :: "pystr \<Rightarrow> pystr \<Rightarrow> pystr \<Rightarrow> message_create" where
  "msg a b t = \<lparr>mc_sender = a, mc_receiver = b, mc_text = t\<rparr>"

definition scenario_server :: server where
  "scenario_server =
     snd (send_message (py ''2024-01-01 10:00:05'') (msg (py ''alice'') (py ''bob'') (py ''m3''))
     (snd (send_message (py ''2024-01-01 10:00:04'') (msg (py ''alice'') (py ''carol'') (py ''c2''))
     (snd (send_message (py ''2024-01-01 10:00:03'') (msg (py ''bob'') (py ''alice'') (py ''m2''))
     (snd (send_message (py ''2024-01-01 10:00:02'') (msg (py ''carol'') (py ''alice'') (py ''c1''))
     (snd (send_message (py ''2024-01-01 10:00:01'') (msg (py ''alice'') (py ''bob'') (py ''m1''))
        initial_server)))))))))"

definition tie_server :: server where
  "tie_server =
     snd (send_message (py ''2024-01-01 10:00:00'') (msg (py ''alice'') (py ''bob'') (py ''second''))
     (snd (send_message (py ''2024-01-01 10:00:00'') (msg (py ''alice'') (py ''bob'') (py ''first''))
        initial_server)))"

section \<open>The runs evaluated\<close>

lemma scenario_server_eq:
  "scenario_server = \<lparr>dbfile = \<lparr>users_tbl = Some [], msgs_tbl = Some
     [\<lparr>msg_id = 1, sender = py ''alice'', receiver = py ''bob'', msg_text = py ''m1'', timestamp = py ''2024-01-01 10:00:01''\<rparr>,
      \<lparr>msg_id = 2, sender = py ''carol'', receiver = py ''alice'', msg_text = py ''c1'', timestamp = py ''2024-01-01 10:00:02''\<rparr>,
      \<lparr>msg_id = 3, sender = py ''bob'', receiver = py ''alice'', msg_text = py ''m2'', timestamp = py ''2024-01-01 10:00:03''\<rparr>,
      \<lparr>msg_id = 4, sender = py ''alice'', receiver = py ''carol'', msg_text = py ''c2'', timestamp = py ''2024-01-01 10:00:04''\<rparr>,
      \<lparr>msg_id = 5, sender = py ''alice'', receiver = py ''bob'', msg_text = py ''m3'', timestamp = py ''2024-01-01 10:00:05''\<rparr>],
     msg_seq = 5\<rparr>, open_conns = 0\<rparr>"
  by (simp add: scenario_server_def msg_def initial_server_eq send_message_def insert_message_def
                max_id_def max_rowid_def Let_def bind_strs_def encodable_iff is_surrogate_def py_def)

lemma tie_server_eq:
  "tie_server = \<lparr>dbfile = \<lparr>users_tbl = Some [], msgs_tbl = Some
     [\<lparr>msg_id = 1, sender = py ''alice'', receiver = py ''bob'', msg_text = py ''first'', timestamp = py ''2024-01-01 10:00:00''\<rparr>,
      \<lparr>msg_id = 2, sender = py ''alice'', receiver = py ''bob'', msg_text = py ''second'', timestamp = py ''2024-01-01 10:00:00''\<rparr>],
     msg_seq = 2\<rparr>, open_conns = 0\<rparr>"
  by (simp add: tie_server_def msg_def initial_server_eq send_message_def insert_message_def
                max_id_def max_rowid_def Let_def bind_strs_def encodable_iff is_surrogate_def py_def)

section \<open>Claims across components\<close>

text \<open>
  C3: after a successful registration, logging in with the same username and password
  succeeds: the digest \<open>register\<close> stores is the one \<open>login\<close> recomputes.
\<close>

theorem register_then_login:
  assumes "wf_db (dbfile s)" "engine_ok eng"
    and "register \<lparr>uc_username = u, uc_password = p\<rparr> s = (Inr r, s')"
  shows "login eng \<lparr>ul_username = u, ul_password = p\<rparr> s' = (Inr (reply_message (py ''Login successful'')), s')"
proof -
  from register_Inr [OF assms(3)] obtain us h where us: "users_tbl (dbfile s) = Some us"
    and enc: "encodable u" and h: "hash_password p = Inr h" and s': "s' = s\<lparr>dbfile := (dbfile s)\<lparr>users_tbl :=
        Some (us @ [\<lparr>username = u, password_hash = h\<rparr>])\<rparr>\<rparr>"
    by auto
  have "wf_db (dbfile (snd (register \<lparr>uc_username = u, uc_password = p\<rparr> s)))"
    using assms(1) by (rule register_wf)
  then have wf': "wf_db (dbfile s')" using assms(3) by simp
  have "users_tbl (dbfile s') = Some (us @ [\<lparr>username = u, password_hash = h\<rparr>])" using s' by simp
  from login_row [OF wf' this assms(2), of "\<lparr>ul_username = u, ul_password = p\<rparr>" h] enc h
  show ?thesis by simp
qed

theorem register_then_login_witness:
  "login sqlite_engine \<lparr>ul_username = py ''alice'', ul_password = py ''secret''\<rparr>
     (snd (register \<lparr>uc_username = py ''alice'', uc_password = py ''secret''\<rparr> initial_server))
   = (Inr (reply_message (py ''Login successful'')),
      snd (register \<lparr>uc_username = py ''alice'', uc_password = py ''secret''\<rparr> initial_server))"
proof -
  obtain h where h: "hash_password (py ''secret'') = Inr h"
    using hash_password_ok [of "py ''secret''"] by (auto simp: py_def is_surrogate_def)
  have "register \<lparr>uc_username = py ''alice'', uc_password = py ''secret''\<rparr> initial_server
        = (Inr (reply_message (py ''User registered'')),
           snd (register \<lparr>uc_username = py ''alice'', uc_password = py ''secret''\<rparr> initial_server))"
    using register_new [of initial_server "[]" "\<lparr>uc_username = py ''alice'', uc_password = py ''secret''\<rparr>" h] h
    by (simp add: initial_server_eq py_def encodable_iff is_surrogate_def)
  with register_then_login [OF initial_server_wf sqlite_engine_ok] show ?thesis by blast
qed

text \<open>
  C8: every endpoint keeps the file well formed: usernames stay unique, message ids stay
  increasing and within \<open>1..sqlite_sequence\<close>, the sequence within the 64-bit range, and
  every stored string encodable.
\<close>

theorem handlers_preserve_wf:
  assumes "wf_db (dbfile s)"
  shows "wf_db (dbfile (snd (register uc s))) \<and> wf_db (dbfile (snd (login eng ul s)))
       \<and> wf_db (dbfile (snd (get_users eng s))) \<and> wf_db (dbfile (snd (send_message now mc s)))
       \<and> wf_db (dbfile (snd (get_messages eng u1 u2 s)))"
  using assms register_wf send_message_wf read_handlers_keep_file by simp

theorem handlers_preserve_wf_witness:
  "wf_db (dbfile (snd (register \<lparr>uc_username = py ''alice'', uc_password = py ''secret''\<rparr> initial_server)))
   \<and> wf_db (dbfile (snd (login sqlite_engine \<lparr>ul_username = py ''alice'', ul_password = py ''secret''\<rparr> initial_server)))
   \<and> wf_db (dbfile (snd (get_users sqlite_engine initial_server)))
   \<and> wf_db (dbfile (snd (send_message (py ''2024-01-01 10:00:00'')
        \<lparr>mc_sender = py ''alice'', mc_receiver = py ''bob'', mc_text = py ''hi''\<rparr> initial_server)))
   \<and> wf_db (dbfile (snd (get_messages sqlite_engine (py ''alice'') (py ''bob'') initial_server)))"
  by (rule handlers_preserve_wf [OF initial_server_wf])

text \<open>
  C9: a message to a receiver who never registered is stored (there is no referential
  check) and is returned by \<open>get_messages\<close> for that pair, as section 8 of the spec says.
\<close>

theorem send_to_unregistered_receiver:
  assumes "wf_db (dbfile s)" "engine_ok eng" "users_tbl (dbfile s) = Some us" "msgs_tbl (dbfile s) = Some ms"
    and "b \<notin> set (map username us)" "list_all encodable [a, b, t]" "msg_seq (dbfile s) < max_rowid"
  shows "\<exists>s' out. send_message now \<lparr>mc_sender = a, mc_receiver = b, mc_text = t\<rparr> s
                    = (Inr (reply_message (py ''Message sent'')), s')
           \<and> get_messages eng a b s' = (Inr out, s')
           \<and> \<lparr>msg_id = msg_seq (dbfile s) + 1, sender = a, receiver = b, msg_text = t, timestamp = now\<rparr> \<in> set out"
proof -
  let ?m = "\<lparr>msg_id = msg_seq (dbfile s) + 1, sender = a, receiver = b, msg_text = t, timestamp = now\<rparr>"
  let ?s' = "s\<lparr>dbfile := (dbfile s)\<lparr>msgs_tbl := Some (ms @ [?m]), msg_seq := msg_seq (dbfile s) + 1\<rparr>\<rparr>"
  have send: "send_message now \<lparr>mc_sender = a, mc_receiver = b, mc_text = t\<rparr> s
      = (Inr (reply_message (py ''Message sent'')), ?s')"
    using send_message_new [OF assms(1,4), of "\<lparr>mc_sender = a, mc_receiver = b, mc_text = t\<rparr>"] assms(6,7)
    by simp
  have "msgs_tbl (dbfile ?s') = Some (ms @ [?m])" by simp
  from get_messages_result [OF assms(2) this] assms(6) obtain out where
    out: "get_messages eng a b ?s' = (Inr out, ?s')" "mset out = mset (filter (between a b) (ms @ [?m]))"
    by auto
  have "?m \<in># mset (filter (between a b) (ms @ [?m]))" by (simp add: between_def)
  then have "?m \<in> set out" using out(2) by (metis set_mset_mset)
  with send out show ?thesis by blast
qed

theorem send_to_unregistered_receiver_witness:
  "\<exists>s' out. send_message (py ''2024-01-01 10:00:00'')
                \<lparr>mc_sender = py ''alice'', mc_receiver = py ''ghost'', mc_text = py ''hi''\<rparr> initial_server
              = (Inr (reply_message (py ''Message sent'')), s')
      \<and> get_messages sqlite_engine (py ''alice'') (py ''ghost'') s' = (Inr out, s')
      \<and> \<lparr>msg_id = 1, sender = py ''alice'', receiver = py ''ghost'', msg_text = py ''hi'',
         timestamp = py ''2024-01-01 10:00:00''\<rparr> \<in> set out"
  using send_to_unregistered_receiver [OF initial_server_wf sqlite_engine_ok, of "[]" "[]" "py ''ghost''"
      "py ''alice''" "py ''hi''" "py ''2024-01-01 10:00:00''"]
  by (simp add: initial_server_eq py_def encodable_iff is_surrogate_def max_rowid_def)

text \<open>
  C10: the scenario of section 8 of the spec: three messages between alice and bob,
  interleaved with two that involve carol, are returned for alice and bob, and only they,
  in ascending timestamp order, whatever row order the engine picks.
\<close>

theorem spec_conversation_scenario:
  assumes "engine_ok eng"
  shows "get_messages eng (py ''alice'') (py ''bob'') scenario_server =
    (Inr [\<lparr>msg_id = 1, sender = py ''alice'', receiver = py ''bob'', msg_text = py ''m1'', timestamp = py ''2024-01-01 10:00:01''\<rparr>,
          \<lparr>msg_id = 3, sender = py ''bob'', receiver = py ''alice'', msg_text = py ''m2'', timestamp = py ''2024-01-01 10:00:03''\<rparr>,
          \<lparr>msg_id = 5, sender = py ''alice'', receiver = py ''bob'', msg_text = py ''m3'', timestamp = py ''2024-01-01 10:00:05''\<rparr>],
     scenario_server)"
proof -
  let ?ms = "[\<lparr>msg_id = 1, sender = py ''alice'', receiver = py ''bob'', msg_text = py ''m1'', timestamp = py ''2024-01-01 10:00:01''\<rparr>,
      \<lparr>msg_id = 2, sender = py ''carol'', receiver = py ''alice'', msg_text = py ''c1'', timestamp = py ''2024-01-01 10:00:02''\<rparr>,
      \<lparr>msg_id = 3, sender = py ''bob'', receiver = py ''alice'', msg_text = py ''m2'', timestamp = py ''2024-01-01 10:00:03''\<rparr>,
      \<lparr>msg_id = 4, sender = py ''alice'', receiver = py ''carol'', msg_text = py ''c2'', timestamp = py ''2024-01-01 10:00:04''\<rparr>,
      \<lparr>msg_id = 5, sender = py ''alice'', receiver = py ''bob'', msg_text = py ''m3'', timestamp = py ''2024-01-01 10:00:05''\<rparr>]"
  have sel: "get_messages eng (py ''alice'') (py ''bob'') scenario_server
      = (Inr (msgs_order eng (filter (between (py ''alice'') (py ''bob'')) ?ms)), scenario_server)"
    by (rule get_messages_engine) (simp_all add: scenario_server_eq encodable_iff is_surrogate_def py_def)
  have ob: "order_by_contract timestamp (msgs_order eng)" using engine_okD [OF assms] by simp
  have "inj_on timestamp (set (filter (between (py ''alice'') (py ''bob'')) ?ms))"
    by (simp add: between_def py_def)
  then have "msgs_order eng (filter (between (py ''alice'') (py ''bob'')) ?ms)
      = sort_key timestamp (filter (between (py ''alice'') (py ''bob'')) ?ms)"
    by (rule order_by_unique [OF ob])
  with sel show ?thesis by (simp add: between_def py_def)
qed

theorem spec_conversation_scenario_witness:
  "get_messages sqlite_engine (py ''alice'') (py ''bob'') scenario_server =
    (Inr [\<lparr>msg_id = 1, sender = py ''alice'', receiver = py ''bob'', msg_text = py ''m1'', timestamp = py ''2024-01-01 10:00:01''\<rparr>,
          \<lparr>msg_id = 3, sender = py ''bob'', receiver = py ''alice'', msg_text = py ''m2'', timestamp = py ''2024-01-01 10:00:03''\<rparr>,
          \<lparr>msg_id = 5, sender = py ''alice'', receiver = py ''bob'', msg_text = py ''m3'', timestamp = py ''2024-01-01 10:00:05''\<rparr>],
     scenario_server)"
  by (rule spec_conversation_scenario [OF sqlite_engine_ok])

text \<open>
  C13: the SQL of lines 118--120 orders by timestamp only. Two messages sent in the same
  second (the resolution of \<open>CURRENT_TIMESTAMP\<close>) may come back in either order: an
  engine that keeps the \<open>ORDER BY\<close> contract returns them by descending id, although the
  stable sort SQLite uses returns them by ascending id. The tie-break by id that section 3
  of the spec states is not guaranteed by the code.
\<close>

theorem order_contract_admits_descending_ties:
  "engine_ok \<lparr>users_scan = rowid_scan, msgs_order = desc_ties_order\<rparr>
   \<and> fst (get_messages \<lparr>users_scan = rowid_scan, msgs_order = desc_ties_order\<rparr> (py ''alice'') (py ''bob'') tie_server)
       = Inr [\<lparr>msg_id = 2, sender = py ''alice'', receiver = py ''bob'', msg_text = py ''second'', timestamp = py ''2024-01-01 10:00:00''\<rparr>,
              \<lparr>msg_id = 1, sender = py ''alice'', receiver = py ''bob'', msg_text = py ''first'', timestamp = py ''2024-01-01 10:00:00''\<rparr>]
   \<and> fst (get_messages sqlite_engine (py ''alice'') (py ''bob'') tie_server)
       = Inr [\<lparr>msg_id = 1, sender = py ''alice'', receiver = py ''bob'', msg_text = py ''first'', timestamp = py ''2024-01-01 10:00:00''\<rparr>,
              \<lparr>msg_id = 2, sender = py ''alice'', receiver = py ''bob'', msg_text = py ''second'', timestamp = py ''2024-01-01 10:00:00''\<rparr>]"
proof -
  have ok: "engine_ok \<lparr>users_scan = rowid_scan, msgs_order = desc_ties_order\<rparr>"
    by (simp add: engine_ok_def rowid_scan_contract desc_ties_order_contract)
  have enc: "encodable (py ''alice'')" "encodable (py ''bob'')"
    by (simp_all add: encodable_iff is_surrogate_def py_def)
  have tbl: "msgs_tbl (dbfile tie_server) = Some
     [\<lparr>msg_id = 1, sender = py ''alice'', receiver = py ''bob'', msg_text = py ''first'', timestamp = py ''2024-01-01 10:00:00''\<rparr>,
      \<lparr>msg_id = 2, sender = py ''alice'', receiver = py ''bob'', msg_text = py ''second'', timestamp = py ''2024-01-01 10:00:00''\<rparr>]"
    by (simp add: tie_server_eq)
  show ?thesis
    using ok get_messages_engine [OF tbl enc] 
    by (simp add: desc_ties_order_def sqlite_engine_def stable_order_by_def between_def)
qed

end
